(* ===== verification/Prelude.thy ===== *)
theory Prelude
  imports Main "HOL-Library.Code_Target_Nat" "HOL-Library.Word" "HOL-Library.Signed_Division" "HOL-Library.Multiset" "HOL-Library.Sublist"
begin

text \<open>
  What the components share: C strings and the parts of the C and C++ standard libraries
  the sources call (\<open>std::string::find\<close>, \<open>isdigit\<close>, \<open>isspace\<close>, \<open>tolower\<close>,
  \<open>strtol\<close>), conversion to \<open>int32_t\<close>, and the collections of simplification rules.
  A byte is a \<open>char\<close> of HOL (eight bits), a \<open>std::string\<close> or a buffer a list of
  them. A position returned by \<open>find\<close> is \<open>Some i\<close>, \<open>std::string::npos\<close> is \<open>None\<close>.
\<close>

named_theorems parser_defs \<open>definitions of the parser's operations\<close>
named_theorems sse_defs \<open>definitions of the extension's operations\<close>
named_theorems sse_inv \<open>preservation of the extension's invariant\<close>

section \<open>Characters and C strings\<close>

abbreviation NUL :: char where "NUL \<equiv> CHR 0x00"
abbreviation TAB :: char where "TAB \<equiv> CHR 0x09"
abbreviation LF :: char where "LF \<equiv> CHR 0x0A"
abbreviation CR :: char where "CR \<equiv> CHR 0x0D"

text \<open>What a reader of \<open>s.c_str()\<close> sees: the bytes before the first NUL.\<close>

definition c_str :: "string \<Rightarrow> string" where
  "c_str s = takeWhile (\<lambda>c. c \<noteq> NUL) s"

lemma c_str_no_nul [simp]: "NUL \<notin> set s \<Longrightarrow> c_str s = s"
  by (auto simp: c_str_def takeWhile_eq_all_conv)

lemma c_str_idem [simp]: "c_str (c_str s) = c_str s"
  by (simp add: c_str_def takeWhile_idem)

lemma c_str_Nil [simp]: "c_str [] = []"
  by (simp add: c_str_def)

lemma c_str_Cons [simp]: "c_str (c # s) = (if c = NUL then [] else c # c_str s)"
  by (simp add: c_str_def)

lemma NUL_notin_c_str [simp]: "NUL \<notin> set (c_str s)"
  by (auto simp: c_str_def dest: set_takeWhileD)

text \<open>The character classes of the C locale.\<close>

definition isdigit :: "char \<Rightarrow> bool" where
  "isdigit c \<longleftrightarrow> 48 \<le> (of_char c :: nat) \<and> (of_char c :: nat) \<le> 57"

definition isspace :: "char \<Rightarrow> bool" where
  "isspace c \<longleftrightarrow> c = CHR '' '' \<or> (9 \<le> (of_char c :: nat) \<and> (of_char c :: nat) \<le> 13)"

definition tolower :: "char \<Rightarrow> char" where
  "tolower c = (if 65 \<le> (of_char c :: nat) \<and> (of_char c :: nat) \<le> 90
                then char_of ((of_char c :: nat) + 32) else c)"

definition digit_val :: "char \<Rightarrow> nat" where
  "digit_val c = (of_char c :: nat) - 48"

section \<open>Searching strings\<close>

definition find_char :: "char \<Rightarrow> string \<Rightarrow> nat option" where
  "find_char c s =
     (let i = length (takeWhile (\<lambda>x. x \<noteq> c) s) in if i < length s then Some i else None)"

fun find_str :: "string \<Rightarrow> string \<Rightarrow> nat option" where
  "find_str pat [] = (if pat = [] then Some 0 else None)"
| "find_str pat (c # s) =
     (if take (length pat) (c # s) = pat then Some 0 else map_option Suc (find_str pat s))"

lemma find_char_None [simp]: "find_char c s = None \<longleftrightarrow> c \<notin> set s"
proof -
  have "length (takeWhile (\<lambda>x. x \<noteq> c) s) < length s \<longleftrightarrow> c \<in> set s"
  proof
    assume l: "length (takeWhile (\<lambda>x. x \<noteq> c) s) < length s"
    show "c \<in> set s"
    proof (rule ccontr)
      assume "c \<notin> set s"
      then have "takeWhile (\<lambda>x. x \<noteq> c) s = s" by (auto simp: takeWhile_eq_all_conv)
      with l show False by simp
    qed
  next
    assume "c \<in> set s"
    then show "length (takeWhile (\<lambda>x. x \<noteq> c) s) < length s"
      by (induction s) auto
  qed
  then show ?thesis by (simp add: find_char_def Let_def)
qed

lemma find_char_Some_split:
  "find_char c s = Some i \<longleftrightarrow> (\<exists>u v. s = u @ c # v \<and> c \<notin> set u \<and> i = length u)"
proof
  assume "find_char c s = Some i"
  then have i: "i = length (takeWhile (\<lambda>x. x \<noteq> c) s)" and l: "i < length s"
    by (auto simp: find_char_def Let_def split: if_splits)
  have "s = takeWhile (\<lambda>x. x \<noteq> c) s @ dropWhile (\<lambda>x. x \<noteq> c) s" by simp
  moreover from i l have "dropWhile (\<lambda>x. x \<noteq> c) s \<noteq> []"
    by (metis append_Nil2 calculation less_irrefl)
  moreover from this have "hd (dropWhile (\<lambda>x. x \<noteq> c) s) = c"
    using hd_dropWhile by blast
  ultimately have "s = takeWhile (\<lambda>x. x \<noteq> c) s @ c # tl (dropWhile (\<lambda>x. x \<noteq> c) s)"
    by (metis list.collapse)
  moreover have "c \<notin> set (takeWhile (\<lambda>x. x \<noteq> c) s)" by (auto dest: set_takeWhileD)
  ultimately show "\<exists>u v. s = u @ c # v \<and> c \<notin> set u \<and> i = length u" using i by blast
next
  assume "\<exists>u v. s = u @ c # v \<and> c \<notin> set u \<and> i = length u"
  then obtain u v where s: "s = u @ c # v" "c \<notin> set u" "i = length u" by blast
  then have "takeWhile (\<lambda>x. x \<noteq> c) s = u" by (auto simp: takeWhile_append)
  with s show "find_char c s = Some i" by (simp add: find_char_def)
qed

lemma find_char_append [simp]: "c \<notin> set u \<Longrightarrow> find_char c (u @ c # v) = Some (length u)"
  by (auto simp: find_char_Some_split)

lemma find_str_Some:
  "find_str pat s = Some i \<Longrightarrow> take (length pat) (drop i s) = pat \<and> i + length pat \<le> length s"
proof (induction s arbitrary: i)
  case Nil
  then show ?case by (auto split: if_splits)
next
  case (Cons c s)
  show ?case
  proof (cases "take (length pat) (c # s) = pat")
    case True
    with Cons.prems have "i = 0" by simp
    moreover have "length pat \<le> length (c # s)"
      using True by (metis length_take min.cobounded1)
    ultimately show ?thesis using True by simp
  next
    case False
    with Cons.prems obtain j where "find_str pat s = Some j" "i = Suc j" by auto
    with Cons.IH show ?thesis by simp
  qed
qed

lemma find_str_minimal:
  "find_str pat s = Some i \<Longrightarrow> j < i \<Longrightarrow> take (length pat) (drop j s) \<noteq> pat"
proof (induction s arbitrary: i j)
  case Nil
  then show ?case by (auto split: if_splits)
next
  case (Cons c s)
  show ?case
  proof (cases "take (length pat) (c # s) = pat")
    case True
    with Cons.prems show ?thesis by simp
  next
    case False
    with Cons.prems(1) obtain k where k: "find_str pat s = Some k" "i = Suc k" by auto
    show ?thesis
    proof (cases j)
      case 0
      with False show ?thesis by simp
    next
      case (Suc j')
      with Cons.IH [OF k(1), of j'] Cons.prems(2) k(2) show ?thesis by simp
    qed
  qed
qed

section \<open>Integers\<close>

text \<open>Conversion of an integer to \<open>int32_t\<close>: two's complement truncation.\<close>

definition to_int32 :: "int \<Rightarrow> int" where
  "to_int32 n = (n + 2147483648) mod 4294967296 - 2147483648"

lemma to_int32_range: "- 2147483648 \<le> to_int32 n \<and> to_int32 n \<le> 2147483647"
  by (simp add: to_int32_def)

lemma to_int32_id: "- 2147483648 \<le> n \<Longrightarrow> n \<le> 2147483647 \<Longrightarrow> to_int32 n = n"
  by (simp add: to_int32_def)

lemma to_int32_sint: "to_int32 n = sint (word_of_int n :: 32 word)"
proof -
  have "sint (word_of_int n :: 32 word) = signed_take_bit 31 n"
    by (simp add: sint_sbintrunc')
  also have "\<dots> = to_int32 n"
    unfolding to_int32_def signed_take_bit_eq_take_bit_shift by (simp add: take_bit_eq_mod)
  finally show ?thesis by simp
qed

text \<open>
  \<open>strtol (s, &end, 10)\<close> for a \<open>long\<close> with the greatest value \<open>lmax\<close>: white space, an
  optional sign, digits. The result is the value (saturated), whether \<open>errno\<close> became
  \<open>ERANGE\<close>, and the rest of the string at \<open>end\<close> (the whole string without a digit).
\<close>

definition digits_val :: "string \<Rightarrow> nat" where
  "digits_val s = foldl (\<lambda>n c. 10 * n + digit_val c) 0 s"

definition strtol :: "int \<Rightarrow> string \<Rightarrow> int \<times> bool \<times> string" where
  "strtol lmax s =
     (let t = c_str s;
          u = dropWhile isspace t;
          neg = (u \<noteq> [] \<and> hd u = CHR ''-'');
          v = (if u \<noteq> [] \<and> (hd u = CHR ''-'' \<or> hd u = CHR ''+'') then tl u else u);
          ds = takeWhile isdigit v;
          n = int (digits_val ds)
      in if ds = [] then (0, False, t)
         else if \<not> neg \<and> n > lmax then (lmax, True, dropWhile isdigit v)
         else if neg \<and> n > lmax + 1 then (- lmax - 1, True, dropWhile isdigit v)
         else (if neg then - n else n, False, dropWhile isdigit v))"

text \<open>The greatest \<open>long\<close> of the LP64 targets (macOS, Linux) and of Windows (LLP64).\<close>

definition LONG_MAX :: int where "LONG_MAX = 9223372036854775807"
definition LONG_MAX_LLP64 :: int where "LONG_MAX_LLP64 = 2147483647"

lemma isdigit_not_space: "isdigit c \<Longrightarrow> \<not> isspace c"
  by (auto simp: isdigit_def isspace_def)

lemma isdigit_not_sign: "isdigit c \<Longrightarrow> c \<noteq> CHR ''-'' \<and> c \<noteq> CHR ''+'' \<and> c \<noteq> NUL"
  by (auto simp: isdigit_def)

lemma takeWhile_all: "\<forall>c \<in> set s. P c \<Longrightarrow> takeWhile P s = s"
  by (simp add: takeWhile_eq_all_conv)

lemma dropWhile_all: "\<forall>c \<in> set s. P c \<Longrightarrow> dropWhile P s = []"
  by simp

lemma strtol_digits:
  assumes "s \<noteq> []" and "\<forall>c \<in> set s. isdigit c"
  shows "strtol lmax s =
    (if int (digits_val s) > lmax then (lmax, True, []) else (int (digits_val s), False, []))"
proof -
  have nn: "NUL \<notin> set s" using assms(2) isdigit_not_sign by blast
  have hd: "isdigit (hd s)" using assms by simp
  have sp: "dropWhile isspace s = s" using assms(1) hd by (cases s) (auto simp: isdigit_not_space)
  show ?thesis
    unfolding strtol_def Let_def
    using assms isdigit_not_sign [OF hd]
    by (simp add: nn sp takeWhile_all del: takeWhile.simps c_str_Cons)
qed

section \<open>Arrays\<close>

text \<open>\<open>dmArray::EraseSwap\<close> moves the last element into the gap.\<close>

definition erase_swap :: "nat \<Rightarrow> 'a list \<Rightarrow> 'a list" where
  "erase_swap i xs = butlast (xs[i := last xs])"

lemma mset_erase_swap:
  assumes "i < length xs"
  shows "mset (erase_swap i xs) = mset xs - {#xs ! i#}"
proof -
  obtain ys z where xs: "xs = ys @ [z]" using assms by (cases xs rule: rev_cases) auto
  show ?thesis
  proof (cases "i = length ys")
    case True
    then show ?thesis by (simp add: xs erase_swap_def)
  next
    case False
    then have "i < length ys" using assms xs by simp
    then show ?thesis
      by (simp add: xs erase_swap_def list_update_append nth_append butlast_append mset_update)
  qed
qed

lemma take_erase_swap: "i < length xs \<Longrightarrow> take i (erase_swap i xs) = take i xs"
  by (simp add: erase_swap_def butlast_conv_take)

end
