(* ===== verification/SseTypes.thy ===== *)
theory SseTypes
  imports Prelude "HOL-Library.Monad_Syntax"
begin

text \<open>
  The data of the extension: \<open>include/sse.h\<close>, \<open>sse_private.h\<close> and the state of
  \<open>sse.cpp\<close>. The \<open>new\<close>ed connections live in a heap from addresses to objects, so
  that reading one that has been deleted shows: an operation returns an option, and
  \<open>None\<close> is undefined behaviour (a dangling pointer was followed). An address is never
  used again. \<open>malloc\<close> is taken to succeed.

  The engine SDK and the platform adapter are not part of these files: the functions of
  them that the code calls are the fields of the record \<open>env\<close>, an argument of every
  operation that calls one. A \<open>dmArray\<close> is a list.
\<close>

section \<open>Events, headers, connections\<close>

datatype SSEEventType = SSE_EVENT_OPEN | SSE_EVENT_MESSAGE | SSE_EVENT_ERROR | SSE_EVENT_CLOSED

fun event_type_code :: "SSEEventType \<Rightarrow> int" where
  "event_type_code SSE_EVENT_OPEN = 1"
| "event_type_code SSE_EVENT_MESSAGE = 2"
| "event_type_code SSE_EVENT_ERROR = 3"
| "event_type_code SSE_EVENT_CLOSED = 4"

record SSEHeader =
  hd_Name :: string
  hd_Value :: string

record SSEEvent =
  ev_Handle :: int
  ev_Type :: int
  ev_Status :: int
  ev_RetryMS :: int
  ev_Reconnect :: bool
  ev_Event :: "string option"
  ev_Data :: "string option"
  ev_Id :: "string option"
  ev_Error :: "string option"

definition SSEEvent_new :: SSEEvent where
  "SSEEvent_new = \<lparr>ev_Handle = 0, ev_Type = 0, ev_Status = 0, ev_RetryMS = 0,
     ev_Reconnect = False, ev_Event = None, ev_Data = None, ev_Id = None, ev_Error = None\<rparr>"

record SSEConnection =
  cn_Handle :: int
  cn_Url :: "string option"
  cn_LastEventId :: "string option"
  cn_RetryMS :: int
  cn_Reconnect :: bool
  cn_Connected :: bool
  cn_UserClosed :: bool
  cn_Dispatching :: bool
  cn_DestroyAfterDispatch :: bool
  cn_PlatformData :: "nat option"
  cn_Callback :: "nat option"
  cn_Headers :: "SSEHeader list"

definition SSEConnection_new :: SSEConnection where
  "SSEConnection_new = \<lparr>cn_Handle = 0, cn_Url = None, cn_LastEventId = None, cn_RetryMS = 3000,
     cn_Reconnect = False, cn_Connected = False, cn_UserClosed = False, cn_Dispatching = False,
     cn_DestroyAfterDispatch = False, cn_PlatformData = None, cn_Callback = None,
     cn_Headers = []\<rparr>"

text \<open>\<open>SSE_StrDup\<close>: a null pointer stays null, a string is copied up to its NUL.\<close>

definition SSE_StrDup :: "string option \<Rightarrow> string option" where
  "SSE_StrDup v = map_option c_str v"

section \<open>Lua values and the event table\<close>

text \<open>
  A Lua number is represented by what the Lua API reports of it: its \<open>lua_tointeger\<close> and its
  \<open>lua_tostring\<close>. A table is the list of its entries in the order of \<open>lua_next\<close>.
\<close>

datatype lua_value =
    LNil
  | LBool bool
  | LNumber int string
  | LString string
  | LTable "(lua_value \<times> lua_value) list"
  | LFunction nat

datatype lua_result = LuaRaise string | LuaReturn "lua_value list"

text \<open>The table \<open>SSE_PushEventTable\<close> builds; an absent field is \<open>None\<close>.\<close>

record event_table =
  et_type :: int
  et_handle :: int
  et_status :: "int option"
  et_event :: "string option"
  et_data :: "string option"
  et_id :: "string option"
  et_error :: "string option"
  et_reconnect :: "bool option"
  et_retry_ms :: "int option"

section \<open>The state\<close>

text \<open>
  \<open>g_SSE\<close> and \<open>g_SSEActive\<close>, the heap of connections, the callbacks that
  \<open>dmScript::CreateCallback\<close> returned and that were not yet destroyed, whether the script
  instance behind a callback is alive (which the engine decides), and the adapter's own
  state. \<open>g_NextHandle\<close> is an \<open>int32_t\<close>, taken to wrap around; \<open>g_Issued\<close> counts the handles given out, and
  \<open>g_Delivered\<close> records the event tables given to Lua, with the callback: both only record.
\<close>

record 'w sse =
  g_Heap :: "nat \<Rightarrow> SSEConnection option"
  g_NextAddr :: nat
  g_Connections :: "nat list"
  g_Events :: "SSEEvent list"
  g_EventsSwap :: "SSEEvent list"
  g_OverflowHandles :: "int list"
  g_OverflowSwap :: "int list"
  g_Capacity :: nat
  g_NextHandle :: int
  g_Issued :: nat
  g_Debug :: bool
  g_Initialized :: bool
  g_Active :: bool
  g_Callbacks :: "nat list"
  g_NextCallback :: nat
  g_CallbackValid :: "nat \<Rightarrow> bool"
  g_Delivered :: "(nat \<times> event_table) list"
  g_Platform :: 'w

definition SSE_QUEUE_CAPACITY :: nat where "SSE_QUEUE_CAPACITY = 1024"

definition deref :: "nat \<Rightarrow> 'w sse \<Rightarrow> SSEConnection option" where
  "deref a s = g_Heap s a"

definition modify :: "nat \<Rightarrow> (SSEConnection \<Rightarrow> SSEConnection) \<Rightarrow> 'w sse \<Rightarrow> 'w sse option" where
  "modify a f s = do { c \<leftarrow> deref a s; Some (s\<lparr>g_Heap := (g_Heap s)(a \<mapsto> f c)\<rparr>) }"

section \<open>The environment\<close>

text \<open>The entry points of a platform adapter (\<open>SSE_Platform_...\<close> of \<open>sse_private.h\<close>).
  \<open>ad_Connect\<close> returns the error text with \<open>false\<close>, \<open>None\<close> with \<open>true\<close>.\<close>

record 'w adapter =
  ad_Initialize :: "'w \<Rightarrow> bool \<times> 'w"
  ad_Finalize :: "'w \<Rightarrow> 'w"
  ad_IsSupported :: "'w \<Rightarrow> bool"
  ad_Connect :: "'w \<Rightarrow> SSEConnection \<Rightarrow> 'w \<times> SSEConnection \<times> string option"
  ad_Disconnect :: "'w \<Rightarrow> SSEConnection \<Rightarrow> 'w \<times> SSEConnection"
  ad_IsConnected :: "'w \<Rightarrow> SSEConnection \<Rightarrow> bool"
  ad_Update :: "'w \<Rightarrow> 'w"

text \<open>
  What happens while a Lua callback runs: the script calls the API, other threads call the
  enqueue functions and move the adapter's own state, the engine loads or unloads scripts.
\<close>

datatype 'w action =
    DoConnect "lua_value list"
  | DoDisconnect "lua_value list"
  | DoSetDebug lua_value
  | EnqueueOpen int int
  | EnqueueMessage int "string option" "string option" "string option"
  | EnqueueError int "string option" int bool int
  | EnqueueClosed int
  | SetConnected int bool
  | SetLastEventId int "string option"
  | PlatformStep "'w \<Rightarrow> 'w"
  | ScriptsChange "nat \<Rightarrow> bool"

record 'w env =
  x_Adapter :: "'w adapter"
  x_EraseSwap :: "nat \<Rightarrow> nat list \<Rightarrow> nat list"
  x_CreateCallback :: "nat \<Rightarrow> bool"
  x_SetupCallback :: "nat \<Rightarrow> bool"
  x_StringToInteger :: "string \<Rightarrow> int option"
  x_IntegerToString :: "int \<Rightarrow> string"
  x_Script :: "nat \<Rightarrow> event_table \<Rightarrow> 'w sse \<Rightarrow> 'w action list"

text \<open>
  The laws of an adapter: disconnecting clears the connection's platform data and nothing else;
  connecting sets at most the platform data, and not when it fails.
\<close>

locale platform_adapter =
  fixes ad :: "'w adapter"
  assumes disconnect_law: "snd (ad_Disconnect ad w c) = c\<lparr>cn_PlatformData := None\<rparr>"
    and connect_law:
      "cn_PlatformData c = None \<Longrightarrow> ad_Connect ad w c = (w', c', e) \<Longrightarrow>
         \<exists>d. c' = c\<lparr>cn_PlatformData := d\<rparr> \<and> (e \<noteq> None \<longrightarrow> d = None)"

text \<open>The law of \<open>dmArray::EraseSwap\<close>: it removes the element at the index.\<close>

locale sse_env = platform_adapter "x_Adapter env" for env :: "'w env" +
  assumes erase_law: "i < length xs \<Longrightarrow> mset (x_EraseSwap env i xs) = mset xs - {#xs ! i#}"

end
