(* ===== verification/EventQueue.thy ===== *)
theory EventQueue
  imports SseTypes
begin

text \<open>
  The part of \<open>sse.cpp\<close> that platform threads call: looking up a connection, the capped
  event queue with its overflow list, and the enqueue functions. Each takes the lock of
  what it touches for its whole body, so it is one atomic step here;
  \<open>SSECallbackGuard\<close> is the test of \<open>g_Active\<close> (its counter is in the theory of
  the shutdown protocol).
\<close>

section \<open>Looking up connections\<close>

fun find_conn :: "(nat \<Rightarrow> SSEConnection option) \<Rightarrow> int \<Rightarrow> nat list \<Rightarrow> nat option option" where
  "find_conn h i [] = Some None"
| "find_conn h i (a # as) =
     (case h a of None \<Rightarrow> None
      | Some c \<Rightarrow> if cn_Handle c = i then Some (Some a) else find_conn h i as)"

definition SSE_FindConnectionNoLock :: "int \<Rightarrow> 'w sse \<Rightarrow> nat option option" where
  "SSE_FindConnectionNoLock i s = find_conn (g_Heap s) i (g_Connections s)"

definition SSE_FindConnection :: "int \<Rightarrow> 'w sse \<Rightarrow> nat option option" where
  "SSE_FindConnection i s = SSE_FindConnectionNoLock i s"

section \<open>The queue\<close>

definition SSE_QueueHasOverflowHandleNoLock :: "int \<Rightarrow> 'w sse \<Rightarrow> bool" where
  "SSE_QueueHasOverflowHandleNoLock i s = list_ex (\<lambda>h. h = i) (g_OverflowHandles s)"

definition queue_full :: "'w sse \<Rightarrow> bool" where
  "queue_full s \<longleftrightarrow> g_Capacity s \<le> length (g_Events s)"

definition SSE_QueuePush :: "SSEEvent \<Rightarrow> 'w sse \<Rightarrow> bool \<times> 'w sse" where
  "SSE_QueuePush ev s =
     (if \<not> g_Active s then (False, s)
      else if queue_full s then
        (False,
         if SSE_QueueHasOverflowHandleNoLock (ev_Handle ev) s then s
         else s\<lparr>g_OverflowHandles := g_OverflowHandles s @ [ev_Handle ev]\<rparr>)
      else (True, s\<lparr>g_Events := g_Events s @ [ev]\<rparr>))"

section \<open>Cross-thread entry points\<close>

definition SSE_SetConnected :: "int \<Rightarrow> bool \<Rightarrow> 'w sse \<Rightarrow> 'w sse option" where
  "SSE_SetConnected i b s =
     (if \<not> g_Active s then Some s
      else do {
        r \<leftarrow> SSE_FindConnectionNoLock i s;
        (case r of None \<Rightarrow> Some s | Some a \<Rightarrow> modify a (\<lambda>c. c\<lparr>cn_Connected := b\<rparr>) s)
      })"

definition SSE_SetLastEventId :: "int \<Rightarrow> string option \<Rightarrow> 'w sse \<Rightarrow> 'w sse option" where
  "SSE_SetLastEventId i v s =
     (if \<not> g_Active s then Some s
      else do {
        r \<leftarrow> SSE_FindConnectionNoLock i s;
        (case r of None \<Rightarrow> Some s
         | Some a \<Rightarrow> modify a (\<lambda>c. c\<lparr>cn_LastEventId :=
             SSE_StrDup (Some (case v of None \<Rightarrow> '''' | Some x \<Rightarrow> x))\<rparr>) s)
      })"

definition SSE_IsUserClosed :: "int \<Rightarrow> 'w sse \<Rightarrow> bool option" where
  "SSE_IsUserClosed i s =
     (if \<not> g_Active s then Some True
      else do {
        r \<leftarrow> SSE_FindConnectionNoLock i s;
        (case r of None \<Rightarrow> Some True
         | Some a \<Rightarrow> do { c \<leftarrow> deref a s; Some (cn_UserClosed c) })
      })"

definition SSE_EnqueueOpen :: "int \<Rightarrow> int \<Rightarrow> 'w sse \<Rightarrow> 'w sse option" where
  "SSE_EnqueueOpen i status s = do {
     s1 \<leftarrow> SSE_SetConnected i True s;
     Some (snd (SSE_QueuePush (SSEEvent_new\<lparr>ev_Handle := i,
       ev_Type := event_type_code SSE_EVENT_OPEN, ev_Status := status\<rparr>) s1))
   }"

definition message_event :: "int \<Rightarrow> string option \<Rightarrow> string option \<Rightarrow> string option \<Rightarrow> SSEEvent" where
  "message_event i name data ident =
     SSEEvent_new\<lparr>ev_Handle := i, ev_Type := event_type_code SSE_EVENT_MESSAGE,
       ev_Event := SSE_StrDup (Some (case name of None \<Rightarrow> ''message'' | Some x \<Rightarrow> x)),
       ev_Data := SSE_StrDup (Some (case data of None \<Rightarrow> '''' | Some x \<Rightarrow> x)),
       ev_Id := SSE_StrDup (Some (case ident of None \<Rightarrow> '''' | Some x \<Rightarrow> x))\<rparr>"

definition SSE_EnqueueMessage ::
  "int \<Rightarrow> string option \<Rightarrow> string option \<Rightarrow> string option \<Rightarrow> 'w sse \<Rightarrow> bool \<times> 'w sse" where
  "SSE_EnqueueMessage i name data ident s = SSE_QueuePush (message_event i name data ident) s"

definition error_event :: "int \<Rightarrow> string option \<Rightarrow> int \<Rightarrow> bool \<Rightarrow> int \<Rightarrow> SSEEvent" where
  "error_event i err status reconnecting retry_ms =
     SSEEvent_new\<lparr>ev_Handle := i, ev_Type := event_type_code SSE_EVENT_ERROR, ev_Status := status,
       ev_RetryMS := retry_ms, ev_Reconnect := reconnecting,
       ev_Error := SSE_StrDup (Some (case err of None \<Rightarrow> ''SSE error'' | Some x \<Rightarrow> x))\<rparr>"

definition SSE_EnqueueError ::
  "int \<Rightarrow> string option \<Rightarrow> int \<Rightarrow> bool \<Rightarrow> int \<Rightarrow> 'w sse \<Rightarrow> 'w sse" where
  "SSE_EnqueueError i err status reconnecting retry_ms s =
     snd (SSE_QueuePush (error_event i err status reconnecting retry_ms) s)"

definition SSE_EnqueueClosed :: "int \<Rightarrow> 'w sse \<Rightarrow> 'w sse option" where
  "SSE_EnqueueClosed i s = do {
     s1 \<leftarrow> SSE_SetConnected i False s;
     Some (snd (SSE_QueuePush (SSEEvent_new\<lparr>ev_Handle := i,
       ev_Type := event_type_code SSE_EVENT_CLOSED\<rparr>) s1))
   }"

definition SSE_IsDebugEnabled :: "'w sse \<Rightarrow> bool" where
  "SSE_IsDebugEnabled s = g_Debug s"

lemmas queue_defs = SSE_QueuePush_def queue_full_def SSE_QueueHasOverflowHandleNoLock_def

section \<open>The queue as a bounded FIFO\<close>

text \<open>
  What the queue promises: an event is accepted and appended, or dropped with its handle noted
  once; nothing else of the state changes.
\<close>

lemma QueuePush_frame [simp]:
  "g_Heap (snd (SSE_QueuePush ev s)) = g_Heap s"
  "g_NextAddr (snd (SSE_QueuePush ev s)) = g_NextAddr s"
  "g_Connections (snd (SSE_QueuePush ev s)) = g_Connections s"
  "g_EventsSwap (snd (SSE_QueuePush ev s)) = g_EventsSwap s"
  "g_OverflowSwap (snd (SSE_QueuePush ev s)) = g_OverflowSwap s"
  "g_Capacity (snd (SSE_QueuePush ev s)) = g_Capacity s"
  "g_NextHandle (snd (SSE_QueuePush ev s)) = g_NextHandle s" "g_Issued (snd (SSE_QueuePush ev s)) = g_Issued s"
  "g_Active (snd (SSE_QueuePush ev s)) = g_Active s"
  "g_Callbacks (snd (SSE_QueuePush ev s)) = g_Callbacks s"
  "g_NextCallback (snd (SSE_QueuePush ev s)) = g_NextCallback s"
  "g_CallbackValid (snd (SSE_QueuePush ev s)) = g_CallbackValid s"
  "g_Delivered (snd (SSE_QueuePush ev s)) = g_Delivered s"
  "g_Platform (snd (SSE_QueuePush ev s)) = g_Platform s"
  by (simp_all add: SSE_QueuePush_def)

definition queue_ok :: "'w sse \<Rightarrow> bool" where
  "queue_ok s \<longleftrightarrow> length (g_Events s) \<le> g_Capacity s \<and> distinct (g_OverflowHandles s)"

lemma QueuePush_ok: "queue_ok s \<Longrightarrow> queue_ok (snd (SSE_QueuePush ev s))"
  by (auto simp: queue_ok_def queue_defs list_ex_iff)

text \<open>A burst of events, pushed one after the other.\<close>

fun push_all :: "SSEEvent list \<Rightarrow> 'w sse \<Rightarrow> 'w sse" where
  "push_all [] s = s"
| "push_all (e # es) s = push_all es (snd (SSE_QueuePush e s))"

lemma push_all_full:
  "g_Active s \<Longrightarrow> queue_full s \<Longrightarrow> distinct (g_OverflowHandles s) \<Longrightarrow>
   g_Events (push_all evs s) = g_Events s \<and> distinct (g_OverflowHandles (push_all evs s)) \<and>
   set (g_OverflowHandles (push_all evs s)) = set (g_OverflowHandles s) \<union> ev_Handle ` set evs"
proof (induction evs arbitrary: s)
  case (Cons e evs)
  let ?s = "snd (SSE_QueuePush e s)"
  have 1: "g_Active ?s" "queue_full ?s" "g_Events ?s = g_Events s" "distinct (g_OverflowHandles ?s)"
    "set (g_OverflowHandles ?s) = insert (ev_Handle e) (set (g_OverflowHandles s))"
    using Cons.prems by (auto simp: queue_defs list_ex_iff)
  from Cons.IH [OF 1(1,2,4)] 1 show ?case by auto
qed simp

text \<open>
  C11. The queue is a bounded FIFO that keeps account of its losses: of a burst of events it accepts
  the longest prefix that fits, in order, behind the events already there, and the overflow
  list then names every connection that lost an event, each once.
\<close>
theorem queue_burst:
  assumes "g_Active s" and "queue_ok s"
  shows "g_Events (push_all evs s) =
           g_Events s @ take (g_Capacity s - length (g_Events s)) evs
       \<and> set (g_OverflowHandles (push_all evs s)) = set (g_OverflowHandles s) \<union>
           ev_Handle ` set (drop (g_Capacity s - length (g_Events s)) evs)
       \<and> distinct (g_OverflowHandles (push_all evs s))"
  using assms
proof (induction evs arbitrary: s)
  case Nil
  then show ?case by (simp add: queue_ok_def)
next
  case (Cons e evs)
  show ?case
  proof (cases "queue_full s")
    case True
    with Cons.prems push_all_full [of s "e # evs"] show ?thesis
      by (simp add: queue_ok_def queue_full_def)
  next
    case False
    let ?s = "s\<lparr>g_Events := g_Events s @ [e]\<rparr>"
    have push: "snd (SSE_QueuePush e s) = ?s" using False Cons.prems by (simp add: SSE_QueuePush_def)
    have "g_Active ?s" "queue_ok ?s"
      using False Cons.prems by (auto simp: queue_ok_def queue_full_def)
    from Cons.IH [OF this] False push show ?thesis
      by (simp add: queue_full_def Suc_diff_Suc not_le flip: Suc_diff_Suc)
  qed
qed

end
