(* ===== verification/Extension.thy ===== *)
theory Extension
  imports EventQueue
begin

text \<open>
  Connections on the main thread (\<open>sse.cpp\<close>): destroying one, and the Lua API (\<open>connect\<close>, \<open>disconnect\<close>,
  \<open>is_connected\<close>, \<open>is_supported\<close>, \<open>set_debug\<close>). A result \<open>None\<close> is undefined
  behaviour: a deleted connection was read or written.
\<close>

section \<open>Destroying a connection\<close>

fun index_of :: "nat \<Rightarrow> nat list \<Rightarrow> nat option" where
  "index_of a [] = None"
| "index_of a (x # xs) = (if x = a then Some 0 else map_option Suc (index_of a xs))"

definition SSE_RemoveConnectionNoLock :: "'w env \<Rightarrow> nat \<Rightarrow> 'w sse \<Rightarrow> 'w sse" where
  "SSE_RemoveConnectionNoLock env a s =
     (case index_of a (g_Connections s) of None \<Rightarrow> s
      | Some i \<Rightarrow> s\<lparr>g_Connections := x_EraseSwap env i (g_Connections s)\<rparr>)"

text \<open>\<open>SSE_Platform_Disconnect\<close> on the connection at an address.\<close>

definition platform_disconnect :: "'w env \<Rightarrow> nat \<Rightarrow> 'w sse \<Rightarrow> 'w sse option" where
  "platform_disconnect env a s = do {
     c \<leftarrow> deref a s;
     (case ad_Disconnect (x_Adapter env) (g_Platform s) c of
        (w, c') \<Rightarrow> Some (s\<lparr>g_Platform := w, g_Heap := (g_Heap s)(a \<mapsto> c')\<rparr>))
   }"

definition SSE_DestroyConnection :: "'w env \<Rightarrow> nat \<Rightarrow> bool \<Rightarrow> 'w sse \<Rightarrow> 'w sse option" where
  "SSE_DestroyConnection env a disconnect s = do {
     c \<leftarrow> deref a s;
     s1 \<leftarrow> (if disconnect \<and> cn_PlatformData c \<noteq> None then platform_disconnect env a s else Some s);
     let s2 = SSE_RemoveConnectionNoLock env a s1;
     c2 \<leftarrow> deref a s2;
     let s3 = (case cn_Callback c2 of None \<Rightarrow> s2
               | Some k \<Rightarrow> s2\<lparr>g_Callbacks := remove1 k (g_Callbacks s2)\<rparr>);
     Some (s3\<lparr>g_Heap := (g_Heap s3)(a := None)\<rparr>)
   }"

section \<open>The options table\<close>

fun table_get :: "string \<Rightarrow> (lua_value \<times> lua_value) list \<Rightarrow> lua_value" where
  "table_get n [] = LNil"
| "table_get n ((k, v) # t) = (if k = LString n then v else table_get n t)"

fun lua_tostring :: "lua_value \<Rightarrow> string option" where
  "lua_tostring (LString s) = Some (c_str s)"
| "lua_tostring (LNumber n s) = Some (c_str s)"
| "lua_tostring v = None"

fun is_table :: "lua_value \<Rightarrow> bool" where
  "is_table (LTable t) = True"
| "is_table v = False"

text \<open>\<open>lua_isnumber\<close> with \<open>lua_tointeger\<close>: also a string that Lua can convert.\<close>

fun lua_number_of :: "'w env \<Rightarrow> lua_value \<Rightarrow> int option" where
  "lua_number_of env (LNumber n s) = Some n"
| "lua_number_of env (LString s) = x_StringToInteger env s"
| "lua_number_of env v = None"

definition lua_toboolean :: "lua_value \<Rightarrow> bool" where
  "lua_toboolean v \<longleftrightarrow> v \<noteq> LNil \<and> v \<noteq> LBool False"

definition SSE_AddHeader :: "SSEConnection \<Rightarrow> string option \<Rightarrow> string option \<Rightarrow> SSEConnection" where
  "SSE_AddHeader c name value =
     (case (name, value) of
        (Some n, Some v) \<Rightarrow>
          c\<lparr>cn_Headers := cn_Headers c @ [\<lparr>hd_Name = c_str n, hd_Value = c_str v\<rparr>]\<rparr>
      | _ \<Rightarrow> c)"

fun ReadHeaders :: "(lua_value \<times> lua_value) list \<Rightarrow> SSEConnection \<Rightarrow> SSEConnection" where
  "ReadHeaders [] c = c"
| "ReadHeaders ((k, v) # t) c =
     ReadHeaders t (case k of LString n \<Rightarrow> SSE_AddHeader c (lua_tostring k) (lua_tostring v) | _ \<Rightarrow> c)"

definition SSE_ReadOptions ::
  "'w env \<Rightarrow> lua_value option \<Rightarrow> SSEConnection \<Rightarrow> string option \<times> SSEConnection" where
  "SSE_ReadOptions env options c0 =
     (case options of None \<Rightarrow> (None, c0) | Some LNil \<Rightarrow> (None, c0)
      | Some (LTable t) \<Rightarrow>
          (case table_get ''headers'' t of
             v \<Rightarrow> if v \<noteq> LNil \<and> \<not> is_table v
               then (Some ''sse.connect options.headers must be a table'', c0)
             else let c1 = (case v of LTable h \<Rightarrow> ReadHeaders h c0 | _ \<Rightarrow> c0);
                      i = table_get ''last_event_id'' t
               in if i \<noteq> LNil \<and> lua_tostring i = None
                  then (Some ''sse.connect options.last_event_id must be a string'', c1)
                  else let c2 = (if i = LNil then c1
                                 else c1\<lparr>cn_LastEventId := SSE_StrDup (lua_tostring i)\<rparr>);
                           r = table_get ''reconnect'' t;
                           c3 = (if r = LNil then c2 else c2\<lparr>cn_Reconnect := lua_toboolean r\<rparr>);
                           m = table_get ''retry_ms'' t
                    in if m = LNil then (None, c3)
                       else (case lua_number_of env m of
                               None \<Rightarrow> (Some ''sse.connect options.retry_ms must be a number'', c3)
                             | Some n \<Rightarrow> let retry_ms = to_int32 n
                                  in (None, c3\<lparr>cn_RetryMS := (if retry_ms \<ge> 0 then retry_ms else 0)\<rparr>)))
      | Some _ \<Rightarrow> (Some ''sse.connect options must be a table'', c0))"

section \<open>The Lua API\<close>

text \<open>Argument \<open>n\<close> (from 1) of a call; a missing one is not even \<open>nil\<close>.\<close>

definition lua_arg :: "lua_value list \<Rightarrow> nat \<Rightarrow> lua_value option" where
  "lua_arg args n = (if 1 \<le> n \<and> n \<le> length args then Some (args ! (n - 1)) else None)"

definition is_function :: "lua_value option \<Rightarrow> bool" where
  "is_function v = (case v of Some (LFunction f) \<Rightarrow> True | _ \<Rightarrow> False)"

definition fail_with :: "string \<Rightarrow> lua_result" where
  "fail_with msg = LuaReturn [LNil, LString msg]"

definition SSE_Connect :: "'w env \<Rightarrow> lua_value list \<Rightarrow> 'w sse \<Rightarrow> (lua_result \<times> 'w sse) option" where
  "SSE_Connect env args s =
     (if \<not> ad_IsSupported (x_Adapter env) (g_Platform s)
      then Some (fail_with ''sse is not supported on this platform'', s)
      else case Option.bind (lua_arg args 1) lua_tostring of
        None \<Rightarrow> Some (LuaRaise ''string expected'', s)
      | Some url \<Rightarrow>
        let short = is_function (lua_arg args 2);
            callback_index = (if short then 2 else 3);
            options = (if short then None else lua_arg args 2)
        in if \<not> is_function (lua_arg args callback_index)
           then Some (LuaRaise ''function expected'', s)
        else
          let a = g_NextAddr s; k = g_NextCallback s; created = x_CreateCallback env k;
              c = SSEConnection_new\<lparr>cn_Handle := g_NextHandle s, cn_Url := SSE_StrDup (Some url),
                    cn_Callback := (if created then Some k else None)\<rparr>;
              s1 = s\<lparr>g_NextAddr := Suc a, g_NextHandle := to_int32 (g_NextHandle s + 1),
                     g_Issued := Suc (g_Issued s),
                     g_NextCallback := Suc k,
                     g_Callbacks := (if created then k # g_Callbacks s else g_Callbacks s),
                     g_Heap := (g_Heap s)(a \<mapsto> c)\<rparr>
          in if \<not> created \<or> \<not> g_CallbackValid s1 k then do {
               s2 \<leftarrow> SSE_DestroyConnection env a False s1;
               Some (fail_with ''failed to create sse callback'', s2) }
          else (case SSE_ReadOptions env options c of
            (Some err, c1) \<Rightarrow> do {
               s2 \<leftarrow> SSE_DestroyConnection env a False (s1\<lparr>g_Heap := (g_Heap s1)(a \<mapsto> c1)\<rparr>);
               Some (fail_with (if err = [] then ''invalid sse.connect options'' else err), s2) }
          | (None, c1) \<Rightarrow>
              let s2 = s1\<lparr>g_Heap := (g_Heap s1)(a \<mapsto> c1), g_Connections := g_Connections s1 @ [a]\<rparr>
              in (case ad_Connect (x_Adapter env) (g_Platform s2) c1 of (w, c2, failed) \<Rightarrow>
                let s3 = s2\<lparr>g_Platform := w, g_Heap := (g_Heap s2)(a \<mapsto> c2)\<rparr>
                in (case failed of
                      Some err \<Rightarrow> do {
                        s4 \<leftarrow> SSE_DestroyConnection env a False s3;
                        Some (fail_with (if err = [] then ''failed to connect sse'' else err), s4) }
                    | None \<Rightarrow> Some (LuaReturn [LNumber (cn_Handle c2) (x_IntegerToString env (cn_Handle c2))], s3)))))"

definition SSE_Disconnect :: "'w env \<Rightarrow> lua_value list \<Rightarrow> 'w sse \<Rightarrow> (lua_result \<times> 'w sse) option" where
  "SSE_Disconnect env args s =
     (case Option.bind (lua_arg args 1) (lua_number_of env) of
        None \<Rightarrow> Some (LuaRaise ''number expected'', s)
      | Some n \<Rightarrow> do {
          r \<leftarrow> SSE_FindConnection (to_int32 n) s;
          (case r of None \<Rightarrow> Some (LuaReturn [], s)
           | Some a \<Rightarrow> do {
               c \<leftarrow> deref a s;
               if cn_UserClosed c then Some (LuaReturn [], s)
               else do {
                 s1 \<leftarrow> modify a (\<lambda>c. c\<lparr>cn_UserClosed := True, cn_Connected := False\<rparr>) s;
                 s2 \<leftarrow> (if cn_PlatformData c \<noteq> None then platform_disconnect env a s1 else Some s1);
                 c2 \<leftarrow> deref a s2;
                 s3 \<leftarrow> (if cn_Dispatching c2
                        then modify a (\<lambda>c. c\<lparr>cn_DestroyAfterDispatch := True\<rparr>) s2
                        else SSE_DestroyConnection env a False s2);
                 Some (LuaReturn [], s3) } })
        })"

definition SSE_IsSupported :: "'w env \<Rightarrow> 'w sse \<Rightarrow> lua_result" where
  "SSE_IsSupported env s = LuaReturn [LBool (ad_IsSupported (x_Adapter env) (g_Platform s))]"

definition SSE_IsConnected :: "'w env \<Rightarrow> lua_value list \<Rightarrow> 'w sse \<Rightarrow> lua_result option" where
  "SSE_IsConnected env args s =
     (case Option.bind (lua_arg args 1) (lua_number_of env) of
        None \<Rightarrow> Some (LuaRaise ''number expected'')
      | Some n \<Rightarrow> do {
          r \<leftarrow> SSE_FindConnection (to_int32 n) s;
          (case r of None \<Rightarrow> Some (LuaReturn [LBool False])
           | Some a \<Rightarrow> do {
               c \<leftarrow> deref a s;
               Some (LuaReturn [LBool (cn_Connected c
                 \<and> ad_IsConnected (x_Adapter env) (g_Platform s) c)]) })
        })"

definition SSE_SetDebug :: "lua_value \<Rightarrow> 'w sse \<Rightarrow> 'w sse" where
  "SSE_SetDebug v s = s\<lparr>g_Debug := lua_toboolean v\<rparr>"

end
