(* ===== verification/Lifecycle.thy ===== *)
theory Lifecycle
  imports Extension
begin

text \<open>
  Dispatching queued events to Lua, and the extension's life cycle (\<open>sse.cpp\<close>). While a
  callback runs, the actions of the environment's script happen: calls of the Lua API by the
  callback itself and steps of other threads, in any order.
\<close>

section \<open>What happens during a callback\<close>

fun RunAction :: "'w env \<Rightarrow> 'w action \<Rightarrow> 'w sse \<Rightarrow> 'w sse option" where
  "RunAction env (DoConnect args) s = map_option snd (SSE_Connect env args s)"
| "RunAction env (DoDisconnect args) s = map_option snd (SSE_Disconnect env args s)"
| "RunAction env (DoSetDebug v) s = Some (SSE_SetDebug v s)"
| "RunAction env (EnqueueOpen i st) s = SSE_EnqueueOpen i st s"
| "RunAction env (EnqueueMessage i n d e) s = Some (snd (SSE_EnqueueMessage i n d e s))"
| "RunAction env (EnqueueError i e st b r) s = Some (SSE_EnqueueError i e st b r s)"
| "RunAction env (EnqueueClosed i) s = SSE_EnqueueClosed i s"
| "RunAction env (SetConnected i b) s = SSE_SetConnected i b s"
| "RunAction env (SetLastEventId i v) s = SSE_SetLastEventId i v s"
| "RunAction env (PlatformStep f) s = Some (s\<lparr>g_Platform := f (g_Platform s)\<rparr>)"
| "RunAction env (ScriptsChange v) s = Some (s\<lparr>g_CallbackValid := v\<rparr>)"

fun RunActions :: "'w env \<Rightarrow> 'w action list \<Rightarrow> 'w sse \<Rightarrow> 'w sse option" where
  "RunActions env [] s = Some s"
| "RunActions env (x # xs) s = do { s1 \<leftarrow> RunAction env x s; RunActions env xs s1 }"

section \<open>Dispatching\<close>

definition SSE_PushEventTable :: "SSEEvent \<Rightarrow> event_table" where
  "SSE_PushEventTable ev =
     (let message = (ev_Type ev = event_type_code SSE_EVENT_MESSAGE);
          error = (\<not> message \<and> ev_Type ev = event_type_code SSE_EVENT_ERROR);
          str = (\<lambda>v d. Some (case v of None \<Rightarrow> d | Some x \<Rightarrow> x))
      in \<lparr>et_type = ev_Type ev, et_handle = ev_Handle ev,
          et_status = (if ev_Status ev > 0 then Some (ev_Status ev) else None),
          et_event = (if message then str (ev_Event ev) ''message'' else None),
          et_data = (if message then str (ev_Data ev) '''' else None),
          et_id = (if message then str (ev_Id ev) '''' else None),
          et_error = (if error then str (ev_Error ev) ''SSE error'' else None),
          et_reconnect = (if error then Some (ev_Reconnect ev) else None),
          et_retry_ms = (if error \<and> ev_RetryMS ev \<ge> 0 then Some (ev_RetryMS ev) else None)\<rparr>)"

text \<open>The call of the script between \<open>SetupCallback\<close> and \<open>TeardownCallback\<close>.\<close>

definition call_lua :: "'w env \<Rightarrow> nat \<Rightarrow> event_table \<Rightarrow> 'w sse \<Rightarrow> 'w sse option" where
  "call_lua env k tbl s =
     (let s1 = s\<lparr>g_Delivered := g_Delivered s @ [(k, tbl)]\<rparr>
      in RunActions env (x_Script env k tbl s1) s1)"

definition SSE_DispatchEvent :: "'w env \<Rightarrow> SSEEvent \<Rightarrow> 'w sse \<Rightarrow> 'w sse option" where
  "SSE_DispatchEvent env ev s = do {
     r \<leftarrow> SSE_FindConnection (ev_Handle ev) s;
     (case r of None \<Rightarrow> Some s
      | Some a \<Rightarrow> do {
          c \<leftarrow> deref a s;
          (case cn_Callback c of None \<Rightarrow> Some s
           | Some k \<Rightarrow>
               if cn_UserClosed c then Some s
               else if \<not> g_CallbackValid s k then do {
                 s1 \<leftarrow> modify a (\<lambda>c. c\<lparr>cn_UserClosed := True\<rparr>) s;
                 SSE_DestroyConnection env a True s1 }
               else do {
                 s1 \<leftarrow> modify a (\<lambda>c. c\<lparr>cn_Dispatching := True\<rparr>) s;
                 s2 \<leftarrow> (if x_SetupCallback env k then call_lua env k (SSE_PushEventTable ev) s1
                        else Some s1);
                 c2 \<leftarrow> deref a s2;
                 s3 \<leftarrow> modify a (\<lambda>c. c\<lparr>cn_Dispatching := False\<rparr>) s2;
                 if cn_DestroyAfterDispatch c2 then SSE_DestroyConnection env a False s3 else Some s3 })
        })
   }"

definition overflow_event :: "int \<Rightarrow> SSEEvent" where
  "overflow_event i = SSEEvent_new\<lparr>ev_Handle := i, ev_Type := event_type_code SSE_EVENT_ERROR,
     ev_Status := 0, ev_RetryMS := -1,
     ev_Error := SSE_StrDup (Some ''SSE event queue overflow; events were dropped'')\<rparr>"

definition SSE_DispatchOverflow :: "'w env \<Rightarrow> int \<Rightarrow> 'w sse \<Rightarrow> 'w sse option" where
  "SSE_DispatchOverflow env i s = SSE_DispatchEvent env (overflow_event i) s"

fun dispatch_all :: "'w env \<Rightarrow> SSEEvent list \<Rightarrow> 'w sse \<Rightarrow> 'w sse option" where
  "dispatch_all env [] s = Some s"
| "dispatch_all env (e # es) s = do { s1 \<leftarrow> SSE_DispatchEvent env e s; dispatch_all env es s1 }"

fun overflow_all :: "'w env \<Rightarrow> int list \<Rightarrow> 'w sse \<Rightarrow> 'w sse option" where
  "overflow_all env [] s = Some s"
| "overflow_all env (i # is) s = do { s1 \<leftarrow> SSE_DispatchOverflow env i s; overflow_all env is s1 }"

text \<open>
  The loops run over the scratch arrays, which nothing else writes, and empty them afterwards.
\<close>

definition SSE_FlushQueue :: "'w env \<Rightarrow> 'w sse \<Rightarrow> 'w sse option" where
  "SSE_FlushQueue env s =
     (let s1 = s\<lparr>g_Events := g_EventsSwap s, g_EventsSwap := g_Events s,
                 g_OverflowHandles := g_OverflowSwap s, g_OverflowSwap := g_OverflowHandles s\<rparr>
      in do {
        s2 \<leftarrow> dispatch_all env (g_EventsSwap s1) s1;
        s3 \<leftarrow> overflow_all env (g_OverflowSwap s1) (s2\<lparr>g_EventsSwap := []\<rparr>);
        Some (s3\<lparr>g_OverflowSwap := []\<rparr>)
      })"

section \<open>Life cycle\<close>

text \<open>The state before the extension is loaded: zero-initialised statics.\<close>

definition sse_zero :: "(nat \<Rightarrow> bool) \<Rightarrow> 'w \<Rightarrow> 'w sse" where
  "sse_zero valid w = \<lparr>g_Heap = (\<lambda>_. None), g_NextAddr = 1, g_Connections = [], g_Events = [],
     g_EventsSwap = [], g_OverflowHandles = [], g_OverflowSwap = [], g_Capacity = 0,
     g_NextHandle = 0, g_Issued = 0, g_Debug = False, g_Initialized = False, g_Active = False,
     g_Callbacks = [], g_NextCallback = 0, g_CallbackValid = valid, g_Delivered = [],
     g_Platform = w\<rparr>"

definition AppInitializeSSE :: "'w sse \<Rightarrow> 'w sse" where
  "AppInitializeSSE s = s\<lparr>g_NextHandle := 1, g_Issued := 0, g_Debug := False, g_Initialized := True,
     g_Capacity := SSE_QUEUE_CAPACITY, g_Active := True\<rparr>"

definition InitializeSSE :: "'w env \<Rightarrow> 'w sse \<Rightarrow> 'w sse" where
  "InitializeSSE env s = s\<lparr>g_Platform := snd (ad_Initialize (x_Adapter env) (g_Platform s))\<rparr>"

definition UpdateSSE :: "'w env \<Rightarrow> 'w sse \<Rightarrow> 'w sse option" where
  "UpdateSSE env s = do {
     s1 \<leftarrow> SSE_FlushQueue env s;
     Some (s1\<lparr>g_Platform := ad_Update (x_Adapter env) (g_Platform s1)\<rparr>)
   }"

fun FinalizeLoop :: "'w env \<Rightarrow> nat \<Rightarrow> 'w sse \<Rightarrow> 'w sse option" where
  "FinalizeLoop env fuel s =
     (case g_Connections s of [] \<Rightarrow> Some s
      | a # as \<Rightarrow> (case fuel of 0 \<Rightarrow> None
          | Suc n \<Rightarrow> do { s1 \<leftarrow> SSE_DestroyConnection env a True s; FinalizeLoop env n s1 }))"

declare FinalizeLoop.simps [simp del]

text \<open>The fuel of the loop is the number of connections, each of which it destroys.\<close>

definition FinalizeSSE :: "'w env \<Rightarrow> 'w sse \<Rightarrow> 'w sse option" where
  "FinalizeSSE env s = do {
     s1 \<leftarrow> FinalizeLoop env (length (g_Connections s)) s;
     s2 \<leftarrow> SSE_FlushQueue env s1;
     Some (s2\<lparr>g_Platform := ad_Finalize (x_Adapter env) (g_Platform s2)\<rparr>)
   }"

text \<open>\<open>AppFinalizeSSE\<close> once the entrants have left (see the theory of the guard).\<close>

definition AppFinalizeSSE :: "'w sse \<Rightarrow> 'w sse" where
  "AppFinalizeSSE s = s\<lparr>g_Active := False, g_Events := [], g_OverflowHandles := [],
     g_Capacity := 0, g_Connections := [], g_NextHandle := 0, g_Debug := False,
     g_Initialized := False\<rparr>"

end
