(* ===== verification/ExtensionInv.thy ===== *)
theory ExtensionInv
  imports Lifecycle
begin

text \<open>
  The invariant of the extension and its preservation by every operation. \<open>struct_ok\<close>: the
  registered connections are exactly the live objects, each once, and the outstanding callback references are exactly
  theirs; until the handles have wrapped around, the live ones are distinct and the next one is new. \<open>flags_ok D\<close>: \<open>D\<close> is the set
  of addresses whose callback is running; only those are marked as dispatching, a connection
  closed by the user survives only inside its own callback, to be destroyed after it, and
  its platform data is gone.
\<close>

text \<open>The handles given out so far are the numbers from 1 on, and the next one fits 32 bits.\<close>

definition no_wrap :: "'w sse \<Rightarrow> bool" where
  "no_wrap s \<longleftrightarrow> g_Issued s < 2147483647"

definition struct_ok :: "'w sse \<Rightarrow> bool" where
  "struct_ok s \<longleftrightarrow>
     distinct (g_Connections s) \<and> set (g_Connections s) = dom (g_Heap s)
     \<and> (\<forall>a \<in> dom (g_Heap s). a < g_NextAddr s)
     \<and> (no_wrap s \<longrightarrow> g_NextHandle s = 1 + int (g_Issued s))
     \<and> (\<forall>a c. g_Heap s a = Some c \<longrightarrow> (no_wrap s \<longrightarrow> cn_Handle c < g_NextHandle s)
          \<and> (\<exists>k \<in> set (g_Callbacks s). cn_Callback c = Some k))
     \<and> (\<forall>a b c d. g_Heap s a = Some c \<longrightarrow> g_Heap s b = Some d \<longrightarrow>
          no_wrap s \<and> cn_Handle c = cn_Handle d \<or> cn_Callback c = cn_Callback d \<longrightarrow> a = b)
     \<and> distinct (g_Callbacks s)
     \<and> (\<forall>k \<in> set (g_Callbacks s). k < g_NextCallback s
          \<and> (\<exists>a c. g_Heap s a = Some c \<and> cn_Callback c = Some k))"

lemma struct_okD:
  assumes "struct_ok s"
  shows "distinct (g_Connections s)" and "set (g_Connections s) = dom (g_Heap s)"
    and "\<And>a c. g_Heap s a = Some c \<Longrightarrow> a < g_NextAddr s"
    and "\<And>a c. no_wrap s \<Longrightarrow> g_Heap s a = Some c \<Longrightarrow> cn_Handle c < g_NextHandle s"
    and "\<And>a c. g_Heap s a = Some c \<Longrightarrow> \<exists>k \<in> set (g_Callbacks s). cn_Callback c = Some k"
    and "\<And>a b c d. g_Heap s a = Some c \<Longrightarrow> g_Heap s b = Some d \<Longrightarrow>
           no_wrap s \<and> cn_Handle c = cn_Handle d \<or> cn_Callback c = cn_Callback d \<Longrightarrow> a = b"
    and "distinct (g_Callbacks s)"
    and "\<And>k. k \<in> set (g_Callbacks s) \<Longrightarrow> k < g_NextCallback s"
    and "\<And>k. k \<in> set (g_Callbacks s) \<Longrightarrow> \<exists>a c. g_Heap s a = Some c \<and> cn_Callback c = Some k"
    and "no_wrap s \<Longrightarrow> g_NextHandle s = 1 + int (g_Issued s)"
  using assms unfolding struct_ok_def by (blast+)

lemma struct_okI:
  assumes "distinct (g_Connections s)" and "set (g_Connections s) = dom (g_Heap s)"
    and "\<And>a c. g_Heap s a = Some c \<Longrightarrow> a < g_NextAddr s"
    and "\<And>a c. no_wrap s \<Longrightarrow> g_Heap s a = Some c \<Longrightarrow> cn_Handle c < g_NextHandle s"
    and "\<And>a c. g_Heap s a = Some c \<Longrightarrow> \<exists>k \<in> set (g_Callbacks s). cn_Callback c = Some k"
    and "\<And>a b c d. g_Heap s a = Some c \<Longrightarrow> g_Heap s b = Some d \<Longrightarrow>
           no_wrap s \<and> cn_Handle c = cn_Handle d \<or> cn_Callback c = cn_Callback d \<Longrightarrow> a = b"
    and "distinct (g_Callbacks s)"
    and "\<And>k. k \<in> set (g_Callbacks s) \<Longrightarrow> k < g_NextCallback s"
    and "\<And>k. k \<in> set (g_Callbacks s) \<Longrightarrow> \<exists>a c. g_Heap s a = Some c \<and> cn_Callback c = Some k"
    and "no_wrap s \<Longrightarrow> g_NextHandle s = 1 + int (g_Issued s)"
  shows "struct_ok s"
  using assms unfolding struct_ok_def by (intro conjI ballI allI impI) blast+

definition conn_flags :: "bool \<Rightarrow> SSEConnection \<Rightarrow> bool" where
  "conn_flags d c \<longleftrightarrow> cn_Dispatching c = d \<and> cn_DestroyAfterDispatch c = cn_UserClosed c
     \<and> (cn_UserClosed c \<longrightarrow> d \<and> cn_PlatformData c = None)"

definition flags_ok :: "nat set \<Rightarrow> nat set \<Rightarrow> 'w sse \<Rightarrow> bool" where
  "flags_ok D X s \<longleftrightarrow> D \<subseteq> dom (g_Heap s)
     \<and> (\<forall>a c. g_Heap s a = Some c \<longrightarrow> a \<notin> X \<longrightarrow> conn_flags (a \<in> D) c)"

lemma flags_okD: "flags_ok D X s \<Longrightarrow> g_Heap s a = Some c \<Longrightarrow> a \<notin> X \<Longrightarrow> conn_flags (a \<in> D) c"
  by (simp add: flags_ok_def)

lemma flags_ok_drop:
  assumes "flags_ok {a} {} s"
  shows "flags_ok {} {a} s"
proof -
  have "conn_flags False c" if "g_Heap s b = Some c" "b \<noteq> a" for b c
    using flags_okD [OF assms that(1)] that(2) by simp
  then show ?thesis by (simp add: flags_ok_def)
qed

definition sse_ok :: "nat set \<Rightarrow> 'w sse \<Rightarrow> bool" where
  "sse_ok D s \<longleftrightarrow> struct_ok s \<and> flags_ok D {} s \<and> queue_ok s"

section \<open>Frames: the fields the invariant reads\<close>

definition same_core :: "'w sse \<Rightarrow> 'w sse \<Rightarrow> bool" where
  "same_core s t \<longleftrightarrow> g_Heap t = g_Heap s \<and> g_Connections t = g_Connections s
     \<and> g_NextAddr t = g_NextAddr s \<and> g_NextHandle t = g_NextHandle s \<and> g_Issued t = g_Issued s
     \<and> g_Callbacks t = g_Callbacks s \<and> g_NextCallback t = g_NextCallback s"

lemma wf_same_core: "same_core s t \<Longrightarrow> queue_ok t \<Longrightarrow> sse_ok D s \<Longrightarrow> sse_ok D t"
proof -
  assume c: "same_core s t" and q: "queue_ok t" and s: "sse_ok D s"
  have w: "no_wrap t = no_wrap s" using c by (simp add: same_core_def no_wrap_def)
  have "struct_ok t = struct_ok s"
    unfolding struct_ok_def w using c by (simp add: same_core_def)
  with c q s show ?thesis by (simp add: sse_ok_def flags_ok_def same_core_def)
qed

lemma no_wrap_heap [simp]: "no_wrap (s\<lparr>g_Heap := h\<rparr>) = no_wrap s"
  by (simp add: no_wrap_def)

lemma struct_ok_platform [simp]: "struct_ok (s\<lparr>g_Platform := w\<rparr>) = struct_ok s"
  by (simp add: struct_ok_def no_wrap_def)

lemma wf_push: "sse_ok D s \<Longrightarrow> sse_ok D (snd (SSE_QueuePush ev s))"
  by (rule wf_same_core [of s]) (auto simp: same_core_def sse_ok_def QueuePush_ok)

lemma wf_platform: "sse_ok D s \<Longrightarrow> sse_ok D (s\<lparr>g_Platform := w\<rparr>)"
  by (rule wf_same_core [of s]) (auto simp: same_core_def sse_ok_def queue_ok_def)

lemma wf_debug: "sse_ok D s \<Longrightarrow> sse_ok D (s\<lparr>g_Debug := b\<rparr>)"
  by (rule wf_same_core [of s]) (auto simp: same_core_def sse_ok_def queue_ok_def)

lemma wf_valid: "sse_ok D s \<Longrightarrow> sse_ok D (s\<lparr>g_CallbackValid := v\<rparr>)"
  by (rule wf_same_core [of s]) (auto simp: same_core_def sse_ok_def queue_ok_def)

lemma wf_delivered: "sse_ok D s \<Longrightarrow> sse_ok D (s\<lparr>g_Delivered := l\<rparr>)"
  by (rule wf_same_core [of s]) (auto simp: same_core_def sse_ok_def queue_ok_def)

section \<open>Lookup and update\<close>

lemma find_conn_total:
  "\<forall>a \<in> set as. h a \<noteq> None \<Longrightarrow> \<exists>r. find_conn h i as = Some r
     \<and> (\<forall>a. r = Some a \<longrightarrow> a \<in> set as \<and> (\<exists>c. h a = Some c \<and> cn_Handle c = i))
     \<and> (r = None \<longrightarrow> (\<forall>a \<in> set as. \<forall>c. h a = Some c \<longrightarrow> cn_Handle c \<noteq> i))"
  by (induction as) (auto split: option.splits)

lemma FindConnection_ok:
  assumes "struct_ok s"
  obtains (found) a c where "SSE_FindConnection i s = Some (Some a)" "g_Heap s a = Some c"
      "cn_Handle c = i"
    | (missing) "SSE_FindConnection i s = Some None" "\<forall>a c. g_Heap s a = Some c \<longrightarrow> cn_Handle c \<noteq> i"
proof -
  have "\<forall>a \<in> set (g_Connections s). g_Heap s a \<noteq> None" and d: "set (g_Connections s) = dom (g_Heap s)"
    using assms by (auto simp: struct_ok_def)
  from find_conn_total [OF this(1), of i] obtain r where
    r: "SSE_FindConnection i s = Some r"
       "\<forall>a. r = Some a \<longrightarrow> a \<in> set (g_Connections s) \<and> (\<exists>c. g_Heap s a = Some c \<and> cn_Handle c = i)"
       "r = None \<longrightarrow> (\<forall>a \<in> set (g_Connections s). \<forall>c. g_Heap s a = Some c \<longrightarrow> cn_Handle c \<noteq> i)"
    by (auto simp: SSE_FindConnection_def SSE_FindConnectionNoLock_def)
  show thesis
  proof (cases r)
    case None
    with r d show thesis by (intro missing) auto
  next
    case (Some a)
    with r show thesis using found by auto
  qed
qed

text \<open>An update that keeps a connection's handle and callback keeps the structure.\<close>

definition same_ident :: "SSEConnection \<Rightarrow> SSEConnection \<Rightarrow> bool" where
  "same_ident c c' \<longleftrightarrow> cn_Handle c' = cn_Handle c \<and> cn_Callback c' = cn_Callback c"

lemma struct_ok_update:
  assumes "struct_ok s" and "g_Heap s a = Some c" and "same_ident c c'"
  shows "struct_ok (s\<lparr>g_Heap := (g_Heap s)(a \<mapsto> c')\<rparr>)"
proof -
  have "\<exists>b d. ((g_Heap s)(a \<mapsto> c')) b = Some d \<and> cn_Callback d = Some k"
    if "k \<in> set (g_Callbacks s)" for k
  proof -
    from assms(1) that obtain b d where "g_Heap s b = Some d" "cn_Callback d = Some k"
      by (fastforce simp: struct_ok_def)
    then show ?thesis using assms(2,3)
      by (cases "b = a") (auto simp: same_ident_def intro!: exI [of _ b])
  qed
  with assms show ?thesis
    unfolding struct_ok_def same_ident_def no_wrap_heap by (auto simp: dom_def split: if_splits)
qed

lemma flags_ok_update:
  assumes "flags_ok D (insert a X) s" and "g_Heap s a = Some c" and "conn_flags (a \<in> D) c'"
  shows "flags_ok D X (s\<lparr>g_Heap := (g_Heap s)(a \<mapsto> c')\<rparr>)"
  using assms by (auto simp: flags_ok_def)

lemma flags_ok_mono: "flags_ok D X s \<Longrightarrow> X \<subseteq> Y \<Longrightarrow> flags_ok D Y s"
  by (auto simp: flags_ok_def)

lemma wf_update:
  assumes "sse_ok D s" and "g_Heap s a = Some c" and "same_ident c (f c)"
    and "conn_flags (a \<in> D) c \<Longrightarrow> conn_flags (a \<in> D) (f c)"
  shows "\<exists>s'. modify a f s = Some s' \<and> sse_ok D s'"
proof -
  have "conn_flags (a \<in> D) c" using assms(1,2) by (simp add: sse_ok_def flags_ok_def)
  moreover have "flags_ok D (insert a {}) s"
    using assms(1) flags_ok_mono by (auto simp: sse_ok_def)
  ultimately have "sse_ok D (s\<lparr>g_Heap := (g_Heap s)(a \<mapsto> f c)\<rparr>)"
    using assms struct_ok_update [of s a c "f c"] flags_ok_update [of D a "{}" s c "f c"]
    by (simp add: sse_ok_def queue_ok_def)
  then show ?thesis using assms(2) by (simp add: modify_def deref_def)
qed

section \<open>The cross-thread entry points\<close>

lemma SetConnected_wf: "sse_ok D s \<Longrightarrow> \<exists>s'. SSE_SetConnected i b s = Some s' \<and> sse_ok D s'"
proof (cases "g_Active s")
  case True
  assume w: "sse_ok D s"
  then have "struct_ok s" by (simp add: sse_ok_def)
  then show ?thesis
  proof (cases rule: FindConnection_ok [of s i])
    case (found a c)
    with True wf_update [OF w found(2), of "\<lambda>c. c\<lparr>cn_Connected := b\<rparr>"] show ?thesis
      by (simp add: SSE_SetConnected_def SSE_FindConnection_def same_ident_def conn_flags_def)
  next
    case missing
    with True w show ?thesis by (simp add: SSE_SetConnected_def SSE_FindConnection_def)
  qed
qed (simp add: SSE_SetConnected_def)

lemma SetLastEventId_wf: "sse_ok D s \<Longrightarrow> \<exists>s'. SSE_SetLastEventId i v s = Some s' \<and> sse_ok D s'"
proof (cases "g_Active s")
  case True
  assume w: "sse_ok D s"
  then have "struct_ok s" by (simp add: sse_ok_def)
  then show ?thesis
  proof (cases rule: FindConnection_ok [of s i])
    case (found a c)
    let ?f = "\<lambda>c. c\<lparr>cn_LastEventId := SSE_StrDup (Some (case v of None \<Rightarrow> '''' | Some x \<Rightarrow> x))\<rparr>"
    from found True wf_update [OF w found(2), of ?f] show ?thesis
      by (simp add: SSE_SetLastEventId_def SSE_FindConnection_def same_ident_def conn_flags_def)
  next
    case missing
    with True w show ?thesis by (simp add: SSE_SetLastEventId_def SSE_FindConnection_def)
  qed
qed (simp add: SSE_SetLastEventId_def)

lemma EnqueueOpen_wf: "sse_ok D s \<Longrightarrow> \<exists>s'. SSE_EnqueueOpen i st s = Some s' \<and> sse_ok D s'"
  using SetConnected_wf [of D s i True] by (auto simp: SSE_EnqueueOpen_def intro: wf_push)

lemma EnqueueClosed_wf: "sse_ok D s \<Longrightarrow> \<exists>s'. SSE_EnqueueClosed i s = Some s' \<and> sse_ok D s'"
  using SetConnected_wf [of D s i False] by (auto simp: SSE_EnqueueClosed_def intro: wf_push)

lemma EnqueueMessage_wf: "sse_ok D s \<Longrightarrow> sse_ok D (snd (SSE_EnqueueMessage i n d e s))"
  by (simp add: SSE_EnqueueMessage_def wf_push)

lemma EnqueueError_wf: "sse_ok D s \<Longrightarrow> sse_ok D (SSE_EnqueueError i e st b r s)"
  by (simp add: SSE_EnqueueError_def wf_push)

section \<open>Removing a connection\<close>

lemma index_of_Some: "a \<in> set xs \<Longrightarrow> \<exists>i. index_of a xs = Some i \<and> i < length xs \<and> xs ! i = a"
  by (induction xs) auto

lemma index_of_None: "a \<notin> set xs \<Longrightarrow> index_of a xs = None"
  by (induction xs) auto

lemma mset_remove:
  assumes "distinct xs" and "mset ys = mset xs - {#a#}" and "a \<in> set xs"
  shows "distinct ys \<and> set ys = set xs - {a} \<and> length ys = length xs - 1"
proof -
  have ys: "mset ys = mset (remove1 a xs)" using assms(2) by simp
  then have "distinct ys" "set ys = set (remove1 a xs)" "length ys = length (remove1 a xs)"
    using assms(1) by (metis distinct_remove1 mset_eq_imp_distinct_iff, metis mset_eq_setD,
        metis mset_eq_length)
  then show ?thesis using assms by (simp add: length_remove1)
qed

text \<open>The state after a registered connection with callback \<open>k\<close> is gone.\<close>

definition removed :: "nat \<Rightarrow> nat \<Rightarrow> nat list \<Rightarrow> 'w \<Rightarrow> 'w sse \<Rightarrow> 'w sse" where
  "removed a k cs w s = s\<lparr>g_Platform := w, g_Connections := cs,
     g_Callbacks := remove1 k (g_Callbacks s), g_Heap := (g_Heap s)(a := None)\<rparr>"

lemma removed_ok:
  assumes "struct_ok s" and "g_Heap s a = Some c" and "cn_Callback c = Some k"
    and "mset cs = mset (g_Connections s) - {#a#}"
  shows "struct_ok (removed a k cs w s)"
proof -
  note st = struct_okD [OF assms(1)]
  have "a \<in> set (g_Connections s)" using st(2) assms(2) by blast
  from mset_remove [OF st(1) assms(4) this]
  have cs: "distinct cs" "set cs = set (g_Connections s) - {a}" by simp_all
  have other: "cn_Callback d \<noteq> Some k \<and> b \<noteq> a" if "((g_Heap s)(a := None)) b = Some d" for b d
    using st(6) [of a c b d] assms(2,3) that by (auto split: if_splits)
  show ?thesis
  proof (rule struct_okI, goal_cases)
    case 1
    show ?case using cs(1) by (simp add: removed_def)
  next
    case 2
    show ?case using cs(2) st(2) by (simp add: removed_def)
  next
    case (3 b d)
    then show ?case using st(3) by (auto simp: removed_def split: if_splits)
  next
    case (4 b d)
    then show ?case using st(4) by (auto simp: removed_def no_wrap_def split: if_splits)
  next
    case (5 b d)
    then have h: "((g_Heap s)(a := None)) b = Some d" by (simp add: removed_def)
    with other have "cn_Callback d \<noteq> Some k" "g_Heap s b = Some d" by (auto split: if_splits)
    with st(5) [of b d] st(7) show ?case by (auto simp: removed_def)
  next
    case (6 b b' d d')
    then have "g_Heap s b = Some d" "g_Heap s b' = Some d'"
      by (auto simp: removed_def split: if_splits)
    moreover have "no_wrap s \<and> cn_Handle d = cn_Handle d' \<or> cn_Callback d = cn_Callback d'"
      using 6(3) by (simp add: removed_def no_wrap_def)
    ultimately show ?case using st(6) by blast
  next
    case 7
    show ?case using st(7) by (simp add: removed_def)
  next
    case (8 k')
    then show ?case using st(7,8) by (simp add: removed_def)
  next
    case (9 k')
    then have k': "k' \<in> set (g_Callbacks s)" "k' \<noteq> k" using st(7) by (simp_all add: removed_def)
    from st(9) [OF k'(1)] obtain b d where "g_Heap s b = Some d" "cn_Callback d = Some k'" by blast
    with assms(2,3) k'(2) show ?case
      by (intro exI [of _ b] exI [of _ d]) (auto simp: removed_def)
  next
    case 10
    then show ?case using st(10) by (simp add: removed_def no_wrap_def)
  qed
qed

lemma removed_flags:
  assumes "flags_ok D {a} s" and "a \<notin> D"
  shows "flags_ok D {} (removed a k cs w s)"
  using assms by (auto simp: flags_ok_def removed_def split: if_splits)

lemma removed_queue: "queue_ok s \<Longrightarrow> queue_ok (removed a k cs w s)"
  by (simp add: removed_def queue_ok_def)

lemma struct_ok_callback:
  "struct_ok s \<Longrightarrow> g_Heap s a = Some c \<Longrightarrow> \<exists>k. cn_Callback c = Some k"
  unfolding struct_ok_def by blast

context sse_env
begin

lemma platform_disconnect_eq:
  "g_Heap s a = Some c \<Longrightarrow> \<exists>w. platform_disconnect env a s =
     Some (s\<lparr>g_Platform := w, g_Heap := (g_Heap s)(a \<mapsto> c\<lparr>cn_PlatformData := None\<rparr>)\<rparr>)"
  using disconnect_law [of "g_Platform s" c]
  by (auto simp: platform_disconnect_def deref_def split: prod.splits)

lemma RemoveConnection_eq:
  assumes "a \<in> set (g_Connections s)"
  shows "\<exists>cs. SSE_RemoveConnectionNoLock env a s = s\<lparr>g_Connections := cs\<rparr>
     \<and> mset cs = mset (g_Connections s) - {#a#}"
proof -
  obtain i where i: "index_of a (g_Connections s) = Some i" "i < length (g_Connections s)"
    "g_Connections s ! i = a" using index_of_Some [OF assms] by blast
  then show ?thesis using erase_law [OF i(2)]
    by (intro exI [of _ "x_EraseSwap env i (g_Connections s)"])
      (simp add: SSE_RemoveConnectionNoLock_def)
qed

text \<open>Destroying a registered connection never follows a dangling pointer.\<close>

lemma Destroy_eq:
  assumes "a \<in> set (g_Connections s)" and "g_Heap s a = Some c" and "cn_Callback c = Some k"
  shows "\<exists>cs w. SSE_DestroyConnection env a d s = Some (removed a k cs w s)
     \<and> mset cs = mset (g_Connections s) - {#a#}"
proof -
  let ?off = "d \<and> cn_PlatformData c \<noteq> None"
  obtain w c' where s1: "(if ?off then platform_disconnect env a s else Some s) =
      Some (s\<lparr>g_Platform := w, g_Heap := (g_Heap s)(a \<mapsto> c')\<rparr>)" and c': "cn_Callback c' = Some k"
  proof (cases ?off)
    case True
    with platform_disconnect_eq [OF assms(2)] assms(3) show thesis by (auto intro: that)
  next
    case False
    with assms(2,3) show thesis by (intro that [where w = "g_Platform s" and c' = c]) (auto simp: fun_upd_idem)
  qed
  let ?s1 = "s\<lparr>g_Platform := w, g_Heap := (g_Heap s)(a \<mapsto> c')\<rparr>"
  obtain cs where cs: "SSE_RemoveConnectionNoLock env a ?s1 = ?s1\<lparr>g_Connections := cs\<rparr>"
    "mset cs = mset (g_Connections s) - {#a#}"
    using RemoveConnection_eq [of a ?s1] assms(1) by auto
  then have "SSE_DestroyConnection env a d s = Some (removed a k cs w s)"
    using assms(2) s1 c' by (simp add: SSE_DestroyConnection_def deref_def removed_def)
  with cs(2) show ?thesis by blast
qed

lemma Destroy_wf:
  assumes "struct_ok s" and "flags_ok D {a} s" and "queue_ok s" and "a \<in> dom (g_Heap s)"
    and "a \<notin> D"
  shows "\<exists>s'. SSE_DestroyConnection env a d s = Some s' \<and> sse_ok D s'
     \<and> g_Heap s' = (g_Heap s)(a := None)
     \<and> length (g_Connections s') = length (g_Connections s) - 1"
proof -
  from assms(4) obtain c where c: "g_Heap s a = Some c" by auto
  then obtain k where k: "cn_Callback c = Some k" using struct_ok_callback assms(1) by blast
  have a: "a \<in> set (g_Connections s)" and dist: "distinct (g_Connections s)"
    using assms(1,4) by (auto simp: struct_ok_def)
  from Destroy_eq [OF a c k] obtain cs w where
    D: "SSE_DestroyConnection env a d s = Some (removed a k cs w s)"
       "mset cs = mset (g_Connections s) - {#a#}" by blast
  have "sse_ok D (removed a k cs w s)"
    using assms removed_ok [OF assms(1) c k D(2)]
    by (simp add: sse_ok_def removed_flags removed_queue)
  moreover have "length cs = length (g_Connections s) - 1"
    using mset_remove [OF dist D(2) a] by blast
  ultimately show ?thesis using D(1) by (simp add: removed_def)
qed

text \<open>An object that was never registered.\<close>

lemma Destroy_unregistered:
  assumes "a \<notin> set (g_Connections s)" and "g_Heap s a = Some c"
  shows "SSE_DestroyConnection env a False s =
     Some (s\<lparr>g_Heap := (g_Heap s)(a := None), g_Callbacks :=
       (case cn_Callback c of None \<Rightarrow> g_Callbacks s | Some k \<Rightarrow> remove1 k (g_Callbacks s))\<rparr>)"
  using assms by (auto simp: SSE_DestroyConnection_def SSE_RemoveConnectionNoLock_def deref_def
      index_of_None split: option.split)

section \<open>The Lua API\<close>

lemma Disconnect_wf:
  assumes w: "sse_ok D s"
  shows "\<exists>r s'. SSE_Disconnect env args s = Some (r, s') \<and> sse_ok D s'"
proof (cases "Option.bind (lua_arg args 1) (lua_number_of env)")
  case None
  with w show ?thesis by (simp add: SSE_Disconnect_def)
next
  case (Some n)
  have st: "struct_ok s" using w by (simp add: sse_ok_def)
  show ?thesis
  proof (cases rule: FindConnection_ok [OF st, of "to_int32 n"])
    case 1: (1 a c)
    show ?thesis
    proof (cases "cn_UserClosed c")
      case True
      with w Some 1 show ?thesis by (simp add: SSE_Disconnect_def deref_def)
    next
      case open_conn: False
      let ?c1 = "c\<lparr>cn_UserClosed := True, cn_Connected := False\<rparr>"
      let ?c2 = "?c1\<lparr>cn_PlatformData := None\<rparr>"
      let ?s1 = "s\<lparr>g_Heap := (g_Heap s)(a \<mapsto> ?c1)\<rparr>"
      obtain p where s2: "(if cn_PlatformData c \<noteq> None then platform_disconnect env a ?s1
          else Some ?s1) = Some (s\<lparr>g_Platform := p, g_Heap := (g_Heap s)(a \<mapsto> ?c2)\<rparr>)"
      proof (cases "cn_PlatformData c")
        case None
        then have e: "?c2 = ?c1" by (cases c) simp
        show thesis by (rule that [where p = "g_Platform s"]) (simp add: e None)
      next
        case (Some d)
        with platform_disconnect_eq [of ?s1 a ?c1] show thesis by (auto intro: that)
      qed
      let ?s2 = "s\<lparr>g_Platform := p, g_Heap := (g_Heap s)(a \<mapsto> ?c2)\<rparr>"
      have flags: "conn_flags (a \<in> D) c" using w 1(2) by (simp add: sse_ok_def flags_ok_def)
      have st2: "struct_ok ?s2"
        using struct_ok_update [of "s\<lparr>g_Platform := p\<rparr>" a c ?c2] st 1(2)
        by (simp add: same_ident_def)
      have fl2: "flags_ok D {a} ?s2" and q2: "queue_ok ?s2"
        using w by (auto simp: sse_ok_def flags_ok_def queue_ok_def)
      show ?thesis
      proof (cases "a \<in> D")
        case True
        let ?c3 = "?c2\<lparr>cn_DestroyAfterDispatch := True\<rparr>"
        let ?s3 = "?s2\<lparr>g_Heap := (g_Heap ?s2)(a \<mapsto> ?c3)\<rparr>"
        have "sse_ok D ?s3"
          using struct_ok_update [OF st2, of a ?c2 ?c3] flags_ok_update [of D a "{}" ?s2 ?c2 ?c3]
            fl2 q2 flags True
          by (simp add: sse_ok_def same_ident_def conn_flags_def queue_ok_def)
        with True flags Some 1 open_conn s2 show ?thesis
          by (simp add: SSE_Disconnect_def modify_def deref_def conn_flags_def)
      next
        case False
        from Destroy_wf [OF st2 fl2 q2 _ False, of False] obtain s3 where
          s3: "SSE_DestroyConnection env a False ?s2 = Some s3" "sse_ok D s3" by auto
        with False flags Some 1 open_conn s2 show ?thesis
          by (simp add: SSE_Disconnect_def modify_def deref_def conn_flags_def)
      qed
    qed
  next
    case 2
    with w Some show ?thesis by (simp add: SSE_Disconnect_def)
  qed
qed

end

end
