(* ===== verification/ExtensionConnect.thy ===== *)
theory ExtensionConnect
  imports ExtensionInv
begin

text \<open>
  \<open>sse.connect\<close> keeps the invariant: whatever fails on the way (no callback, bad options,
  the platform), the half-built connection is destroyed and nothing of it stays.
\<close>

section \<open>Opening a connection\<close>

text \<open>The counters only grow, and a failed attempt leaves nothing else behind.\<close>

definition bumped :: "'w sse \<Rightarrow> 'w sse" where
  "bumped s = s\<lparr>g_NextAddr := Suc (g_NextAddr s), g_NextHandle := to_int32 (g_NextHandle s + 1),
     g_Issued := Suc (g_Issued s), g_NextCallback := Suc (g_NextCallback s)\<rparr>"

lemma next_handle:
  assumes "struct_ok s" and "Suc (g_Issued s) < 2147483647"
  shows "no_wrap s" and "to_int32 (g_NextHandle s + 1) = g_NextHandle s + 1"
    and "g_NextHandle s = 1 + int (g_Issued s)"
proof -
  show n: "no_wrap s" using assms(2) by (simp add: no_wrap_def)
  from struct_okD(10) [OF assms(1) n] show h: "g_NextHandle s = 1 + int (g_Issued s)" .
  show "to_int32 (g_NextHandle s + 1) = g_NextHandle s + 1"
    by (rule to_int32_id) (use assms(2) h in simp_all)
qed

lemma wf_bumped: "sse_ok D s \<Longrightarrow> sse_ok D (bumped s)"
  unfolding sse_ok_def
proof (elim conjE, intro conjI)
  assume st: "struct_ok s"
  have h: "no_wrap s" "g_NextHandle (bumped s) = g_NextHandle s + 1" "g_NextHandle s = 1 + int (g_Issued s)"
    if "no_wrap (bumped s)"
    using next_handle [OF st] that by (simp_all add: no_wrap_def bumped_def)
  show "struct_ok (bumped s)"
  proof (rule struct_okI, goal_cases)
    case (4 a c)
    then have "cn_Handle c < g_NextHandle s" using struct_okD(4) [OF st h(1)] by (simp add: bumped_def)
    with h(2) [OF 4(1)] show ?case by simp
  next
    case (6 a b c d)
    then show ?case using struct_okD(6) [OF st, of a c b d] h(1) by (auto simp: bumped_def)
  next
    case 10
    with h(2,3) show ?case by (simp add: bumped_def)
  qed (use struct_okD [OF st] in \<open>auto simp: bumped_def less_Suc_eq\<close>)
qed (simp_all add: bumped_def flags_ok_def queue_ok_def)

text \<open>The state once the new object \<open>c\<close> is registered.\<close>

definition registered :: "SSEConnection \<Rightarrow> 'w sse \<Rightarrow> 'w sse" where
  "registered c s = bumped (s\<lparr>g_Callbacks := g_NextCallback s # g_Callbacks s,
     g_Heap := (g_Heap s)(g_NextAddr s \<mapsto> c), g_Connections := g_Connections s @ [g_NextAddr s]\<rparr>)"

lemma registered_sel [simp]:
  "g_Heap (registered c s) = (g_Heap s)(g_NextAddr s \<mapsto> c)"
  "g_Connections (registered c s) = g_Connections s @ [g_NextAddr s]"
  "g_NextAddr (registered c s) = Suc (g_NextAddr s)"
  "g_NextHandle (registered c s) = to_int32 (g_NextHandle s + 1)"
  "g_Issued (registered c s) = Suc (g_Issued s)"
  "g_Callbacks (registered c s) = g_NextCallback s # g_Callbacks s"
  "g_NextCallback (registered c s) = Suc (g_NextCallback s)"
  "queue_ok (registered c s) = queue_ok s"
  by (simp_all add: registered_def bumped_def queue_ok_def)

definition fresh_conn :: "'w sse \<Rightarrow> SSEConnection \<Rightarrow> bool" where
  "fresh_conn s c \<longleftrightarrow> cn_Handle c = g_NextHandle s \<and> cn_Callback c = Some (g_NextCallback s)
     \<and> \<not> cn_Dispatching c \<and> \<not> cn_UserClosed c \<and> \<not> cn_DestroyAfterDispatch c"

lemma fresh_addr: "struct_ok s \<Longrightarrow> g_Heap s (g_NextAddr s) = None"
proof (rule ccontr)
  assume "struct_ok s" "g_Heap s (g_NextAddr s) \<noteq> None"
  then obtain c where "g_Heap s (g_NextAddr s) = Some c" by blast
  from struct_okD(3) [OF \<open>struct_ok s\<close> this] show False by simp
qed

lemma registered_wf:
  assumes "sse_ok D s" and "fresh_conn s c"
  shows "sse_ok D (registered c s)"
proof -
  have s: "struct_ok s" using assms(1) by (simp add: sse_ok_def)
  note st = struct_okD [OF s]
  let ?h = "(g_Heap s)(g_NextAddr s \<mapsto> c)" and ?k = "g_NextCallback s"
  have k: "?k \<notin> set (g_Callbacks s)" using st(8) by blast
  have old: "cn_Callback d \<noteq> cn_Callback c" if "g_Heap s b = Some d" for b d
    using st(5) [OF that] k assms(2) by (auto simp: fresh_conn_def)
  have wr: "no_wrap s" "g_NextHandle (registered c s) = g_NextHandle s + 1"
    "g_NextHandle s = 1 + int (g_Issued s)" if "no_wrap (registered c s)"
    using next_handle [OF s] that by (simp_all add: no_wrap_def)
  have old_handle: "cn_Handle d < cn_Handle c" if "no_wrap (registered c s)" "g_Heap s b = Some d" for b d
    using st(4) [OF wr(1) [OF that(1)] that(2)] assms(2) by (simp add: fresh_conn_def)
  have "struct_ok (registered c s)"
  proof (rule struct_okI, goal_cases)
    case 1
    have "g_NextAddr s \<notin> set (g_Connections s)" using st(2) fresh_addr [OF s] by auto
    with st(1) show ?case by simp
  next
    case 2
    show ?case using st(2) by auto
  next
    case (3 b d)
    then show ?case using st(3) [of b d]
      by (auto split: if_splits)
  next
    case (4 b d)
    then show ?case using st(4) [OF wr(1) [OF 4(1)], of b d] assms(2) wr(2) [OF 4(1)]
      by (auto simp: fresh_conn_def split: if_splits)
  next
    case (5 b d)
    then show ?case using st(5) [of b d] assms(2)
      by (auto simp: fresh_conn_def split: if_splits)
  next
    case (6 b b' d d')
    then have h: "?h b = Some d" "?h b' = Some d'" by simp_all
    show ?case
    proof (cases "b = g_NextAddr s \<or> b' = g_NextAddr s")
      case True
      with h 6(3) old [of b d] old [of b' d'] old_handle [of b d] old_handle [of b' d']
      show ?thesis by (auto split: if_splits)
    next
      case False
      with h have "g_Heap s b = Some d" "g_Heap s b' = Some d'" by simp_all
      with 6(3) st(6) wr(1) show ?thesis by blast
    qed
  next
    case 7
    show ?case using st(7) k by simp
  next
    case (8 j)
    then show ?case using st(8) by (auto simp: less_Suc_eq)
  next
    case (9 j)
    show ?case
    proof (cases "j = ?k")
      case True
      with assms(2) show ?thesis
        by (intro exI [of _ "g_NextAddr s"] exI [of _ c])
          (simp add: fresh_conn_def)
    next
      case False
      with 9 have "j \<in> set (g_Callbacks s)" by simp
      from st(9) [OF this] obtain b d where "g_Heap s b = Some d" "cn_Callback d = Some j" by blast
      with fresh_addr [OF s] show ?thesis
        by (intro exI [of _ b] exI [of _ d]) auto
    qed
  next
    case 10
    with wr(2,3) show ?case by simp
  qed
  moreover have "flags_ok D {} (registered c s)"
  proof -
    have D: "D \<subseteq> dom (g_Heap s)" and fl: "\<And>b d. g_Heap s b = Some d \<Longrightarrow> conn_flags (b \<in> D) d"
      using assms(1) by (simp_all add: sse_ok_def flags_ok_def)
    have "g_NextAddr s \<notin> D" using D fresh_addr [OF s] by auto
    then have "conn_flags (b \<in> D) d" if "(?h b) = Some d" for b d
      using that fl [of b d] assms(2)
      by (cases "b = g_NextAddr s") (simp_all add: conn_flags_def fresh_conn_def)
    with D show ?thesis by (simp add: flags_ok_def subset_insertI2)
  qed
  ultimately show ?thesis using assms(1) by (simp add: sse_ok_def)
qed

text \<open>Reading the options keeps the identity and the flags of the connection.\<close>

definition same_but_options :: "SSEConnection \<Rightarrow> SSEConnection \<Rightarrow> bool" where
  "same_but_options c c' \<longleftrightarrow> same_ident c c' \<and> cn_Dispatching c' = cn_Dispatching c
     \<and> cn_UserClosed c' = cn_UserClosed c
     \<and> cn_DestroyAfterDispatch c' = cn_DestroyAfterDispatch c
     \<and> cn_PlatformData c' = cn_PlatformData c"

lemma ReadHeaders_frame: "same_but_options c (ReadHeaders h c)"
proof (induction h arbitrary: c)
  case Nil
  then show ?case by (simp add: same_but_options_def same_ident_def)
next
  case (Cons kv h)
  obtain k v where kv: "kv = (k, v)" by fastforce
  let ?c = "case k of LString n \<Rightarrow> SSE_AddHeader c (lua_tostring k) (lua_tostring v) | _ \<Rightarrow> c"
  have "same_but_options c ?c"
    by (auto simp: same_but_options_def same_ident_def SSE_AddHeader_def
        split: lua_value.split option.split)
  with Cons [of ?c] show ?case by (simp add: kv same_but_options_def same_ident_def)
qed

lemma ReadOptions_frame: "same_but_options c (snd (SSE_ReadOptions env opts c))"
  using ReadHeaders_frame [of c]
  by (auto simp: SSE_ReadOptions_def same_but_options_def same_ident_def Let_def
      split: option.split lua_value.split)

text \<open>
  What a call of \<open>sse.connect\<close> does: it fails before it creates anything; or it fails later,
  and the only traces are the used-up numbers (and what the platform did); or it registers
  exactly one new connection and returns its handle.
\<close>

definition same_rest :: "'w sse \<Rightarrow> 'w sse \<Rightarrow> bool" where
  "same_rest s t \<longleftrightarrow> g_Events t = g_Events s \<and> g_EventsSwap t = g_EventsSwap s
     \<and> g_OverflowHandles t = g_OverflowHandles s \<and> g_OverflowSwap t = g_OverflowSwap s
     \<and> g_Capacity t = g_Capacity s \<and> g_Active t = g_Active s \<and> g_Delivered t = g_Delivered s
     \<and> g_CallbackValid t = g_CallbackValid s \<and> g_Debug t = g_Debug s"

definition refused :: "'w sse \<Rightarrow> 'w sse \<Rightarrow> bool" where
  "refused s t \<longleftrightarrow> g_Heap t = g_Heap s \<and> mset (g_Connections t) = mset (g_Connections s)
     \<and> g_Callbacks t = g_Callbacks s \<and> g_NextHandle t = to_int32 (g_NextHandle s + 1)
     \<and> g_Issued t = Suc (g_Issued s) \<and> same_rest s t"

definition opened :: "'w sse \<Rightarrow> 'w sse \<Rightarrow> bool" where
  "opened s t \<longleftrightarrow> (\<exists>c. fresh_conn s c \<and> g_Heap t = (g_Heap s)(g_NextAddr s \<mapsto> c))
     \<and> g_Connections t = g_Connections s @ [g_NextAddr s]
     \<and> g_Callbacks t = g_NextCallback s # g_Callbacks s
     \<and> g_NextHandle t = to_int32 (g_NextHandle s + 1)
     \<and> g_Issued t = Suc (g_Issued s) \<and> same_rest s t"

fun connect_outcome :: "'w sse \<Rightarrow> lua_result \<Rightarrow> 'w sse \<Rightarrow> bool" where
  "connect_outcome s (LuaRaise m) t \<longleftrightarrow> t = s"
| "connect_outcome s (LuaReturn vs) t \<longleftrightarrow>
     (\<exists>m. vs = [LNil, LString m]) \<and> (t = s \<or> refused s t)
     \<or> (\<exists>str. vs = [LNumber (g_NextHandle s) str]) \<and> opened s t"

lemma refused_bumped: "refused s (bumped s)"
  by (simp add: refused_def same_rest_def bumped_def)

lemma some_message [simp]: "\<exists>m. fail_with a = fail_with m"
  by blast

lemma outcome_refused: "refused s t \<Longrightarrow> connect_outcome s (fail_with m) t"
  by (simp add: fail_with_def)

context sse_env
begin

lemma Destroy_new:
  assumes "struct_ok s" and "cn_Callback c = Some (g_NextCallback s)"
  shows "SSE_DestroyConnection env (g_NextAddr s) False
     (bumped (s\<lparr>g_Callbacks := g_NextCallback s # g_Callbacks s,
        g_Heap := (g_Heap s)(g_NextAddr s \<mapsto> c)\<rparr>)) = Some (bumped s)"
proof -
  have "g_NextAddr s \<notin> set (g_Connections s)"
    using struct_okD(2) [OF assms(1)] fresh_addr [OF assms(1)] by auto
  moreover have "(g_Heap s)(g_NextAddr s := None) = g_Heap s"
    using fresh_addr [OF assms(1)] by auto
  ultimately show ?thesis using assms(2) by (simp add: Destroy_unregistered bumped_def)
qed

text \<open>A registered connection whose platform refuses it.\<close>

lemma Connect_platform_wf:
  assumes w: "sse_ok D s" and f: "fresh_conn s c" and p: "cn_PlatformData c = None"
    and C: "ad_Connect (x_Adapter env) x c = (x', c', e)"
    and t: "t = (registered c s)\<lparr>g_Platform := x', g_Heap := (g_Heap s)(g_NextAddr s \<mapsto> c')\<rparr>"
  shows "sse_ok D t \<and> opened s t \<and> cn_Handle c' = g_NextHandle s
     \<and> (e \<noteq> None \<longrightarrow> (\<exists>t'. SSE_DestroyConnection env (g_NextAddr s) False t = Some t'
           \<and> sse_ok D t' \<and> refused s t'))"
proof -
  from connect_law [OF p C] obtain d where c': "c' = c\<lparr>cn_PlatformData := d\<rparr>" by blast
  then have f': "fresh_conn s c'" using f by (simp add: fresh_conn_def)
  have "t = (registered c' s)\<lparr>g_Platform := x'\<rparr>" by (simp add: t registered_def bumped_def)
  with registered_wf [OF w f'] have wt: "sse_ok D t" by (simp add: wf_platform)
  have st: "struct_ok t" "queue_ok t" using wt by (simp_all add: sse_ok_def)
  have a: "g_NextAddr s \<in> dom (g_Heap t)" by (simp add: t)
  have "g_NextAddr s \<notin> D"
    using w fresh_addr [of s] by (auto simp: sse_ok_def flags_ok_def)
  moreover have "flags_ok D {g_NextAddr s} t" using wt flags_ok_mono by (auto simp: sse_ok_def)
  ultimately have "\<exists>t'. SSE_DestroyConnection env (g_NextAddr s) False t = Some t' \<and> sse_ok D t'"
    using Destroy_wf [OF st(1) _ st(2) a] by blast
  then obtain t' where t': "SSE_DestroyConnection env (g_NextAddr s) False t = Some t'" "sse_ok D t'"
    by blast
  have ca: "g_NextAddr s \<in> set (g_Connections t)" "g_Heap t (g_NextAddr s) = Some c'"
    "cn_Callback c' = Some (g_NextCallback s)"
    using f' by (simp_all add: t fresh_conn_def)
  from Destroy_eq [OF ca, of False] t'(1) obtain cs w where
    r: "t' = removed (g_NextAddr s) (g_NextCallback s) cs w t"
       "mset cs = mset (g_Connections t) - {#g_NextAddr s#}" by auto
  have h: "(g_Heap s)(g_NextAddr s := None) = g_Heap s"
    using fresh_addr [of s] w by (auto simp: sse_ok_def)
  have "refused s t'"
    by (simp add: r(1) r(2) h refused_def removed_def t same_rest_def registered_def bumped_def)
  moreover have "opened s t"
    using f' by (auto simp: opened_def t same_rest_def registered_def bumped_def)
  ultimately show ?thesis using wt t' f' by (auto simp: fresh_conn_def)
qed

lemma Connect_created:
  assumes w: "sse_ok D s" and sup: "ad_IsSupported (x_Adapter env) (g_Platform s)"
    and url: "Option.bind (lua_arg args 1) lua_tostring = Some url"
    and fn: "is_function (lua_arg args (if is_function (lua_arg args 2) then 2 else 3))"
  shows "\<exists>r s'. SSE_Connect env args s = Some (r, s') \<and> sse_ok D s' \<and> connect_outcome s r s'"
proof -
  let ?opts = "if is_function (lua_arg args 2) then None else lua_arg args 2"
  let ?a = "g_NextAddr s" and ?k = "g_NextCallback s"
  have st: "struct_ok s" using w by (simp add: sse_ok_def)
  have na: "?a \<notin> set (g_Connections s)"
    using struct_okD(2) [OF st] fresh_addr [OF st] by auto
  have nh: "(g_Heap s)(?a := None) = g_Heap s" using fresh_addr [OF st] by auto
  let ?c = "SSEConnection_new\<lparr>cn_Handle := g_NextHandle s, cn_Url := SSE_StrDup (Some url),
      cn_Callback := Some ?k\<rparr>"
  have fc: "fresh_conn s ?c" and pc: "cn_PlatformData ?c = None"
    by (simp_all add: fresh_conn_def SSEConnection_new_def)
  note red = SSE_Connect_def Let_def sup url [unfolded One_nat_def] fn
  consider (nocb) "\<not> x_CreateCallback env ?k" | (invalid) "x_CreateCallback env ?k" "\<not> g_CallbackValid s ?k"
    | (ok) "x_CreateCallback env ?k" "g_CallbackValid s ?k" by blast
  then show ?thesis
  proof cases
    case nocb
    then have "\<exists>m. SSE_Connect env args s = Some (fail_with m, bumped s)"
      using na nh by (simp add: red Destroy_unregistered bumped_def)
    then show ?thesis using wf_bumped [OF w] outcome_refused [OF refused_bumped] by blast
  next
    case invalid
    then have "\<exists>m. SSE_Connect env args s = Some (fail_with m, bumped s)"
      using na nh by (simp add: red Destroy_unregistered bumped_def)
    then show ?thesis using wf_bumped [OF w] outcome_refused [OF refused_bumped] by blast
  next
    case ok
    obtain e c1 where ro: "SSE_ReadOptions env ?opts ?c = (e, c1)" by fastforce
    have fr: "same_but_options ?c c1" using ReadOptions_frame [of ?c env ?opts] ro by simp
    then have f1: "fresh_conn s c1" and p1: "cn_PlatformData c1 = None"
      using fc pc by (simp_all add: same_but_options_def same_ident_def fresh_conn_def)
    have cb: "cn_Callback c1 = Some ?k" using f1 by (simp add: fresh_conn_def)
    show ?thesis
    proof (cases e)
      case (Some err)
      then have "\<exists>m. SSE_Connect env args s = Some (fail_with m, bumped s)"
        using na nh ok ro cb by (simp add: red Destroy_unregistered bumped_def)
      then show ?thesis using wf_bumped [OF w] outcome_refused [OF refused_bumped] by blast
    next
      case None
      obtain x' c' e' where C: "ad_Connect (x_Adapter env) (g_Platform s) c1 = (x', c', e')"
        by (metis prod_cases3)
      let ?t = "(registered c1 s)\<lparr>g_Platform := x', g_Heap := (g_Heap s)(?a \<mapsto> c')\<rparr>"
      note T = Connect_platform_wf [OF w f1 p1 C refl]
      show ?thesis
      proof (cases e')
        case None
        then have "\<exists>str. SSE_Connect env args s = Some (LuaReturn [LNumber (g_NextHandle s) str], ?t)"
          using \<open>e = None\<close> ok ro C T by (simp add: red registered_def bumped_def)
        moreover have "sse_ok D ?t" "opened s ?t" using T by blast+
        ultimately show ?thesis by (metis connect_outcome.simps(2))
      next
        case (Some msg)
        then obtain t' where t': "SSE_DestroyConnection env ?a False ?t = Some t'" "sse_ok D t'"
          "refused s t'" using T by blast
        have eq: "s\<lparr>g_NextAddr := Suc ?a,
            g_NextHandle := to_int32 (g_NextHandle s + 1), g_Issued := Suc (g_Issued s),
            g_NextCallback := Suc ?k,
            g_Callbacks := ?k # g_Callbacks s, g_Connections := g_Connections s @ [?a],
            g_Platform := x', g_Heap := (g_Heap s)(?a \<mapsto> c')\<rparr> = ?t"
          by (simp add: registered_def bumped_def)
        from t'(1) have "\<exists>m. SSE_Connect env args s = Some (fail_with m, t')"
          using \<open>e = None\<close> Some ok ro C by (simp add: red eq)
        then show ?thesis using t'(2) outcome_refused [OF t'(3)] by blast
      qed
    qed
  qed
qed

lemma Connect_ok:
  assumes w: "sse_ok D s"
  shows "\<exists>r s'. SSE_Connect env args s = Some (r, s') \<and> sse_ok D s' \<and> connect_outcome s r s'"
proof -
  consider "\<not> ad_IsSupported (x_Adapter env) (g_Platform s)"
    | "Option.bind (lua_arg args 1) lua_tostring = None"
    | "\<not> is_function (lua_arg args (if is_function (lua_arg args 2) then 2 else 3))"
    | url where "ad_IsSupported (x_Adapter env) (g_Platform s)"
      "Option.bind (lua_arg args 1) lua_tostring = Some url"
      "is_function (lua_arg args (if is_function (lua_arg args 2) then 2 else 3))"
    by (meson not_None_eq)
  then show ?thesis
    by cases (use w Connect_created [OF w] in \<open>auto simp: SSE_Connect_def Let_def fail_with_def split: option.split\<close>)
qed

lemma Connect_wf: "sse_ok D s \<Longrightarrow> \<exists>r s'. SSE_Connect env args s = Some (r, s') \<and> sse_ok D s'"
  using Connect_ok by blast

section \<open>What happens during a callback\<close>

lemma RunAction_wf: "sse_ok D s \<Longrightarrow> \<exists>s'. RunAction env x s = Some s' \<and> sse_ok D s'"
proof (cases x)
  case (DoConnect args)
  assume "sse_ok D s"
  from Connect_wf [OF this, of args] DoConnect show ?thesis by auto
next
  case (DoDisconnect args)
  assume "sse_ok D s"
  from Disconnect_wf [OF this, of args] DoDisconnect show ?thesis by auto
qed (simp_all add: SSE_SetDebug_def wf_debug wf_platform wf_valid EnqueueOpen_wf EnqueueMessage_wf
      EnqueueError_wf EnqueueClosed_wf SetConnected_wf SetLastEventId_wf)

lemma RunActions_wf: "sse_ok D s \<Longrightarrow> \<exists>s'. RunActions env xs s = Some s' \<and> sse_ok D s'"
proof (induction xs arbitrary: s)
  case (Cons x xs)
  from RunAction_wf [OF Cons.prems, of x] Cons.IH show ?case by auto
qed simp

end

end
