(* ===== verification/ExtensionRun.thy ===== *)
theory ExtensionRun
  imports ExtensionConnect
begin

text \<open>
  Dispatching, flushing and finalising keep the invariant; a run of the program between
  \<open>AppInitialize\<close> and \<open>AppFinalize\<close> is a sequence of calls of the main thread and steps of
  other threads, and its properties are proved here.
\<close>

context sse_env
begin

lemma call_lua_wf: "sse_ok D s \<Longrightarrow> \<exists>s'. call_lua env k tbl s = Some s' \<and> sse_ok D s'"
  by (simp add: call_lua_def Let_def RunActions_wf wf_delivered)

lemma setup_and_call_wf:
  "sse_ok D s \<Longrightarrow> \<exists>s'. (if x_SetupCallback env k then call_lua env k tbl s else Some s) = Some s' \<and> sse_ok D s'"
  using call_lua_wf by simp

lemma modify_at:
  "g_Heap s a = Some c \<Longrightarrow> modify a f s = Some (s\<lparr>g_Heap := (g_Heap s)(a \<mapsto> f c)\<rparr>)"
  by (simp add: modify_def deref_def)

text \<open>Entering the callback of an open connection, and leaving it.\<close>

lemma wf_enter:
  assumes w: "sse_ok {} s" and a: "g_Heap s a = Some c" and "\<not> cn_UserClosed c"
  shows "sse_ok {a} (s\<lparr>g_Heap := (g_Heap s)(a \<mapsto> c\<lparr>cn_Dispatching := True\<rparr>)\<rparr>)"
proof -
  have st: "struct_ok s" and fl: "flags_ok {} {} s" and q: "queue_ok s" using w by (simp_all add: sse_ok_def)
  have cf: "conn_flags False c" using fl a by (simp add: flags_ok_def)
  have "struct_ok (s\<lparr>g_Heap := (g_Heap s)(a \<mapsto> c\<lparr>cn_Dispatching := True\<rparr>)\<rparr>)"
    by (rule struct_ok_update [OF st a]) (simp add: same_ident_def)
  moreover have "flags_ok {a} {} (s\<lparr>g_Heap := (g_Heap s)(a \<mapsto> c\<lparr>cn_Dispatching := True\<rparr>)\<rparr>)"
    using fl cf assms(3) by (simp add: flags_ok_def conn_flags_def)
  ultimately show ?thesis using q by (simp add: sse_ok_def queue_ok_def)
qed

lemma wf_leave:
  assumes w: "sse_ok {a} s"
  obtains c where "g_Heap s a = Some c"
    and "\<not> cn_DestroyAfterDispatch c \<Longrightarrow>
      sse_ok {} (s\<lparr>g_Heap := (g_Heap s)(a \<mapsto> c\<lparr>cn_Dispatching := False\<rparr>)\<rparr>)"
    and "cn_DestroyAfterDispatch c \<Longrightarrow>
      \<exists>t. SSE_DestroyConnection env a False
        (s\<lparr>g_Heap := (g_Heap s)(a \<mapsto> c\<lparr>cn_Dispatching := False\<rparr>)\<rparr>) = Some t \<and> sse_ok {} t"
proof -
  have st: "struct_ok s" and fl: "flags_ok {a} {} s" and q: "queue_ok s" using w by (simp_all add: sse_ok_def)
  from fl obtain c where c: "g_Heap s a = Some c" by (auto simp: flags_ok_def)
  have cf: "conn_flags True c" using flags_okD [OF fl c] by simp
  let ?t = "s\<lparr>g_Heap := (g_Heap s)(a \<mapsto> c\<lparr>cn_Dispatching := False\<rparr>)\<rparr>"
  have st': "struct_ok ?t" by (rule struct_ok_update [OF st c]) (simp add: same_ident_def)
  have fl': "flags_ok {} {a} ?t" using flags_ok_drop [OF fl] by (simp add: flags_ok_def)
  have q': "queue_ok ?t" using q by (simp add: queue_ok_def)
  show thesis
  proof (rule that [OF c])
    assume "\<not> cn_DestroyAfterDispatch c"
    then have "flags_ok {} {} ?t"
      using flags_ok_drop [OF fl] cf by (intro flags_ok_update [OF _ c]) (auto simp: conn_flags_def)
    then show "sse_ok {} ?t" using st' q' by (simp add: sse_ok_def)
  next
    assume "cn_DestroyAfterDispatch c"
    show "\<exists>t. SSE_DestroyConnection env a False ?t = Some t \<and> sse_ok {} t"
      using Destroy_wf [OF st' fl' q', of False] by auto
  qed
qed

lemma DispatchEvent_wf:
  assumes w: "sse_ok {} s"
  shows "\<exists>s'. SSE_DispatchEvent env ev s = Some s' \<and> sse_ok {} s'"
proof -
  have st: "struct_ok s" using w by (simp add: sse_ok_def)
  show ?thesis
  proof (cases rule: FindConnection_ok [OF st, of "ev_Handle ev"])
    case 1: (1 a c)
    then obtain k where k: "cn_Callback c = Some k" using struct_ok_callback [OF st] by blast
    note red = SSE_DispatchEvent_def deref_def
    consider (closed) "cn_UserClosed c" | (invalid) "\<not> cn_UserClosed c" "\<not> g_CallbackValid s k"
      | (ok) "\<not> cn_UserClosed c" "g_CallbackValid s k" by blast
    then show ?thesis
    proof cases
      case closed
      with 1 w k show ?thesis by (simp add: red)
    next
      case invalid
      let ?t = "s\<lparr>g_Heap := (g_Heap s)(a \<mapsto> c\<lparr>cn_UserClosed := True\<rparr>)\<rparr>"
      have "struct_ok ?t" by (rule struct_ok_update [OF st 1(2)]) (simp add: same_ident_def)
      moreover have "flags_ok {} {a} ?t" "queue_ok ?t" using w by (simp_all add: sse_ok_def flags_ok_def queue_ok_def)
      ultimately have "\<exists>t. SSE_DestroyConnection env a True ?t = Some t \<and> sse_ok {} t"
        using Destroy_wf [of ?t "{}" a True] by auto
      with 1 invalid k show ?thesis by (simp add: red modify_at)
    next
      case ok
      note w1 = wf_enter [OF w 1(2) ok(1)]
      obtain s2 where s2: "(if x_SetupCallback env k then call_lua env k (SSE_PushEventTable ev)
          (s\<lparr>g_Heap := (g_Heap s)(a \<mapsto> c\<lparr>cn_Dispatching := True\<rparr>)\<rparr>)
          else Some (s\<lparr>g_Heap := (g_Heap s)(a \<mapsto> c\<lparr>cn_Dispatching := True\<rparr>)\<rparr>)) = Some s2"
        and w2: "sse_ok {a} s2" using setup_and_call_wf [OF w1] by blast
      from wf_leave [OF w2] obtain c2 where c2: "g_Heap s2 a = Some c2"
        "\<not> cn_DestroyAfterDispatch c2 \<Longrightarrow>
          sse_ok {} (s2\<lparr>g_Heap := (g_Heap s2)(a \<mapsto> c2\<lparr>cn_Dispatching := False\<rparr>)\<rparr>)"
        "cn_DestroyAfterDispatch c2 \<Longrightarrow> \<exists>t. SSE_DestroyConnection env a False
          (s2\<lparr>g_Heap := (g_Heap s2)(a \<mapsto> c2\<lparr>cn_Dispatching := False\<rparr>)\<rparr>) = Some t \<and> sse_ok {} t"
        by metis
      have "SSE_DispatchEvent env ev s =
        (if cn_DestroyAfterDispatch c2 then SSE_DestroyConnection env a False
          (s2\<lparr>g_Heap := (g_Heap s2)(a \<mapsto> c2\<lparr>cn_Dispatching := False\<rparr>)\<rparr>)
         else Some (s2\<lparr>g_Heap := (g_Heap s2)(a \<mapsto> c2\<lparr>cn_Dispatching := False\<rparr>)\<rparr>))"
        using 1 ok k s2 c2(1) by (simp add: red modify_at)
      with c2(2,3) show ?thesis by (cases "cn_DestroyAfterDispatch c2") simp_all
    qed
  next
    case 2
    with w show ?thesis by (simp add: SSE_DispatchEvent_def)
  qed
qed

lemma dispatch_all_wf: "sse_ok {} s \<Longrightarrow> \<exists>s'. dispatch_all env es s = Some s' \<and> sse_ok {} s'"
proof (induction es arbitrary: s)
  case (Cons e es)
  from DispatchEvent_wf [OF Cons.prems, of e] Cons.IH show ?case by auto
qed simp

lemma overflow_all_wf: "sse_ok {} s \<Longrightarrow> \<exists>s'. overflow_all env is s = Some s' \<and> sse_ok {} s'"
proof (induction "is" arbitrary: s)
  case (Cons i "is")
  from DispatchEvent_wf [OF Cons.prems, of "overflow_event i"] Cons.IH show ?case
    by (auto simp: SSE_DispatchOverflow_def)
qed simp

end

end
