(* ===== verification/ExtensionFrame.thy ===== *)
theory ExtensionFrame
  imports ExtensionRun
begin

text \<open>
  What every operation leaves alone, as a relation between the states before and after it: the
  scratch arrays of the flush, the capacity, the activity flag and the record of delivered
  tables; the count of handles only grows, and a handle whose connection was closed stays closed
  as long as the handles have not wrapped around.
\<close>

definition closed :: "int \<Rightarrow> 'w sse \<Rightarrow> bool" where
  "closed h s \<longleftrightarrow> h \<le> int (g_Issued s)
     \<and> (\<forall>a c. g_Heap s a = Some c \<longrightarrow> cn_Handle c = h \<longrightarrow> cn_UserClosed c)"

definition quiet :: "'w sse \<Rightarrow> 'w sse \<Rightarrow> bool" where
  "quiet s t \<longleftrightarrow> g_EventsSwap t = g_EventsSwap s \<and> g_OverflowSwap t = g_OverflowSwap s
     \<and> g_Capacity t = g_Capacity s \<and> g_Active t = g_Active s \<and> g_Delivered t = g_Delivered s
     \<and> g_Issued s \<le> g_Issued t \<and> (no_wrap t \<longrightarrow> (\<forall>h. closed h s \<longrightarrow> closed h t))"

lemma quiet_refl [simp]: "quiet s s"
  by (simp add: quiet_def)

lemma quiet_trans: "quiet s t \<Longrightarrow> quiet t u \<Longrightarrow> quiet s u"
  by (auto simp: quiet_def no_wrap_def)

lemma closed_cong:
  "g_Heap t = g_Heap s \<Longrightarrow> g_Issued t = g_Issued s \<Longrightarrow> closed h t = closed h s"
  by (simp add: closed_def)

text \<open>An update of one object that keeps its handle and does not reopen it.\<close>

definition keeps_closed :: "SSEConnection \<Rightarrow> SSEConnection \<Rightarrow> bool" where
  "keeps_closed c c' \<longleftrightarrow> cn_Handle c' = cn_Handle c \<and> (cn_UserClosed c \<longrightarrow> cn_UserClosed c')"

lemma quiet_set:
  assumes "g_Heap s a = Some c" and "keeps_closed c c'"
  shows "quiet s (s\<lparr>g_Heap := (g_Heap s)(a \<mapsto> c')\<rparr>)"
  using assms by (auto simp: quiet_def closed_def keeps_closed_def)

lemma quiet_modify:
  assumes "modify a f s = Some t" and "\<And>c. keeps_closed c (f c)"
  shows "quiet s t"
proof -
  from assms(1) obtain c where "g_Heap s a = Some c" "t = s\<lparr>g_Heap := (g_Heap s)(a \<mapsto> f c)\<rparr>"
    by (auto simp: modify_def deref_def bind_eq_Some_conv)
  with quiet_set assms(2) show ?thesis by blast
qed

lemma quiet_delete: "quiet s (s\<lparr>g_Heap := (g_Heap s)(a := None)\<rparr>)"
  by (simp add: quiet_def closed_def)

lemma quiet_fields:
  "quiet s (s\<lparr>g_Platform := w\<rparr>)" "quiet s (s\<lparr>g_Debug := b\<rparr>)" "quiet s (s\<lparr>g_CallbackValid := v\<rparr>)"
  "quiet s (s\<lparr>g_Connections := cs\<rparr>)" "quiet s (s\<lparr>g_Callbacks := ks\<rparr>)"
  "quiet s (s\<lparr>g_Events := es\<rparr>)" "quiet s (s\<lparr>g_OverflowHandles := hs\<rparr>)"
  by (simp_all add: quiet_def closed_def)

lemma quiet_push: "quiet s (snd (SSE_QueuePush ev s))"
  by (simp add: quiet_def closed_def)

lemma quiet_SetConnected: "SSE_SetConnected i b s = Some t \<Longrightarrow> quiet s t"
  by (auto simp: SSE_SetConnected_def bind_eq_Some_conv keeps_closed_def
      intro: quiet_modify split: if_splits option.splits)

lemma quiet_SetLastEventId: "SSE_SetLastEventId i v s = Some t \<Longrightarrow> quiet s t"
  by (auto simp: SSE_SetLastEventId_def bind_eq_Some_conv keeps_closed_def
      intro: quiet_modify split: if_splits option.splits)

lemma quiet_EnqueueOpen: "SSE_EnqueueOpen i st s = Some t \<Longrightarrow> quiet s t"
  using quiet_SetConnected quiet_push quiet_trans
  by (fastforce simp: SSE_EnqueueOpen_def bind_eq_Some_conv)

lemma quiet_EnqueueClosed: "SSE_EnqueueClosed i s = Some t \<Longrightarrow> quiet s t"
  using quiet_SetConnected quiet_push quiet_trans
  by (fastforce simp: SSE_EnqueueClosed_def bind_eq_Some_conv)

lemma quiet_remove: "quiet s (SSE_RemoveConnectionNoLock env a s)"
  by (simp add: SSE_RemoveConnectionNoLock_def quiet_fields split: option.split)

context sse_env
begin

lemma quiet_platform_disconnect:
  assumes "platform_disconnect env a s = Some t"
  shows "quiet s t"
proof -
  from assms obtain c where c: "g_Heap s a = Some c"
    by (auto simp: platform_disconnect_def deref_def bind_eq_Some_conv)
  from platform_disconnect_eq [OF c] obtain w where
    t: "t = s\<lparr>g_Platform := w, g_Heap := (g_Heap s)(a \<mapsto> c\<lparr>cn_PlatformData := None\<rparr>)\<rparr>"
    using assms by auto
  have "quiet (s\<lparr>g_Platform := w\<rparr>) t"
    unfolding t using quiet_set [of "s\<lparr>g_Platform := w\<rparr>" a c "c\<lparr>cn_PlatformData := None\<rparr>"] c
    by (simp add: keeps_closed_def)
  with quiet_fields(1) show ?thesis by (rule quiet_trans)
qed

lemma quiet_destroy:
  assumes "SSE_DestroyConnection env a d s = Some t"
  shows "quiet s t"
proof -
  obtain c c2 :: SSEConnection and s1 where
    s1: "(if d \<and> cn_PlatformData c \<noteq> None then platform_disconnect env a s else Some s) = Some s1"
    and t: "Some (let s2 = SSE_RemoveConnectionNoLock env a s1;
        s3 = (case cn_Callback c2 of None \<Rightarrow> s2
               | Some k \<Rightarrow> s2\<lparr>g_Callbacks := remove1 k (g_Callbacks s2)\<rparr>)
      in s3\<lparr>g_Heap := (g_Heap s3)(a := None)\<rparr>) = Some t"
    using assms unfolding SSE_DestroyConnection_def Let_def bind_eq_Some_conv
    by (elim exE conjE) (rule that, assumption, unfold Let_def, assumption)
  from s1 have "quiet s s1" using quiet_platform_disconnect by (auto split: if_splits)
  moreover let ?s2 = "SSE_RemoveConnectionNoLock env a s1"
  have "quiet s1 ?s2" by (rule quiet_remove)
  moreover let ?s3 = "case cn_Callback c2 of None \<Rightarrow> ?s2
               | Some k \<Rightarrow> ?s2\<lparr>g_Callbacks := remove1 k (g_Callbacks ?s2)\<rparr>"
  have "quiet ?s2 ?s3" by (simp add: quiet_fields split: option.split)
  moreover have "quiet ?s3 t" using t by (auto simp: Let_def quiet_delete)
  ultimately show ?thesis by (meson quiet_trans)
qed

lemma quiet_Disconnect: "SSE_Disconnect env args s = Some (r, t) \<Longrightarrow> quiet s t"
  unfolding SSE_Disconnect_def
  by (auto simp: bind_eq_Some_conv keeps_closed_def split: option.splits if_splits
      dest!: quiet_modify quiet_platform_disconnect quiet_destroy) (meson quiet_trans)+

lemma quiet_refused: "refused s t \<Longrightarrow> quiet s t"
  by (auto simp: refused_def same_rest_def quiet_def closed_def)

lemma quiet_opened:
  assumes "struct_ok s" and "opened s t"
  shows "quiet s t"
proof -
  from assms(2) obtain c where c: "fresh_conn s c" "g_Heap t = (g_Heap s)(g_NextAddr s \<mapsto> c)"
    and f: "g_Issued t = Suc (g_Issued s)" "same_rest s t" by (auto simp: opened_def)
  have "closed h t" if "no_wrap t" "closed h s" for h
  proof -
    have "no_wrap s" using that(1) f(1) by (simp add: no_wrap_def)
    with struct_okD(10) [OF assms(1)] have "cn_Handle c = 1 + int (g_Issued s)"
      using c(1) by (simp add: fresh_conn_def)
    with that(2) c f(1) show ?thesis by (auto simp: closed_def)
  qed
  with f show ?thesis by (simp add: quiet_def same_rest_def)
qed

lemma quiet_Connect:
  assumes "sse_ok D s" and "SSE_Connect env args s = Some (r, t)"
  shows "quiet s t"
proof -
  have "connect_outcome s r t" using Connect_ok [OF assms(1), of args] assms(2) by auto
  moreover have "struct_ok s" using assms(1) by (simp add: sse_ok_def)
  ultimately show ?thesis using quiet_refused quiet_opened by (cases r) auto
qed

lemma quiet_RunAction:
  assumes "sse_ok D s" and "RunAction env x s = Some t"
  shows "quiet s t"
  using assms(2)
  by (cases x) (auto simp: quiet_fields quiet_push SSE_SetDebug_def SSE_EnqueueMessage_def
      SSE_EnqueueError_def intro: quiet_Connect [OF assms(1)] quiet_Disconnect quiet_EnqueueOpen
      quiet_EnqueueClosed quiet_SetConnected quiet_SetLastEventId)

lemma quiet_RunActions:
  "sse_ok D s \<Longrightarrow> RunActions env xs s = Some t \<Longrightarrow> quiet s t"
proof (induction xs arbitrary: s)
  case (Cons x xs)
  from Cons.prems(2) obtain u where u: "RunAction env x s = Some u" "RunActions env xs u = Some t"
    by (auto simp: bind_eq_Some_conv)
  have "sse_ok D u" using RunAction_wf [OF Cons.prems(1), of x] u(1) by auto
  with Cons.IH u quiet_RunAction [OF Cons.prems(1) u(1)] show ?case by (blast intro: quiet_trans)
qed simp

end

section \<open>What a flush delivers\<close>

text \<open>The tables \<open>x\<close> were delivered on the way from \<open>s\<close> to \<open>t\<close>, and nothing else was.\<close>

definition said :: "'w sse \<Rightarrow> (nat \<times> event_table) list \<Rightarrow> 'w sse \<Rightarrow> bool" where
  "said s x t \<longleftrightarrow> quiet (s\<lparr>g_Delivered := g_Delivered s @ x\<rparr>) t"

lemma said_sel:
  assumes "said s x t"
  shows "g_Delivered t = g_Delivered s @ x" and "g_Issued s \<le> g_Issued t"
    and "no_wrap t \<Longrightarrow> closed h s \<Longrightarrow> closed h t" and "g_EventsSwap t = g_EventsSwap s"
    and "g_OverflowSwap t = g_OverflowSwap s" and "g_Active t = g_Active s"
    and "g_Capacity t = g_Capacity s"
  using assms by (auto simp: said_def quiet_def closed_def)

lemma said_no_wrap: "said s x t \<Longrightarrow> no_wrap t \<Longrightarrow> no_wrap s"
  by (auto simp: said_def quiet_def no_wrap_def)

lemma said_quiet: "quiet s t \<Longrightarrow> said s [] t"
  by (simp add: said_def)

lemma closed_delivered [simp]: "closed h (s\<lparr>g_Delivered := l\<rparr>) = closed h s"
  by (simp add: closed_def)

lemma said_trans:
  assumes "said s x t" and "said t y u"
  shows "said s (x @ y) u"
  using assms said_no_wrap [OF assms(2)] unfolding said_def quiet_def by simp

text \<open>The table of an event goes to the callback of the open connection it names, or nowhere.\<close>

definition routed :: "'w sse \<Rightarrow> SSEEvent \<Rightarrow> (nat \<times> event_table) list \<Rightarrow> bool" where
  "routed s ev x \<longleftrightarrow> x = [] \<or> (\<exists>a c k. g_Heap s a = Some c \<and> cn_Handle c = ev_Handle ev
     \<and> \<not> cn_UserClosed c \<and> cn_Callback c = Some k \<and> g_CallbackValid s k
     \<and> x = [(k, SSE_PushEventTable ev)])"

context sse_env
begin

lemma call_lua_said:
  assumes "sse_ok D s" and "(if x_SetupCallback env k then call_lua env k tbl s else Some s) = Some t"
  shows "said s (if x_SetupCallback env k then [(k, tbl)] else []) t"
proof (cases "x_SetupCallback env k")
  case True
  let ?s = "s\<lparr>g_Delivered := g_Delivered s @ [(k, tbl)]\<rparr>"
  have "quiet ?s t"
    using assms(2) True quiet_RunActions [OF wf_delivered [OF assms(1)]]
    by (simp add: call_lua_def Let_def)
  with True show ?thesis by (simp add: said_def)
next
  case False
  with assms(2) show ?thesis by (simp add: said_quiet)
qed

lemma DispatchEvent_said:
  assumes w: "sse_ok {} s" and t: "SSE_DispatchEvent env ev s = Some t"
  shows "\<exists>x. said s x t \<and> routed s ev x"
proof -
  have st: "struct_ok s" using w by (simp add: sse_ok_def)
  show ?thesis
  proof (cases rule: FindConnection_ok [OF st, of "ev_Handle ev"])
    case 1: (1 a c)
    then obtain k where k: "cn_Callback c = Some k" using struct_ok_callback [OF st] by blast
    note red = SSE_DispatchEvent_def deref_def
    consider (closed) "cn_UserClosed c" | (invalid) "\<not> cn_UserClosed c" "\<not> g_CallbackValid s k"
      | (ok) "\<not> cn_UserClosed c" "g_CallbackValid s k" by blast
    then show ?thesis
    proof cases
      case closed
      with 1 k t have "t = s" by (simp add: red)
      then show ?thesis using said_quiet [OF quiet_refl, of s] by (auto simp: routed_def)
    next
      case invalid
      let ?u = "s\<lparr>g_Heap := (g_Heap s)(a \<mapsto> c\<lparr>cn_UserClosed := True\<rparr>)\<rparr>"
      have "SSE_DestroyConnection env a True ?u = Some t"
        using t 1 invalid k by (simp add: red modify_at)
      then have "quiet ?u t" by (rule quiet_destroy)
      moreover have "quiet s ?u" by (rule quiet_set [OF 1(2)]) (simp add: keeps_closed_def)
      ultimately show ?thesis by (meson said_quiet routed_def quiet_trans)
    next
      case ok
      let ?u = "s\<lparr>g_Heap := (g_Heap s)(a \<mapsto> c\<lparr>cn_Dispatching := True\<rparr>)\<rparr>"
      note w1 = wf_enter [OF w 1(2) ok(1)]
      obtain s2 where s2: "(if x_SetupCallback env k then call_lua env k (SSE_PushEventTable ev) ?u
          else Some ?u) = Some s2" using setup_and_call_wf [OF w1] by blast
      let ?x = "if x_SetupCallback env k then [(k, SSE_PushEventTable ev)] else []"
      have q1: "said s [] ?u" by (rule said_quiet, rule quiet_set [OF 1(2)]) (simp add: keeps_closed_def)
      note q2 = call_lua_said [OF w1 s2]
      obtain c2 where c2: "g_Heap s2 a = Some c2"
        using t 1 ok k s2 by (auto simp: red modify_at bind_eq_Some_conv)
      let ?v = "s2\<lparr>g_Heap := (g_Heap s2)(a \<mapsto> c2\<lparr>cn_Dispatching := False\<rparr>)\<rparr>"
      have "(if cn_DestroyAfterDispatch c2 then SSE_DestroyConnection env a False ?v else Some ?v) = Some t"
        using t 1 ok k s2 c2 by (simp add: red modify_at)
      then have "quiet ?v t" by (auto split: if_splits dest: quiet_destroy)
      moreover have "quiet s2 ?v" by (rule quiet_set [OF c2]) (simp add: keeps_closed_def)
      ultimately have "said s2 [] t" by (meson said_quiet quiet_trans)
      from said_trans [OF said_trans [OF q1 q2] this] have "said s ?x t" by simp
      moreover have "routed s ev ?x" using 1 ok k by (auto simp: routed_def)
      ultimately show ?thesis by blast
    qed
  next
    case 2
    with t have "t = s" by (simp add: SSE_DispatchEvent_def)
    then show ?thesis using said_quiet [OF quiet_refl, of s] by (auto simp: routed_def)
  qed
qed

end

end
