(* ===== verification/ExtensionProps.thy ===== *)
theory ExtensionProps
  imports ExtensionFrame
begin

text \<open>
  The properties of the extension. A run between \<open>AppInitialize\<close> and the end is a list of
  calls: actions (of the script or of another thread) and updates. The environment is any
  one that obeys the laws of \<open>sse_env\<close>.
\<close>

section \<open>Flushing\<close>

text \<open>Between two flushes the scratch arrays are empty.\<close>

definition idle :: "'w sse \<Rightarrow> bool" where
  "idle s \<longleftrightarrow> sse_ok {} s \<and> g_EventsSwap s = [] \<and> g_OverflowSwap s = []"

lemma wf_swaps:
  "sse_ok D s \<Longrightarrow> sse_ok D (s\<lparr>g_EventsSwap := x\<rparr>)" "sse_ok D s \<Longrightarrow> sse_ok D (s\<lparr>g_OverflowSwap := y\<rparr>)"
  by (rule wf_same_core [of s]; auto simp: same_core_def sse_ok_def queue_ok_def)+

lemma wf_swapped:
  "sse_ok D s \<Longrightarrow> sse_ok D (s\<lparr>g_Events := [], g_EventsSwap := x, g_OverflowHandles := [], g_OverflowSwap := y\<rparr>)"
  by (rule wf_same_core [of s]) (auto simp: same_core_def sse_ok_def queue_ok_def)

definition silent :: "int \<Rightarrow> (nat \<times> event_table) list \<Rightarrow> bool" where
  "silent h x \<longleftrightarrow> (\<forall>d \<in> set x. et_handle (snd d) \<noteq> h)"

lemma silent_append [simp]: "silent h (x @ y) \<longleftrightarrow> silent h x \<and> silent h y"
  by (auto simp: silent_def)

lemma routed_silent: "routed s ev x \<Longrightarrow> closed h s \<Longrightarrow> silent h x"
  by (auto simp: routed_def silent_def closed_def SSE_PushEventTable_def Let_def)

lemma routed_table: "routed s ev x \<Longrightarrow> subseq (map snd x) [SSE_PushEventTable ev]"
  by (auto simp: routed_def)

text \<open>The flush as one dispatch of the queued events and the overflow notices.\<close>

definition flush_tables :: "'w sse \<Rightarrow> event_table list" where
  "flush_tables s = map SSE_PushEventTable (g_Events s @ map overflow_event (g_OverflowHandles s))"

context sse_env
begin

lemma dispatch_all_said:
  "sse_ok {} s \<Longrightarrow> dispatch_all env es s = Some t \<Longrightarrow>
   \<exists>x. said s x t \<and> subseq (map snd x) (map SSE_PushEventTable es)
     \<and> (no_wrap t \<longrightarrow> (\<forall>h. closed h s \<longrightarrow> silent h x))"
proof (induction es arbitrary: s)
  case Nil
  then show ?case using said_quiet [OF quiet_refl, of s] by (auto simp: silent_def intro!: exI [of _ "[]"])
next
  case (Cons e es)
  from Cons.prems(2) obtain u where u: "SSE_DispatchEvent env e s = Some u" "dispatch_all env es u = Some t"
    by (auto simp: bind_eq_Some_conv)
  have w: "sse_ok {} u" using DispatchEvent_wf [OF Cons.prems(1), of e] u(1) by auto
  from DispatchEvent_said [OF Cons.prems(1) u(1)] obtain x where x: "said s x u" "routed s e x" by blast
  from Cons.IH [OF w u(2)] obtain y where y: "said u y t"
    "subseq (map snd y) (map SSE_PushEventTable es)" "no_wrap t \<longrightarrow> (\<forall>h. closed h u \<longrightarrow> silent h y)" by blast
  have "subseq (map snd (x @ y)) (map SSE_PushEventTable (e # es))"
    using list_emb_append_mono [OF routed_table [OF x(2)] y(2)] by simp
  moreover have "silent h (x @ y)" if "no_wrap t" "closed h s" for h
    using routed_silent [OF x(2) that(2)] said_sel(3) [OF x(1) said_no_wrap [OF y(1) that(1)] that(2)]
      y(3) that(1) by simp
  ultimately show ?case using said_trans [OF x(1) y(1)] by blast
qed

lemma overflow_is_dispatch: "overflow_all env hs s = dispatch_all env (map overflow_event hs) s"
proof (induction hs arbitrary: s)
  case (Cons h hs)
  then have "overflow_all env hs = dispatch_all env (map overflow_event hs)" by blast
  then show ?case by (simp add: SSE_DispatchOverflow_def)
qed simp

lemma FlushQueue_ok:
  assumes i: "idle s"
  shows "\<exists>t x. SSE_FlushQueue env s = Some t \<and> idle t \<and> g_Delivered t = g_Delivered s @ x
     \<and> subseq (map snd x) (flush_tables s) \<and> g_Issued s \<le> g_Issued t
     \<and> (no_wrap t \<longrightarrow> (\<forall>h. closed h s \<longrightarrow> closed h t \<and> silent h x))"
proof -
  let ?s1 = "s\<lparr>g_Events := [], g_EventsSwap := g_Events s, g_OverflowHandles := [],
    g_OverflowSwap := g_OverflowHandles s\<rparr>"
  have w1: "sse_ok {} ?s1" using i wf_swapped by (auto simp: idle_def)
  from dispatch_all_wf [OF w1] obtain s2 where s2: "dispatch_all env (g_Events s) ?s1 = Some s2" "sse_ok {} s2"
    by blast
  from dispatch_all_said [OF w1 s2(1)] obtain x where x: "said ?s1 x s2"
    "subseq (map snd x) (map SSE_PushEventTable (g_Events s))" 
    "no_wrap s2 \<longrightarrow> (\<forall>h. closed h ?s1 \<longrightarrow> silent h x)" by blast
  let ?s2 = "s2\<lparr>g_EventsSwap := []\<rparr>"
  let ?os = "map overflow_event (g_OverflowHandles s)"
  have w2: "sse_ok {} ?s2" using s2(2) by (rule wf_swaps)
  from dispatch_all_wf [OF w2] obtain s3 where s3: "dispatch_all env ?os ?s2 = Some s3" "sse_ok {} s3" by blast
  from dispatch_all_said [OF w2 s3(1)] obtain y where y: "said ?s2 y s3"
    "subseq (map snd y) (map SSE_PushEventTable ?os)" 
    "no_wrap s3 \<longrightarrow> (\<forall>h. closed h ?s2 \<longrightarrow> silent h y)" by blast
  let ?t = "s3\<lparr>g_OverflowSwap := []\<rparr>"
  have "SSE_FlushQueue env s = Some ?t"
    using i s2(1) s3(1) by (simp add: SSE_FlushQueue_def idle_def Let_def overflow_is_dispatch)
  moreover have "idle ?t"
    using wf_swaps(2) [OF s3(2)] said_sel(4) [OF y(1)] by (simp add: idle_def)
  moreover have "g_Delivered ?t = g_Delivered s @ x @ y"
    using said_sel(1) [OF x(1)] said_sel(1) [OF y(1)] by simp
  moreover have "subseq (map snd (x @ y)) (flush_tables s)"
    using list_emb_append_mono [OF x(2) y(2)] by (simp add: flush_tables_def)
  moreover have "g_Issued s \<le> g_Issued ?t"
    using said_sel(2) [OF x(1)] said_sel(2) [OF y(1)] by simp
  moreover have "closed h ?t \<and> silent h (x @ y)" if n: "no_wrap ?t" and c: "closed h s" for h
  proof -
    have n3: "no_wrap s3" using n by (simp add: no_wrap_def)
    then have n2: "no_wrap s2" using said_no_wrap [OF y(1)] by (simp add: no_wrap_def)
    have 1: "closed h ?s1" using c by (simp add: closed_def)
    then have "closed h s2" by (rule said_sel(3) [OF x(1) n2])
    then have 2: "closed h ?s2" by (simp add: closed_def)
    then have "closed h s3" by (rule said_sel(3) [OF y(1) n3])
    then have "closed h ?t" by (simp add: closed_def)
    with 1 2 x(3) n2 y(3) n3 show ?thesis by simp
  qed
  ultimately show ?thesis by blast
qed

end

section \<open>Runs\<close>

datatype 'w main_step = Act "'w action" | Update

fun run_step :: "'w env \<Rightarrow> 'w main_step \<Rightarrow> 'w sse \<Rightarrow> 'w sse option" where
  "run_step env (Act x) s = RunAction env x s"
| "run_step env Update s = UpdateSSE env s"

fun run :: "'w env \<Rightarrow> 'w main_step list \<Rightarrow> 'w sse \<Rightarrow> 'w sse option" where
  "run env [] s = Some s"
| "run env (m # ms) s = do { s1 \<leftarrow> run_step env m s; run env ms s1 }"

text \<open>The state after \<open>AppInitialize\<close> and \<open>Initialize\<close>.\<close>

definition started :: "'w env \<Rightarrow> (nat \<Rightarrow> bool) \<Rightarrow> 'w \<Rightarrow> 'w sse" where
  "started env valid w = InitializeSSE env (AppInitializeSSE (sse_zero valid w))"

lemma started_idle: "idle (started env valid w)"
  by (auto simp: started_def idle_def sse_ok_def InitializeSSE_def AppInitializeSSE_def sse_zero_def
      queue_ok_def flags_ok_def struct_ok_def)

lemma idle_platform: "idle s \<Longrightarrow> idle (s\<lparr>g_Platform := w\<rparr>)"
  by (simp add: idle_def wf_platform)

context sse_env
begin

lemma run_step_ok:
  assumes "idle s"
  shows "\<exists>t x. run_step env m s = Some t \<and> idle t \<and> g_Delivered t = g_Delivered s @ x
     \<and> g_Issued s \<le> g_Issued t \<and> (no_wrap t \<longrightarrow> (\<forall>h. closed h s \<longrightarrow> closed h t \<and> silent h x))"
proof (cases m)
  case (Act x)
  have w: "sse_ok {} s" using assms by (simp add: idle_def)
  from RunAction_wf [OF w, of x] obtain t where t: "RunAction env x s = Some t" "sse_ok {} t" by blast
  have "quiet s t" by (rule quiet_RunAction [OF w t(1)])
  with assms t Act show ?thesis by (intro exI [of _ t] exI [of _ "[]"]) (simp add: idle_def quiet_def silent_def)
next
  case Update
  from FlushQueue_ok [OF assms] obtain t x where t: "SSE_FlushQueue env s = Some t" "idle t"
    "g_Delivered t = g_Delivered s @ x" "g_Issued s \<le> g_Issued t"
    "no_wrap t \<longrightarrow> (\<forall>h. closed h s \<longrightarrow> closed h t \<and> silent h x)" by blast
  let ?t = "t\<lparr>g_Platform := ad_Update (x_Adapter env) (g_Platform t)\<rparr>"
  show ?thesis
    by (intro exI [of _ ?t] exI [of _ x]) (use t Update in \<open>simp add: UpdateSSE_def idle_platform closed_def no_wrap_def\<close>)
qed

lemma run_ok:
  "idle s \<Longrightarrow> \<exists>t x. run env ms s = Some t \<and> idle t \<and> g_Delivered t = g_Delivered s @ x
     \<and> g_Issued s \<le> g_Issued t \<and> (no_wrap t \<longrightarrow> (\<forall>h. closed h s \<longrightarrow> closed h t \<and> silent h x))"
proof (induction ms arbitrary: s)
  case Nil
  then show ?case by (intro exI [of _ s] exI [of _ "[]"]) (simp add: silent_def)
next
  case (Cons m ms)
  from run_step_ok [OF Cons.prems, of m] obtain u x where u: "run_step env m s = Some u" "idle u"
    "g_Delivered u = g_Delivered s @ x" "g_Issued s \<le> g_Issued u"
    "no_wrap u \<longrightarrow> (\<forall>h. closed h s \<longrightarrow> closed h u \<and> silent h x)" by blast
  from Cons.IH [OF u(2)] obtain t y where t: "run env ms u = Some t" "idle t"
    "g_Delivered t = g_Delivered u @ y" "g_Issued u \<le> g_Issued t"
    "no_wrap t \<longrightarrow> (\<forall>h. closed h u \<longrightarrow> closed h t \<and> silent h y)" by blast
  have "no_wrap t \<Longrightarrow> no_wrap u" using t(4) by (simp add: no_wrap_def)
  then show ?case by (intro exI [of _ t] exI [of _ "x @ y"]) (use u t in simp)
qed

text \<open>Destroying every connection.\<close>

lemma FinalizeLoop_ok:
  "idle s \<Longrightarrow> length (g_Connections s) \<le> n \<Longrightarrow>
   \<exists>t. FinalizeLoop env n s = Some t \<and> idle t \<and> g_Connections t = [] \<and> g_Delivered t = g_Delivered s"
proof (induction n arbitrary: s)
  case 0
  then show ?case by (simp add: FinalizeLoop.simps)
next
  case (Suc n)
  show ?case
  proof (cases "g_Connections s")
    case Nil
    with Suc.prems show ?thesis by (simp add: FinalizeLoop.simps)
  next
    case (Cons a as)
    have w: "sse_ok {} s" using Suc.prems by (simp add: idle_def)
    then have st: "struct_ok s" "flags_ok {} {a} s" "queue_ok s"
      by (auto simp: sse_ok_def flags_ok_def)
    have "a \<in> dom (g_Heap s)" using struct_okD(2) [OF st(1)] Cons by auto
    from Destroy_wf [OF st this, of True] obtain u where u: "SSE_DestroyConnection env a True s = Some u"
      "sse_ok {} u" "length (g_Connections u) = length (g_Connections s) - 1" by auto
    have "quiet s u" by (rule quiet_destroy [OF u(1)])
    then have i: "idle u" "g_Delivered u = g_Delivered s"
      using u(2) Suc.prems by (simp_all add: idle_def quiet_def)
    have "length (g_Connections u) \<le> n" using u(3) Suc.prems by simp
    from Suc.IH [OF i(1) this] i(2) u(1) Cons show ?thesis by (simp add: FinalizeLoop.simps)
  qed
qed

text \<open>Without connections nothing can be delivered, so no callback runs.\<close>

lemma dispatch_all_no_connections:
  "g_Connections s = [] \<Longrightarrow> dispatch_all env es s = Some s"
  by (induction es) (simp_all add: SSE_DispatchEvent_def SSE_FindConnection_def SSE_FindConnectionNoLock_def)

lemma FinalizeSSE_ok:
  assumes "idle s"
  shows "\<exists>t. FinalizeSSE env s = Some t \<and> idle t \<and> g_Connections t = [] \<and> g_Events t = []
     \<and> g_OverflowHandles t = [] \<and> g_Delivered t = g_Delivered s"
proof -
  from FinalizeLoop_ok [OF assms order_refl] obtain u where
    u: "FinalizeLoop env (length (g_Connections s)) s = Some u" "idle u" "g_Connections u = []"
    "g_Delivered u = g_Delivered s" by blast
  let ?t = "u\<lparr>g_Events := [], g_EventsSwap := [], g_OverflowHandles := [], g_OverflowSwap := []\<rparr>"
  have "SSE_FlushQueue env u = Some ?t"
    using u(2,3) by (simp add: SSE_FlushQueue_def idle_def Let_def overflow_is_dispatch
        dispatch_all_no_connections)
  moreover have "idle ?t"
    using wf_swapped [of "{}" u "[]" "[]"] u(2) by (simp add: idle_def)
  ultimately show ?thesis using u
    by (intro exI [of _ "?t\<lparr>g_Platform := ad_Finalize (x_Adapter env) (g_Platform ?t)\<rparr>"])
      (simp add: FinalizeSSE_def idle_platform)
qed

end

end
