(* ===== verification/NullAdapter.thy ===== *)
theory NullAdapter
  imports SseTypes
begin

text \<open>
  The adapters without a transport: \<open>sse_null.cpp\<close>, for platforms the extension does not
  know, and the last branch of \<open>sse_desktop.cpp\<close>, for a desktop build without libcurl.
  Both keep no state; they refuse every connection.
\<close>

definition null_error :: string where
  "null_error = ''sse is not supported on this platform''"

definition stub_error :: string where
  "stub_error = ''desktop SSE support requires libcurl to be linked for this platform''"

definition null_adapter :: "unit adapter" where
  "null_adapter = \<lparr>ad_Initialize = (\<lambda>w. (True, w)), ad_Finalize = (\<lambda>w. w),
     ad_IsSupported = (\<lambda>w. False), ad_Connect = (\<lambda>w c. (w, c, Some null_error)),
     ad_Disconnect = (\<lambda>w c. (w, c\<lparr>cn_PlatformData := None\<rparr>)),
     ad_IsConnected = (\<lambda>w c. False), ad_Update = (\<lambda>w. w)\<rparr>"

definition stub_adapter :: "unit adapter" where
  "stub_adapter = \<lparr>ad_Initialize = (\<lambda>w. (True, w)), ad_Finalize = (\<lambda>w. w),
     ad_IsSupported = (\<lambda>w. False), ad_Connect = (\<lambda>w c. (w, c, Some stub_error)),
     ad_Disconnect = (\<lambda>w c. (w, c\<lparr>cn_PlatformData := None\<rparr>)),
     ad_IsConnected = (\<lambda>w c. False), ad_Update = (\<lambda>w. w)\<rparr>"

lemma unchanged_platform: "cn_PlatformData c = None \<Longrightarrow> c\<lparr>cn_PlatformData := None\<rparr> = c"
  by (cases c) simp

interpretation null: platform_adapter null_adapter
  by unfold_locales (auto simp: null_adapter_def unchanged_platform intro!: exI [of _ None])

interpretation stub: platform_adapter stub_adapter
  by unfold_locales (auto simp: stub_adapter_def unchanged_platform intro!: exI [of _ None])

end
