(* ===== verification/Parser.thy ===== *)
theory Parser
  imports Prelude
begin

text \<open>
  The native SSE parser: \<open>sse_parser.h\<close> and \<open>sse_parser.cpp\<close>. The parser object is the
  record \<open>sse_parser\<close>; the callbacks are functions on the caller's context, which the C++ code
  reaches through the pointer \<open>context\<close> and which is passed and returned here. Both the
  pointer to the callbacks and each callback may be null, which is \<open>None\<close>.
\<close>

section \<open>Data\<close>

record parsed_event =
  pe_Event :: string
  pe_Data :: string
  pe_Id :: string
  pe_LastEventId :: "string option"

record 'c parser_callbacks =
  cb_OnEvent :: "('c \<Rightarrow> parsed_event \<Rightarrow> bool \<times> 'c) option"
  cb_OnRetry :: "('c \<Rightarrow> int \<Rightarrow> 'c) option"
  cb_OnId :: "('c \<Rightarrow> string \<Rightarrow> 'c) option"
  cb_OnError :: "('c \<Rightarrow> string \<Rightarrow> 'c) option"

definition no_callbacks :: "'c parser_callbacks" where
  "no_callbacks = \<lparr>cb_OnEvent = None, cb_OnRetry = None, cb_OnId = None, cb_OnError = None\<rparr>"

record sse_parser =
  sp_Line :: string
  sp_Data :: string
  sp_Event :: string
  sp_Id :: string
  sp_IdAtBlockStart :: string
  sp_HasId :: bool
  sp_HasIdEver :: bool
  sp_HasIdEverAtBlockStart :: bool
  sp_DropObserved :: bool
  sp_FirstLine :: bool
  sp_DiscardingLine :: bool
  sp_EventPoisoned :: bool

definition SSE_PARSER_MAX_BUFFER :: nat where
  "SSE_PARSER_MAX_BUFFER = 1024 * 1024"

definition SSE_PARSER_RETRY_MIN_MS :: int where "SSE_PARSER_RETRY_MIN_MS = 1000"
definition SSE_PARSER_RETRY_MAX_MS :: int where "SSE_PARSER_RETRY_MAX_MS = 300000"

section \<open>Operations\<close>

text \<open>\<open>Reset\<close> assigns every member, so the state it starts from does not matter.\<close>

definition Reset :: "sse_parser \<Rightarrow> sse_parser" where
  "Reset p = p\<lparr>sp_Line := [], sp_Data := [], sp_Event := [], sp_Id := [],
     sp_IdAtBlockStart := [], sp_HasId := False, sp_HasIdEver := False,
     sp_HasIdEverAtBlockStart := False, sp_DropObserved := False, sp_FirstLine := True,
     sp_DiscardingLine := False, sp_EventPoisoned := False\<rparr>"

definition PoisonEvent :: "sse_parser \<Rightarrow> sse_parser" where
  "PoisonEvent p = p\<lparr>sp_Data := [], sp_HasId := False, sp_EventPoisoned := True,
     sp_Id := sp_IdAtBlockStart p, sp_HasIdEver := sp_HasIdEverAtBlockStart p\<rparr>"

text \<open>Calls through the (possibly null) callback pointers.\<close>

definition fire_event ::
  "'c parser_callbacks option \<Rightarrow> 'c \<Rightarrow> parsed_event \<Rightarrow> bool \<times> 'c" where
  "fire_event cbs c ev =
     (case cbs of None \<Rightarrow> (True, c)
      | Some k \<Rightarrow> (case cb_OnEvent k of None \<Rightarrow> (True, c) | Some f \<Rightarrow> f c ev))"

definition fire_id :: "'c parser_callbacks option \<Rightarrow> 'c \<Rightarrow> string \<Rightarrow> 'c" where
  "fire_id cbs c s =
     (case cbs of None \<Rightarrow> c | Some k \<Rightarrow> (case cb_OnId k of None \<Rightarrow> c | Some f \<Rightarrow> f c s))"

definition fire_retry :: "'c parser_callbacks option \<Rightarrow> 'c \<Rightarrow> int \<Rightarrow> 'c" where
  "fire_retry cbs c n =
     (case cbs of None \<Rightarrow> c | Some k \<Rightarrow> (case cb_OnRetry k of None \<Rightarrow> c | Some f \<Rightarrow> f c n))"

definition fire_error :: "'c parser_callbacks option \<Rightarrow> 'c \<Rightarrow> string \<Rightarrow> 'c" where
  "fire_error cbs c s =
     (case cbs of None \<Rightarrow> c | Some k \<Rightarrow> (case cb_OnError k of None \<Rightarrow> c | Some f \<Rightarrow> f c s))"

text \<open>The event that \<open>Dispatch\<close> hands to the callback; the members are C strings.\<close>

definition BuildEvent :: "sse_parser \<Rightarrow> string \<Rightarrow> parsed_event" where
  "BuildEvent p data =
     \<lparr>pe_Event = (if sp_Event p = [] then ''message'' else c_str (sp_Event p)),
      pe_Data = c_str data,
      pe_Id = (if sp_HasId p then c_str (sp_Id p) else []),
      pe_LastEventId =
        (if sp_HasIdEver p \<and> \<not> sp_DropObserved p then Some (c_str (sp_Id p)) else None)\<rparr>"

definition EndBlock :: "sse_parser \<Rightarrow> sse_parser" where
  "EndBlock p = p\<lparr>sp_Data := [], sp_Event := [], sp_HasId := False,
     sp_IdAtBlockStart := sp_Id p, sp_HasIdEverAtBlockStart := sp_HasIdEver p\<rparr>"

definition Dispatch :: "'c parser_callbacks option \<Rightarrow> sse_parser \<times> 'c \<Rightarrow> sse_parser \<times> 'c" where
  "Dispatch cbs pc = (case pc of (p, c) \<Rightarrow>
     if sp_EventPoisoned p then (EndBlock (p\<lparr>sp_EventPoisoned := False\<rparr>), c)
     else if sp_Data p = [] then
       (EndBlock p,
        if sp_HasId p \<and> \<not> sp_DropObserved p then fire_id cbs c (c_str (sp_Id p)) else c)
     else
       let data = (if last (sp_Data p) = LF then butlast (sp_Data p) else sp_Data p);
           p1 = p\<lparr>sp_Data := data\<rparr>;
           (delivered, c1) = fire_event cbs c (BuildEvent p1 data);
           p2 = (if \<not> delivered
                 then p1\<lparr>sp_Id := sp_IdAtBlockStart p1,
                         sp_HasIdEver := sp_HasIdEverAtBlockStart p1,
                         sp_DropObserved := True\<rparr>
                 else p1)
       in (EndBlock p2, c1))"

definition StripBOM :: "string \<Rightarrow> string" where
  "StripBOM line =
     (if 3 \<le> length line \<and> line ! 0 = CHR 0xEF \<and> line ! 1 = CHR 0xBB \<and> line ! 2 = CHR 0xBF
      then drop 3 line else line)"

definition StripCR :: "string \<Rightarrow> string" where
  "StripCR line = (if line \<noteq> [] \<and> last line = CR then butlast line else line)"

definition SplitField :: "string \<Rightarrow> string \<times> string" where
  "SplitField line =
     (case find_char CHR '':'' line of
        None \<Rightarrow> (line, [])
      | Some colon \<Rightarrow>
          (let v = drop (Suc colon) line
           in (take colon line, if v \<noteq> [] \<and> hd v = CHR '' '' then tl v else v)))"

text \<open>The reconnect delay of a valid \<open>retry:\<close> value, clamped.\<close>

definition ClampRetry :: "int \<Rightarrow> string \<Rightarrow> int" where
  "ClampRetry lmax value =
     (let (parsed0, erange, _) = strtol lmax value;
          parsed1 = (if erange \<or> parsed0 > SSE_PARSER_RETRY_MAX_MS
                     then SSE_PARSER_RETRY_MAX_MS else parsed0)
      in if parsed1 < SSE_PARSER_RETRY_MIN_MS then SSE_PARSER_RETRY_MIN_MS else parsed1)"

definition ProcessField ::
  "'c parser_callbacks option \<Rightarrow> string \<Rightarrow> string \<Rightarrow> sse_parser \<times> 'c \<Rightarrow> sse_parser \<times> 'c" where
  "ProcessField cbs field value pc = (case pc of (p, c) \<Rightarrow>
     if field = ''data'' then
       (if length (sp_Data p) + length value + 1 > SSE_PARSER_MAX_BUFFER
        then (PoisonEvent p, fire_error cbs c ''SSE event data exceeded maximum buffer size'')
        else (p\<lparr>sp_Data := sp_Data p @ value @ [LF]\<rparr>, c))
     else if field = ''event'' then (p\<lparr>sp_Event := value\<rparr>, c)
     else if field = ''id'' then (p\<lparr>sp_Id := value, sp_HasId := True, sp_HasIdEver := True\<rparr>, c)
     else if field = ''retry'' then
       (if value \<noteq> [] \<and> list_all isdigit value
        then (p, fire_retry cbs c (ClampRetry LONG_MAX value)) else (p, c))
     else (p, c))"

text \<open>\<open>ProcessLine\<close> after the byte order mark and the carriage return are gone.\<close>

definition HandleLine ::
  "'c parser_callbacks option \<Rightarrow> string \<Rightarrow> sse_parser \<times> 'c \<Rightarrow> sse_parser \<times> 'c" where
  "HandleLine cbs line pc = (case pc of (p, c) \<Rightarrow>
     if line = [] then Dispatch cbs (p, c)
     else if sp_EventPoisoned p then (p, c)
     else if hd line = CHR '':'' then (p, c)
     else (case SplitField line of (field, value) \<Rightarrow> ProcessField cbs field value (p, c)))"

definition ProcessLine ::
  "'c parser_callbacks option \<Rightarrow> string \<Rightarrow> sse_parser \<times> 'c \<Rightarrow> sse_parser \<times> 'c" where
  "ProcessLine cbs line pc = (case pc of (p, c) \<Rightarrow>
     HandleLine cbs (StripCR (if sp_FirstLine p then StripBOM line else line))
       (p\<lparr>sp_FirstLine := False\<rparr>, c))"

text \<open>One turn of the loop of \<open>Feed\<close>, and the loop.\<close>

definition FeedByte ::
  "'c parser_callbacks option \<Rightarrow> char \<Rightarrow> sse_parser \<times> 'c \<Rightarrow> sse_parser \<times> 'c" where
  "FeedByte cbs b pc = (case pc of (p, c) \<Rightarrow>
     if b = LF then
       (if sp_DiscardingLine p then (p\<lparr>sp_DiscardingLine := False, sp_Line := []\<rparr>, c)
        else (case ProcessLine cbs (sp_Line p) (p, c) of (p1, c1) \<Rightarrow> (p1\<lparr>sp_Line := []\<rparr>, c1)))
     else if sp_DiscardingLine p then (p, c)
     else
       let p1 = p\<lparr>sp_Line := sp_Line p @ [b]\<rparr>
       in if length (sp_Line p1) > SSE_PARSER_MAX_BUFFER
          then (PoisonEvent (p1\<lparr>sp_Line := [], sp_DiscardingLine := True\<rparr>),
                fire_error cbs c ''SSE line exceeded maximum buffer size'')
          else (p1, c))"

fun Feed ::
  "'c parser_callbacks option \<Rightarrow> string \<Rightarrow> sse_parser \<times> 'c \<Rightarrow> sse_parser \<times> 'c" where
  "Feed cbs [] pc = pc"
| "Feed cbs (b # bytes) pc = Feed cbs bytes (FeedByte cbs b pc)"

text \<open>The parser after its constructor, which calls \<open>Reset\<close>.\<close>

definition SSEParser_new :: sse_parser where
  "SSEParser_new =
     \<lparr>sp_Line = [], sp_Data = [], sp_Event = [], sp_Id = [], sp_IdAtBlockStart = [],
      sp_HasId = False, sp_HasIdEver = False, sp_HasIdEverAtBlockStart = False,
      sp_DropObserved = False, sp_FirstLine = True, sp_DiscardingLine = False,
      sp_EventPoisoned = False\<rparr>"

lemma Reset_new [simp]: "Reset p = SSEParser_new"
  by (simp add: Reset_def SSEParser_new_def)

lemmas fire_defs = fire_event_def fire_id_def fire_retry_def fire_error_def

section \<open>Feeding in pieces\<close>

lemma Feed_append: "Feed cbs (xs @ ys) pc = Feed cbs ys (Feed cbs xs pc)"
  by (induction xs arbitrary: pc) auto

end
