(* ===== verification/ParserClient.thy ===== *)
theory ParserClient
  imports Parser
begin

text \<open>
  What the parser promises to the code behind its callbacks. The locale
  \<open>parser_client\<close> is the interface: a property \<open>J d c\<close> of the caller's context \<open>c\<close>, where
  \<open>d\<close> says whether an event of this stream attempt has been dropped, that every callback
  keeps under the guarantees the parser gives for its arguments. Its lemma lifts the property to
  \<open>Feed\<close>. The recorder, a context that only writes down the calls it gets and answers
  as an arbitrary function says, instantiates it and gives the transcript of a parse.
\<close>

section \<open>The client's interface\<close>

text \<open>
  The guarantees: after a drop no event carries a resume position and \<open>m_OnId\<close> is not
  called, and a reconnect delay is within the clamped range.
\<close>

locale parser_client =
  fixes cbs :: "'c parser_callbacks"
    and J :: "bool \<Rightarrow> 'c \<Rightarrow> bool"
  assumes client_event:
    "J d c \<Longrightarrow> (d \<Longrightarrow> pe_LastEventId e = None) \<Longrightarrow> fire_event (Some cbs) c e = (b, c')
       \<Longrightarrow> J (d \<or> \<not> b) c'"
    and client_id: "J False c \<Longrightarrow> NUL \<notin> set s \<Longrightarrow> J False (fire_id (Some cbs) c s)"
    and client_retry:
      "J d c \<Longrightarrow> SSE_PARSER_RETRY_MIN_MS \<le> n \<Longrightarrow> n \<le> SSE_PARSER_RETRY_MAX_MS
         \<Longrightarrow> J d (fire_retry (Some cbs) c n)"
    and client_error: "J d c \<Longrightarrow> J d (fire_error (Some cbs) c s)"

lemma PoisonEvent_Drop [simp]: "sp_DropObserved (PoisonEvent p) = sp_DropObserved p"
  by (simp add: PoisonEvent_def)

lemma EndBlock_Drop [simp]: "sp_DropObserved (EndBlock p) = sp_DropObserved p"
  by (simp add: EndBlock_def)

lemma ClampRetry_range:
  "SSE_PARSER_RETRY_MIN_MS \<le> ClampRetry lmax v \<and> ClampRetry lmax v \<le> SSE_PARSER_RETRY_MAX_MS"
  by (auto simp: ClampRetry_def SSE_PARSER_RETRY_MIN_MS_def SSE_PARSER_RETRY_MAX_MS_def Let_def
      split: prod.splits)

context parser_client
begin

lemma Dispatch_client:
  assumes J: "J (sp_DropObserved p) c" and D: "Dispatch (Some cbs) (p, c) = (p', c')"
  shows "J (sp_DropObserved p') c'"
proof -
  consider (poisoned) "sp_EventPoisoned p"
    | (empty) "\<not> sp_EventPoisoned p" "sp_Data p = []"
    | (event) "\<not> sp_EventPoisoned p" "sp_Data p \<noteq> []" by blast
  then show ?thesis
  proof cases
    case poisoned
    with J D show ?thesis by (auto simp: Dispatch_def)
  next
    case empty
    with J D show ?thesis by (auto simp: Dispatch_def intro: client_id [OF _ NUL_notin_c_str] split: if_splits)
  next
    case event
    define data where "data = (if last (sp_Data p) = LF then butlast (sp_Data p) else sp_Data p)"
    define e where "e = BuildEvent (p\<lparr>sp_Data := data\<rparr>) data"
    obtain b c1 where f: "fire_event (Some cbs) c e = (b, c1)" by fastforce
    have "J (sp_DropObserved p \<or> \<not> b) c1"
      by (rule client_event [OF J _ f]) (simp add: e_def BuildEvent_def)
    with event D f show ?thesis
      by (cases b) (auto simp: Dispatch_def Let_def data_def [symmetric] e_def [symmetric])
  qed
qed

lemma ProcessField_client:
  assumes J: "J (sp_DropObserved p) c"
    and P: "ProcessField (Some cbs) f v (p, c) = (p', c')"
  shows "J (sp_DropObserved p') c'"
  using P J by (auto simp: ProcessField_def ClampRetry_range intro: client_error client_retry
      split: if_splits)

lemma HandleLine_client:
  assumes J: "J (sp_DropObserved p) c" and P: "HandleLine (Some cbs) l (p, c) = (p', c')"
  shows "J (sp_DropObserved p') c'"
  using P J by (auto simp: HandleLine_def dest: Dispatch_client [OF J] ProcessField_client [OF J]
      split: if_splits prod.splits)

lemma ProcessLine_client:
  assumes J: "J (sp_DropObserved p) c" and P: "ProcessLine (Some cbs) l (p, c) = (p', c')"
  shows "J (sp_DropObserved p') c'"
proof -
  have "J (sp_DropObserved (p\<lparr>sp_FirstLine := False\<rparr>)) c" using J by simp
  then show ?thesis by (rule HandleLine_client) (use P in \<open>simp add: ProcessLine_def\<close>)
qed

lemma FeedByte_client:
  assumes J: "J (sp_DropObserved p) c" and F: "FeedByte (Some cbs) b (p, c) = (p', c')"
  shows "J (sp_DropObserved p') c'"
  using F J by (auto simp: FeedByte_def Let_def intro: client_error dest: ProcessLine_client [OF J]
      split: if_splits prod.splits)

lemma Feed_client:
  "J (sp_DropObserved p) c \<Longrightarrow> Feed (Some cbs) bs (p, c) = (p', c') \<Longrightarrow> J (sp_DropObserved p') c'"
proof (induction bs arbitrary: p c)
  case Nil
  then show ?case by simp
next
  case (Cons b bs)
  obtain p1 c1 where 1: "FeedByte (Some cbs) b (p, c) = (p1, c1)" by fastforce
  show ?case
    using Cons.IH [OF FeedByte_client [OF Cons.prems(1) 1]] Cons.prems(2) 1 by simp
qed

end

section \<open>The recorder\<close>

datatype call =
    CallEvent parsed_event bool
  | CallRetry int
  | CallId string
  | CallError string

record recorder =
  rec_log :: "call list"
  rec_reply :: "call list \<Rightarrow> parsed_event \<Rightarrow> bool"

definition record_call :: "recorder \<Rightarrow> call \<Rightarrow> recorder" where
  "record_call r k = r\<lparr>rec_log := rec_log r @ [k]\<rparr>"

definition rec_callbacks :: "recorder parser_callbacks" where
  "rec_callbacks =
     \<lparr>cb_OnEvent = Some (\<lambda>r e. let b = rec_reply r (rec_log r) e
                             in (b, record_call r (CallEvent e b))),
      cb_OnRetry = Some (\<lambda>r n. record_call r (CallRetry n)),
      cb_OnId = Some (\<lambda>r s. record_call r (CallId s)),
      cb_OnError = Some (\<lambda>r s. record_call r (CallError s))\<rparr>"

text \<open>
  The calls a stream makes, in order, when the queue accepts or drops each event as
  \<open>reply\<close> says (it may depend on all earlier calls).
\<close>

definition Transcript ::
  "(call list \<Rightarrow> parsed_event \<Rightarrow> bool) \<Rightarrow> string \<Rightarrow> call list" where
  "Transcript reply bytes =
     rec_log (snd (Feed (Some rec_callbacks) bytes
       (SSEParser_new, \<lparr>rec_log = [], rec_reply = reply\<rparr>)))"

lemma rec_fire [simp]:
  "fire_event (Some rec_callbacks) r e =
     (rec_reply r (rec_log r) e, record_call r (CallEvent e (rec_reply r (rec_log r) e)))"
  "fire_id (Some rec_callbacks) r s = record_call r (CallId s)"
  "fire_retry (Some rec_callbacks) r n = record_call r (CallRetry n)"
  "fire_error (Some rec_callbacks) r s = record_call r (CallError s)"
  by (simp_all add: fire_defs rec_callbacks_def Let_def)

lemma record_call_sel [simp]:
  "rec_log (record_call r k) = rec_log r @ [k]" "rec_reply (record_call r k) = rec_reply r"
  by (simp_all add: record_call_def)

text \<open>A call commits a resume position if the adapters write it to \<open>m_LastEventId\<close>.\<close>

fun commit_of :: "call \<Rightarrow> string option" where
  "commit_of (CallEvent e b) = (if b then pe_LastEventId e else None)"
| "commit_of (CallId s) = Some s"
| "commit_of (CallRetry n) = None"
| "commit_of (CallError s) = None"

fun is_drop :: "call \<Rightarrow> bool" where
  "is_drop (CallEvent e b) = (\<not> b)"
| "is_drop k = False"

text \<open>No commit after the first drop.\<close>

definition no_commit_after_drop :: "call list \<Rightarrow> bool" where
  "no_commit_after_drop ks \<longleftrightarrow>
     list_all (\<lambda>k. commit_of k = None) (dropWhile (\<lambda>k. \<not> is_drop k) ks)"

fun retry_ok :: "call \<Rightarrow> bool" where
  "retry_ok (CallRetry n) = (1000 \<le> n \<and> n \<le> 300000)"
| "retry_ok k = True"

lemma no_commit_after_drop_snoc:
  "no_commit_after_drop (ks @ [k]) \<longleftrightarrow>
     no_commit_after_drop ks \<and> (list_ex is_drop ks \<longrightarrow> commit_of k = None)
     \<and> (is_drop k \<longrightarrow> commit_of k = None)"
proof (cases "list_ex is_drop ks")
  case True
  then obtain x where "x \<in> set ks" "is_drop x" by (auto simp: list_ex_iff)
  with True show ?thesis
    by (cases k) (auto simp: no_commit_after_drop_def dropWhile_append1)
next
  case False
  then have all: "\<forall>x \<in> set ks. \<not> is_drop x" by (auto simp: list_ex_iff)
  then have "no_commit_after_drop ks" by (simp add: no_commit_after_drop_def dropWhile_all)
  moreover from all have
    "no_commit_after_drop (ks @ [k]) \<longleftrightarrow> (is_drop k \<longrightarrow> commit_of k = None)"
    by (simp add: no_commit_after_drop_def dropWhile_append2)
  ultimately show ?thesis using False by blast
qed

definition recorder_ok :: "bool \<Rightarrow> recorder \<Rightarrow> bool" where
  "recorder_ok d r \<longleftrightarrow>
     d = list_ex is_drop (rec_log r) \<and> no_commit_after_drop (rec_log r)
     \<and> list_all retry_ok (rec_log r)"

interpretation rc: parser_client rec_callbacks recorder_ok
  by unfold_locales
    (auto simp: recorder_ok_def no_commit_after_drop_snoc SSE_PARSER_RETRY_MIN_MS_def
      SSE_PARSER_RETRY_MAX_MS_def)

lemma Transcript_ok:
  "\<exists>d. recorder_ok d \<lparr>rec_log = Transcript reply bytes, rec_reply = reply'\<rparr>"
proof -
  let ?r = "\<lparr>rec_log = [], rec_reply = reply\<rparr>"
  obtain p c where F: "Feed (Some rec_callbacks) bytes (SSEParser_new, ?r) = (p, c)" by fastforce
  have "recorder_ok (sp_DropObserved SSEParser_new) ?r"
    by (simp add: recorder_ok_def SSEParser_new_def no_commit_after_drop_def)
  from rc.Feed_client [OF this F] have "recorder_ok (sp_DropObserved p) c" .
  with F show ?thesis by (auto simp: Transcript_def recorder_ok_def)
qed

end
