(* ===== verification/Desktop.thy ===== *)
theory Desktop
  imports ParserClient EventQueue
begin

text \<open>
  What the three desktop transports have in common. Each declares its own struct
  \<open>SSEDesktopConnection\<close>; the members they share are the record \<open>desktop\<close>, which the
  transports extend, and the functions with the same text in all of them are defined on it once:
  the parser's callbacks, the reconnect delay and the interruptible sleep.

  A worker reaches the rest of the extension only through the functions that \<open>sse_private.h\<close>
  declares. They are the record \<open>sse_api\<close>, on an environment of any type: the core's own
  functions instantiate it, and because the environment is arbitrary, other threads may act
  between two calls.
\<close>

section \<open>The interface of the core\<close>

record 'e sse_api =
  api_EnqueueOpen :: "int \<Rightarrow> int \<Rightarrow> 'e \<Rightarrow> 'e"
  api_EnqueueMessage :: "int \<Rightarrow> string option \<Rightarrow> string option \<Rightarrow> string option \<Rightarrow> 'e \<Rightarrow> bool \<times> 'e"
  api_EnqueueError :: "int \<Rightarrow> string option \<Rightarrow> int \<Rightarrow> bool \<Rightarrow> int \<Rightarrow> 'e \<Rightarrow> 'e"
  api_EnqueueClosed :: "int \<Rightarrow> 'e \<Rightarrow> 'e"
  api_SetConnected :: "int \<Rightarrow> bool \<Rightarrow> 'e \<Rightarrow> 'e"
  api_SetLastEventId :: "int \<Rightarrow> string option \<Rightarrow> 'e \<Rightarrow> 'e"

text \<open>The core itself: an environment \<open>None\<close> is one in which undefined behaviour happened.\<close>

definition core_api :: "'w sse option sse_api" where
  "core_api = \<lparr>api_EnqueueOpen = (\<lambda>h st e. Option.bind e (SSE_EnqueueOpen h st)),
     api_EnqueueMessage = (\<lambda>h n d i e. case e of None \<Rightarrow> (False, None)
       | Some s \<Rightarrow> (case SSE_EnqueueMessage h n d i s of (b, t) \<Rightarrow> (b, Some t))),
     api_EnqueueError = (\<lambda>h err st r ms e. map_option (SSE_EnqueueError h err st r ms) e),
     api_EnqueueClosed = (\<lambda>h e. Option.bind e (SSE_EnqueueClosed h)),
     api_SetConnected = (\<lambda>h b e. Option.bind e (SSE_SetConnected h b)),
     api_SetLastEventId = (\<lambda>h v e. Option.bind e (SSE_SetLastEventId h v))\<rparr>"

section \<open>Progress\<close>

text \<open>
  What a worker's loops have reached when their inputs, given as lists, are used up: the code is
  still running, or it has returned. Either way there is the state reached, so that what is
  shown of all results holds at every moment.
\<close>

datatype ('r, 'c) progress = Running (reached: 'c) | Finished (outcome: 'r) (reached: 'c)

section \<open>The connection\<close>

record desktop =
  dk_Handle :: int
  dk_Url :: "string option"
  dk_LastEventId :: "string option"
  dk_Headers :: "SSEHeader list"
  dk_Parser :: sse_parser
  dk_Thread :: bool
  dk_RetryMS :: int
  dk_Status :: int
  dk_Reconnect :: bool
  dk_Stop :: bool
  dk_Opened :: bool

text \<open>\<open>SSEDesktop_SetString\<close>: the new value of the target.\<close>

definition SSEDesktop_SetString :: "string option \<Rightarrow> string option" where
  "SSEDesktop_SetString value = SSE_StrDup (Some (case value of None \<Rightarrow> [] | Some v \<Rightarrow> v))"

definition SSEDesktop_ShouldStop :: "'a desktop_scheme \<Rightarrow> bool" where
  "SSEDesktop_ShouldStop d = dk_Stop d"

section \<open>The parser's callbacks\<close>

definition SSEDesktop_OnParserEvent ::
  "'e sse_api \<Rightarrow> 'a desktop_scheme \<times> 'e \<Rightarrow> parsed_event \<Rightarrow> bool \<times> 'a desktop_scheme \<times> 'e" where
  "SSEDesktop_OnParserEvent api c ev = (case c of (d, e) \<Rightarrow>
     (case api_EnqueueMessage api (dk_Handle d) (Some (pe_Event ev)) (Some (pe_Data ev)) (Some (pe_Id ev)) e of
        (enqueued, e1) \<Rightarrow>
          (enqueued,
           (case pe_LastEventId ev of
              Some i \<Rightarrow> if enqueued
                then (d\<lparr>dk_LastEventId := SSEDesktop_SetString (Some i)\<rparr>,
                      api_SetLastEventId api (dk_Handle d) (Some i) e1)
                else (d, e1)
            | None \<Rightarrow> (d, e1)))))"

definition SSEDesktop_OnParserRetry :: "'a desktop_scheme \<times> 'e \<Rightarrow> int \<Rightarrow> 'a desktop_scheme \<times> 'e" where
  "SSEDesktop_OnParserRetry c retry_ms = (case c of (d, e) \<Rightarrow> (d\<lparr>dk_RetryMS := retry_ms\<rparr>, e))"

definition SSEDesktop_OnParserId ::
  "'e sse_api \<Rightarrow> 'a desktop_scheme \<times> 'e \<Rightarrow> string \<Rightarrow> 'a desktop_scheme \<times> 'e" where
  "SSEDesktop_OnParserId api c i = (case c of (d, e) \<Rightarrow>
     (d\<lparr>dk_LastEventId := SSEDesktop_SetString (Some i)\<rparr>, api_SetLastEventId api (dk_Handle d) (Some i) e))"

definition SSEDesktop_OnParserError ::
  "'e sse_api \<Rightarrow> 'a desktop_scheme \<times> 'e \<Rightarrow> string \<Rightarrow> 'a desktop_scheme \<times> 'e" where
  "SSEDesktop_OnParserError api c message = (case c of (d, e) \<Rightarrow>
     (d, api_EnqueueError api (dk_Handle d) (Some message) 0 (dk_Reconnect d) (dk_RetryMS d) e))"

definition desktop_callbacks :: "'e sse_api \<Rightarrow> ('a desktop_scheme \<times> 'e) parser_callbacks" where
  "desktop_callbacks api = \<lparr>cb_OnEvent = Some (SSEDesktop_OnParserEvent api),
     cb_OnRetry = Some SSEDesktop_OnParserRetry, cb_OnId = Some (SSEDesktop_OnParserId api),
     cb_OnError = Some (SSEDesktop_OnParserError api)\<rparr>"

text \<open>\<open>connection->m_Parser.Feed(bytes, size, &callbacks, connection)\<close>: no callback touches
  the parser member, so it is taken out and put back.\<close>

definition FeedParser :: "'e sse_api \<Rightarrow> string \<Rightarrow> 'a desktop_scheme \<times> 'e \<Rightarrow> 'a desktop_scheme \<times> 'e" where
  "FeedParser api bytes c = (case Feed (Some (desktop_callbacks api)) bytes (dk_Parser (fst c), c) of
     (p, d, e) \<Rightarrow> (d\<lparr>dk_Parser := p\<rparr>, e))"

section \<open>Reconnecting\<close>

definition SSE_DESKTOP_RETRY_MIN_MS :: int where "SSE_DESKTOP_RETRY_MIN_MS = 1000"
definition SSE_DESKTOP_RETRY_MAX_MS :: int where "SSE_DESKTOP_RETRY_MAX_MS = 300000"
definition SSE_DESKTOP_MIN_DELAY_MS :: int where "SSE_DESKTOP_MIN_DELAY_MS = 500"
definition SSE_DESKTOP_MAX_BACKOFF_SHIFT :: nat where "SSE_DESKTOP_MAX_BACKOFF_SHIFT = 8"

text \<open>
  \<open>time\<close> is what \<open>dmTime::GetTime\<close> returns. The intermediate values stay far below 2^63;
  the division truncates as in C, and so does the conversion at the end.
\<close>

definition SSEDesktop_ComputeRetryDelayMS :: "int \<Rightarrow> nat \<Rightarrow> nat \<Rightarrow> int" where
  "SSEDesktop_ComputeRetryDelayMS retry_ms failures time =
     (let base = (if retry_ms < SSE_DESKTOP_RETRY_MIN_MS then SSE_DESKTOP_RETRY_MIN_MS else retry_ms);
          base = (if base > SSE_DESKTOP_RETRY_MAX_MS then SSE_DESKTOP_RETRY_MAX_MS else base);
          shift = (if failures > 1 then failures - 1 else 0);
          shift = (if shift > SSE_DESKTOP_MAX_BACKOFF_SHIFT then SSE_DESKTOP_MAX_BACKOFF_SHIFT else shift);
          delay = base * 2 ^ shift;
          delay = (if delay > SSE_DESKTOP_RETRY_MAX_MS then SSE_DESKTOP_RETRY_MAX_MS else delay);
          jitter = int (time mod 401) - 200;
          delay = delay + (delay * jitter) sdiv 1000;
          delay = (if delay < SSE_DESKTOP_MIN_DELAY_MS then SSE_DESKTOP_MIN_DELAY_MS else delay)
      in to_int32 delay)"

text \<open>
  \<open>SSEDesktop_SleepRetry\<close>: what each look at the stop flag saw, in order; the result is the
  list of sleeps, \<open>None\<close> while it is still sleeping.
\<close>

fun SleepLoop :: "int \<Rightarrow> bool list \<Rightarrow> (int list \<times> bool list) option" where
  "SleepLoop remaining stops =
     (if remaining \<le> 0 then Some ([], stops)
      else case stops of [] \<Rightarrow> None
        | stop # rest \<Rightarrow>
            if stop then Some ([], rest)
            else let step = (if remaining > 100 then 100 else remaining)
              in (case SleepLoop (remaining - step) rest of None \<Rightarrow> None
                  | Some (steps, rest1) \<Rightarrow> Some (step # steps, rest1)))"

declare SleepLoop.simps [simp del]

definition SSEDesktop_SleepRetry :: "int \<Rightarrow> bool list \<Rightarrow> (int list \<times> bool list) option" where
  "SSEDesktop_SleepRetry delay_ms stops = SleepLoop delay_ms stops"

section \<open>The end of a worker\<close>

definition WorkerEnd ::
  "'e sse_api \<Rightarrow> bool \<Rightarrow> 'a desktop_scheme \<times> 'e \<Rightarrow> 'a desktop_scheme \<times> 'e" where
  "WorkerEnd api stop c = (case c of (d, e) \<Rightarrow>
     (d, if stop then e else api_EnqueueClosed api (dk_Handle d) e))"

section \<open>Numbers in texts\<close>

text \<open>A decimal number, as \<open>"%d"\<close> prints it.\<close>

definition digit_char :: "nat \<Rightarrow> char" where
  "digit_char n = char_of (48 + n)"

fun dec_string :: "nat \<Rightarrow> string" where
  "dec_string n = (if n < 10 then [digit_char n] else dec_string (n div 10) @ [digit_char (n mod 10)])"

declare dec_string.simps [simp del]

text \<open>"%d" of an int.\<close>

definition dec_int :: "int \<Rightarrow> string" where
  "dec_int n = (if n < 0 then CHR ''-'' # dec_string (nat (- n)) else dec_string (nat n))"

definition status_error :: "int \<Rightarrow> string" where
  "status_error status = ''SSE request failed with HTTP status '' @ dec_int status"

text \<open>
  \<open>sscanf (line, "HTTP/%*s %d", &status) == 1\<close>: the literal, a word, white space, a
  number. A number beyond \<open>int\<close>, which the C standard leaves open, is converted as the C library
  of the target does: read as a \<open>long\<close>, then truncated.
\<close>

definition sscanf_status :: "string \<Rightarrow> int option" where
  "sscanf_status s =
     (let line = c_str s; t = dropWhile isspace (drop 5 line);
          u = dropWhile isspace (dropWhile (\<lambda>c. \<not> isspace c) t)
      in if take 5 line = ''HTTP/'' \<and> t \<noteq> []
         then (case strtol LONG_MAX u of (n, _, rest) \<Rightarrow> if rest = u then None else Some (to_int32 n))
         else None)"

section \<open>The copy a worker gets of what it needs of its connection\<close>

text \<open>A fresh object, filled in by \<open>SSE_Platform_Connect\<close>.\<close>

definition desktop_copy :: "'a desktop_scheme \<Rightarrow> SSEConnection \<Rightarrow> 'a desktop_scheme" where
  "desktop_copy fresh c = fresh\<lparr>dk_Handle := cn_Handle c, dk_Url := SSE_StrDup (cn_Url c),
     dk_LastEventId := SSE_StrDup (cn_LastEventId c), dk_RetryMS := cn_RetryMS c,
     dk_Reconnect := cn_Reconnect c,
     dk_Headers := map (\<lambda>h. \<lparr>hd_Name = c_str (hd_Name h), hd_Value = c_str (hd_Value h)\<rparr>)
       (cn_Headers c)\<rparr>"

end
