(* ===== verification/DmPlatform.thy ===== *)
theory DmPlatform
  imports NullAdapter Desktop
begin

text \<open>
  The Linux adapter on Defold's connection pool (\<open>sse_connection_pool_impl.h\<close>): its data
  and the entry points that run on the main thread. The worker objects live in a heap of their
  own; \<open>dw_Pool\<close> is whether \<open>g_SSEConnectionPool\<close> exists, \<open>dw_InUse\<close> the pool
  connections that were dialed and not yet closed, \<open>dw_Threads\<close> the objects whose worker
  thread was started and not yet joined. A handle 0 is no connection.
\<close>

section \<open>Data\<close>

text \<open>
  The members its struct adds to those all desktop transports have, and a log of the calls that dial, use and close the
  connection's handle in the pool, by the worker or by the main thread.
\<close>

datatype pool_call = PDial nat | PSocket nat | PSSLSocket nat | PClose nat

record SSEDesktopConnection = desktop +
  dc_Connection :: nat
  dc_Socket :: nat
  dc_SSLSocket :: nat
  dc_CancelFlag :: bool
  dc_Secure :: bool
  dc_Calls :: "pool_call list"

definition SSEDesktopConnection_new :: SSEDesktopConnection where
  "SSEDesktopConnection_new = \<lparr>dk_Handle = 0, dk_Url = None, dk_LastEventId = None,
     dk_Headers = [], dk_Parser = SSEParser_new, dk_Thread = False, dk_RetryMS = 3000,
     dk_Status = 0, dk_Reconnect = False, dk_Stop = False, dk_Opened = False, dc_Connection = 0,
     dc_Socket = 0, dc_SSLSocket = 0, dc_CancelFlag = False, dc_Secure = False, dc_Calls = []\<rparr>"

record dm_world =
  dw_Pool :: bool
  dw_InUse :: "nat list"
  dw_Heap :: "nat \<Rightarrow> SSEDesktopConnection option"
  dw_Next :: nat
  dw_Threads :: "nat set"

definition SSEDM_SetConnection :: "nat \<Rightarrow> SSEDesktopConnection \<Rightarrow> SSEDesktopConnection" where
  "SSEDM_SetConnection h d = d\<lparr>dc_Connection := h\<rparr>"

definition SSEDM_TakeConnection :: "SSEDesktopConnection \<Rightarrow> nat \<times> SSEDesktopConnection" where
  "SSEDM_TakeConnection d =
     (dc_Connection d, d\<lparr>dc_Connection := 0, dc_Socket := 0, dc_SSLSocket := 0\<rparr>)"

definition pool_log :: "pool_call \<Rightarrow> SSEDesktopConnection \<Rightarrow> SSEDesktopConnection" where
  "pool_log k d = d\<lparr>dc_Calls := dc_Calls d @ [k]\<rparr>"

text \<open>The result are the handles given to \<open>dmConnectionPool::Close\<close>, none or one.\<close>

definition SSEDM_CloseActiveConnection :: "bool \<Rightarrow> SSEDesktopConnection \<Rightarrow> nat list \<times> SSEDesktopConnection" where
  "SSEDM_CloseActiveConnection pool d =
     (case SSEDM_TakeConnection d of (h, d1) \<Rightarrow>
        if h \<noteq> 0 \<and> pool then ([h], pool_log (PClose h) d1) else ([], d1))"

text \<open>What a disconnect does before it joins the thread: stop is set, then the connection is closed.\<close>

definition StopAndClose :: "bool \<Rightarrow> SSEDesktopConnection \<Rightarrow> nat list \<times> SSEDesktopConnection" where
  "StopAndClose pool d = SSEDM_CloseActiveConnection pool (d\<lparr>dk_Stop := True, dc_CancelFlag := True\<rparr>)"

section \<open>The entry points\<close>

text \<open>The engine decides whether the pool (\<open>dmConnectionPool::New\<close>) and the thread
  (\<open>dmThread::New\<close>) can be created.\<close>

record dm_engine =
  xe_PoolNew :: bool
  xe_ThreadNew :: "nat \<Rightarrow> bool"

definition DM_Platform_Initialize :: "dm_engine \<Rightarrow> dm_world \<Rightarrow> bool \<times> dm_world" where
  "DM_Platform_Initialize x w =
     (if \<not> dw_Pool w
      then if \<not> xe_PoolNew x then (False, w\<lparr>dw_Pool := False\<rparr>) else (True, w\<lparr>dw_Pool := True\<rparr>)
      else (True, w))"

definition DM_Platform_Finalize :: "dm_world \<Rightarrow> dm_world" where
  "DM_Platform_Finalize w = (if dw_Pool w then w\<lparr>dw_Pool := False, dw_InUse := []\<rparr> else w)"

definition DM_Platform_IsSupported :: "dm_world \<Rightarrow> bool" where
  "DM_Platform_IsSupported w = dw_Pool w"

definition dm_copy :: "SSEConnection \<Rightarrow> SSEDesktopConnection" where
  "dm_copy c = desktop_copy SSEDesktopConnection_new c"

definition DM_Platform_Connect ::
  "dm_engine \<Rightarrow> dm_world \<Rightarrow> SSEConnection \<Rightarrow> dm_world \<times> SSEConnection \<times> string option" where
  "DM_Platform_Connect x w c =
     (if \<not> dw_Pool w then (w, c, Some ''Defold connection pool is not initialized'')
      else let a = dw_Next w; w1 = w\<lparr>dw_Next := Suc a\<rparr>
        in if \<not> xe_ThreadNew x a
           then (w1, c\<lparr>cn_PlatformData := None\<rparr>, Some ''failed to start SSE worker thread'')
           else (w1\<lparr>dw_Heap := (dw_Heap w1)(a \<mapsto> (dm_copy c)\<lparr>dk_Thread := True\<rparr>),
                    dw_Threads := insert a (dw_Threads w1)\<rparr>,
                 c\<lparr>cn_PlatformData := Some a\<rparr>, None))"

text \<open>Stop is set before the socket is closed and the thread joined, and only then is the
  object freed. A pointer to no object does not arise and is left alone.\<close>

definition DM_Platform_Disconnect :: "dm_world \<Rightarrow> SSEConnection \<Rightarrow> dm_world \<times> SSEConnection" where
  "DM_Platform_Disconnect w c =
     (case cn_PlatformData c of None \<Rightarrow> (w, c)
      | Some a \<Rightarrow> (case dw_Heap w a of None \<Rightarrow> (w, c\<lparr>cn_PlatformData := None\<rparr>)
          | Some d \<Rightarrow>
              (case StopAndClose (dw_Pool w) d of (closed, d1) \<Rightarrow>
                 (w\<lparr>dw_InUse := fold remove1 closed (dw_InUse w), dw_Heap := (dw_Heap w)(a := None),
                    dw_Threads := (if dk_Thread d1 then dw_Threads w - {a} else dw_Threads w)\<rparr>,
                  c\<lparr>cn_PlatformData := None\<rparr>))))"

definition DM_Platform_IsConnected :: "dm_world \<Rightarrow> SSEConnection \<Rightarrow> bool" where
  "DM_Platform_IsConnected w c =
     (case Option.bind (cn_PlatformData c) (dw_Heap w) of None \<Rightarrow> False
      | Some d \<Rightarrow> dk_Opened d \<and> \<not> SSEDesktop_ShouldStop d)"

definition dm_adapter :: "dm_engine \<Rightarrow> dm_world adapter" where
  "dm_adapter x = \<lparr>ad_Initialize = DM_Platform_Initialize x, ad_Finalize = DM_Platform_Finalize,
     ad_IsSupported = DM_Platform_IsSupported, ad_Connect = DM_Platform_Connect x,
     ad_Disconnect = DM_Platform_Disconnect, ad_IsConnected = DM_Platform_IsConnected,
     ad_Update = (\<lambda>w. w)\<rparr>"

interpretation dm: platform_adapter "dm_adapter x" for x :: dm_engine
proof unfold_locales
  fix w :: dm_world and c :: SSEConnection
  show "snd (ad_Disconnect (dm_adapter x) w c) = c\<lparr>cn_PlatformData := None\<rparr>"
    by (simp add: dm_adapter_def DM_Platform_Disconnect_def unchanged_platform split_def
        split: option.split)
next
  fix w w' :: dm_world and c c' :: SSEConnection and e
  assume "cn_PlatformData c = None" and "ad_Connect (dm_adapter x) w c = (w', c', e)"
  moreover from this have "c\<lparr>cn_PlatformData := None\<rparr> = c" by (simp add: unchanged_platform)
  ultimately show "\<exists>d. c' = c\<lparr>cn_PlatformData := d\<rparr> \<and> (e \<noteq> None \<longrightarrow> d = None)"
    by (intro exI [of _ "cn_PlatformData c'"])
      (auto simp: dm_adapter_def DM_Platform_Connect_def Let_def split: if_splits)
qed

end
