(* ===== verification/ExtensionMain.thy ===== *)
theory ExtensionMain
  imports ExtensionProps DmPlatform
begin

text \<open>
  The properties of the extension for every environment that obeys the laws, and a concrete
  environment (the Linux adapter, Defold's arrays, a script that disconnects every connection in
  its first callback) in which they are exercised. Handles are 32 bits wide: what rests on a handle naming one
  connection is stated up to the wrap-around of the counter.
\<close>

section \<open>A concrete environment\<close>

definition demo_engine :: dm_engine where
  "demo_engine = \<lparr>xe_PoolNew = True, xe_ThreadNew = (\<lambda>_. True)\<rparr>"

definition demo_script :: "nat \<Rightarrow> event_table \<Rightarrow> dm_world sse \<Rightarrow> dm_world action list" where
  "demo_script k tbl s = [DoDisconnect [LNumber (et_handle tbl) ''h'']]"

definition dm_env :: "(nat \<Rightarrow> event_table \<Rightarrow> dm_world sse \<Rightarrow> dm_world action list) \<Rightarrow> dm_world env" where
  "dm_env script = \<lparr>x_Adapter = dm_adapter demo_engine, x_EraseSwap = erase_swap,
     x_CreateCallback = (\<lambda>_. True), x_SetupCallback = (\<lambda>_. True),
     x_StringToInteger = (\<lambda>_. None), x_IntegerToString = (\<lambda>_. ''h''), x_Script = script\<rparr>"

lemma dm_env_adapter [simp]: "x_Adapter (dm_env script) = dm_adapter demo_engine"
  by (simp add: dm_env_def)

interpretation dmx: sse_env "dm_env script" for script
proof (rule sse_env.intro)
  show "platform_adapter (x_Adapter (dm_env script))" by (simp add: dm.platform_adapter_axioms)
  show "sse_env_axioms (dm_env script)"
    by (rule sse_env_axioms.intro) (simp add: dm_env_def mset_erase_swap)
qed

section \<open>Safety of every run\<close>

text \<open>
  C4. Memory safety and leak freedom: whatever the script calls (also from inside its callbacks,
  also disconnecting the connection being dispatched) and whatever the other threads enqueue, no
  operation follows a pointer to a deleted connection, every live connection object is
  registered exactly once, and the outstanding Lua callback references are exactly those of the live
  connections.
\<close>
theorem extension_safe:
  assumes "sse_env env"
  shows "\<exists>t. run env ms (started env valid w) = Some t \<and> sse_ok {} t
     \<and> distinct (g_Connections t) \<and> set (g_Connections t) = dom (g_Heap t)
     \<and> distinct (g_Callbacks t)
     \<and> set (g_Callbacks t) = {k. \<exists>a c. g_Heap t a = Some c \<and> cn_Callback c = Some k}"
proof -
  obtain t where t: "run env ms (started env valid w) = Some t" "idle t"
    using sse_env.run_ok [OF assms started_idle] by blast
  then have s: "sse_ok {} t" by (simp add: idle_def)
  then have st: "struct_ok t" by (simp add: sse_ok_def)
  note d = struct_okD [OF st]
  have "set (g_Callbacks t) = {k. \<exists>a c. g_Heap t a = Some c \<and> cn_Callback c = Some k}"
    using d(5,9) by fastforce
  with t(1) s d(1,2,7) show ?thesis by blast
qed


text \<open>A call of \<open>sse.disconnect\<close> closes the handle for good.\<close>

lemma find_unique:
  assumes "struct_ok s" and "g_Heap s a = Some c" and "no_wrap s"
  shows "SSE_FindConnection (cn_Handle c) s = Some (Some a)"
proof (cases rule: FindConnection_ok [OF assms(1), of "cn_Handle c"])
  case 1: (1 b d)
  then have "b = a" using struct_okD(6) [OF assms(1), of b d a c] assms(2,3) by simp
  with 1 show ?thesis by simp
next
  case 2
  with assms(2) show ?thesis by blast
qed

context sse_env
begin

lemma Disconnect_closes:
  assumes w: "sse_ok D s" and nt: "no_wrap t" and n: "Option.bind (lua_arg args 1) (lua_number_of env) = Some n"
    and D: "SSE_Disconnect env args s = Some (r, t)"
    and c: "g_Heap t a = Some c" "cn_Handle c = to_int32 n"
  shows "cn_UserClosed c"
proof -
  have st: "struct_ok s" using w by (simp add: sse_ok_def)
  have nw: "no_wrap s" using quiet_Disconnect [OF D] nt by (simp add: quiet_def no_wrap_def)
  show ?thesis
  proof (cases rule: FindConnection_ok [OF st, of "to_int32 n"])
    case 1: (1 b d)
    show ?thesis
    proof (cases "cn_UserClosed d")
      case True
      then have "t = s" using D n 1 by (simp add: SSE_Disconnect_def deref_def)
      with c 1 True nw struct_okD(6) [OF st, of a c b d] show ?thesis by auto
    next
      case False
      let ?s1 = "s\<lparr>g_Heap := (g_Heap s)(b \<mapsto> d\<lparr>cn_UserClosed := True, cn_Connected := False\<rparr>)\<rparr>"
      have only: "a = b" if "g_Heap s a = Some e" "cn_Handle e = to_int32 n" for a e
        using struct_okD(6) [OF st, of a e b d] 1 nw that by simp
      have "quiet ?s1 t"
      proof -
        have m: "modify b (\<lambda>c. c\<lparr>cn_UserClosed := True, cn_Connected := False\<rparr>) s = Some ?s1"
          using 1 by (simp add: modify_at)
        show ?thesis
          using D n 1 False
          by (auto simp: m SSE_Disconnect_def deref_def bind_eq_Some_conv keeps_closed_def
              split: if_splits dest!: quiet_modify quiet_platform_disconnect quiet_destroy)
            (meson quiet_trans)+
      qed
      moreover have "closed (to_int32 n) ?s1"
      proof -
        have "cn_UserClosed e" if "g_Heap ?s1 x = Some e" "cn_Handle e = to_int32 n" for x e
          using that only [of x e] by (cases "x = b") auto
        moreover have "to_int32 n \<le> int (g_Issued s)"
          using struct_okD(4) [OF st nw 1(2)] struct_okD(10) [OF st nw] 1(3) by simp
        ultimately show ?thesis by (simp add: closed_def)
      qed
      ultimately have "closed (to_int32 n) t" using nt by (simp add: quiet_def)
      with c show ?thesis by (simp add: closed_def)
    qed
  next
    case 2
    then have "t = s" using D n by (simp add: SSE_Disconnect_def)
    with c 2 show ?thesis by blast
  qed
qed

end

text \<open>
  C9. A closed connection is silent: once \<open>sse.disconnect\<close> was called with a handle that had been
  given out, no event with this handle is delivered any more, in any continuation in which fewer
  than \<open>2\<^sup>3\<^sup>1 - 1\<close> handles have been given out in all, though
  events of it may still be queued or be enqueued later by its worker. (After that the 32-bit counter starts
  again, and the handle may name a new connection.)
\<close>
theorem closed_connection_is_silent:
  assumes "sse_env env" and "run env ms (started env valid w) = Some s"
    and "Option.bind (lua_arg args 1) (lua_number_of env) = Some n"
    and "to_int32 n < g_NextHandle s"
    and "SSE_Disconnect env args s = Some (r, s1)" and "run env ms' s1 = Some t"
    and "g_Issued t < 2147483647"
  shows "\<exists>x. g_Delivered t = g_Delivered s @ x \<and> (\<forall>d \<in> set x. et_handle (snd d) \<noteq> to_int32 n)"
proof -
  have "idle s"
    using sse_env.run_ok [OF assms(1) started_idle, of ms env valid w] assms(2) by auto
  then have w: "sse_ok {} s" by (simp add: idle_def)
  have q: "quiet s s1" by (rule sse_env.quiet_Disconnect [OF assms(1,5)])
  have "sse_ok {} s1" using sse_env.Disconnect_wf [OF assms(1) w, of args] assms(5) by auto
  with \<open>idle s\<close> q have i1: "idle s1" by (simp add: idle_def quiet_def)
  from sse_env.run_ok [OF assms(1) i1, of ms'] assms(6) obtain x where
    x: "g_Delivered t = g_Delivered s1 @ x" "g_Issued s1 \<le> g_Issued t"
    "no_wrap t \<longrightarrow> (\<forall>h. closed h s1 \<longrightarrow> closed h t \<and> silent h x)" by auto
  have "g_Issued s \<le> g_Issued s1" using q by (simp add: quiet_def)
  with x(2) assms(7) have nw: "no_wrap s" and n1: "no_wrap s1" and nt: "no_wrap t"
    by (simp_all add: no_wrap_def)
  have "struct_ok s" using w by (simp add: sse_ok_def)
  from struct_okD(10) [OF this nw] have "to_int32 n \<le> int (g_Issued s)" using assms(4) by simp
  then have "closed (to_int32 n) s1"
    unfolding closed_def using sse_env.Disconnect_closes [OF assms(1) w n1 assms(3,5)] q
    by (auto simp: quiet_def)
  with x(1,3) nt q show ?thesis by (auto simp: quiet_def silent_def)
qed

text \<open>
  C18. \<open>sse.connect\<close> is all or nothing: it raises a Lua error and changes nothing, or it
  returns \<open>nil\<close> and a message and leaves no object, no registration and no callback
  reference behind, or it returns a fresh handle and has registered exactly one new open connection.
\<close>
theorem connect_all_or_nothing:
  assumes "sse_env env" and "sse_ok D s"
  shows "\<exists>r t. SSE_Connect env args s = Some (r, t) \<and> sse_ok D t \<and> connect_outcome s r t"
  using sse_env.Connect_ok [OF assms] .

text \<open>
  Disconnecting is idempotent until the handles wrap around: a second \<open>sse.disconnect\<close> with the same
  argument succeeds and changes nothing, whether the connection is gone or waits for the end of its own callback.
\<close>
theorem disconnect_twice:
  assumes "sse_env env" and "sse_ok D s" and "SSE_Disconnect env args s = Some (LuaReturn vs, t)"
    and "g_Issued t < 2147483647"
  shows "SSE_Disconnect env args t = Some (LuaReturn [], t)"
proof -
  obtain n where n: "Option.bind (lua_arg args 1) (lua_number_of env) = Some n"
    using assms(3) by (auto simp: SSE_Disconnect_def split: option.splits)
  obtain r' t' where "SSE_Disconnect env args s = Some (r', t')" "sse_ok D t'"
    using sse_env.Disconnect_wf [OF assms(1,2), of args] by blast
  with assms(3) have st: "struct_ok t" by (simp add: sse_ok_def)
  have "no_wrap t" using assms(4) by (simp add: no_wrap_def)
  note closes = sse_env.Disconnect_closes [OF assms(1,2) this n assms(3)]
  show ?thesis
  proof (cases rule: FindConnection_ok [OF st, of "to_int32 n"])
    case 1: (1 a c)
    with closes have "cn_UserClosed c" by blast
    with 1 n show ?thesis by (simp add: SSE_Disconnect_def deref_def)
  next
    case 2
    with n show ?thesis by (simp add: SSE_Disconnect_def)
  qed
qed

text \<open>
  Order of a flush: an update terminates, and what it delivers is a subsequence, in order, of the
  tables of the events that were queued when it began, followed by one overflow error for each
  handle that lost events. So nothing is delivered twice, reordered or invented, and what a callback
  enqueues waits for the next update.
\<close>
theorem flush_in_order:
  assumes "sse_env env" and "idle s"
  shows "\<exists>t x. UpdateSSE env s = Some t \<and> idle t \<and> g_Delivered t = g_Delivered s @ x
     \<and> subseq (map snd x) (map SSE_PushEventTable (g_Events s)
          @ map (SSE_PushEventTable \<circ> overflow_event) (g_OverflowHandles s))"
proof -
  from sse_env.FlushQueue_ok [OF assms] obtain t x where t: "SSE_FlushQueue env s = Some t" "idle t"
    "g_Delivered t = g_Delivered s @ x" "subseq (map snd x) (flush_tables s)" by blast
  then show ?thesis
    by (intro exI [of _ "t\<lparr>g_Platform := ad_Update (x_Adapter env) (g_Platform t)\<rparr>"] exI [of _ x])
      (simp add: UpdateSSE_def idle_platform flush_tables_def)
qed

text \<open>
  Routing: dispatching an event delivers at most its own table, once, and only to the callback
  of an open connection with the event's handle whose script is alive.
\<close>
theorem dispatch_routes:
  assumes "sse_env env" and "sse_ok {} s"
  shows "\<exists>t x. SSE_DispatchEvent env ev s = Some t \<and> sse_ok {} t
     \<and> g_Delivered t = g_Delivered s @ x \<and> routed s ev x"
  using sse_env.DispatchEvent_wf [OF assms, of ev] sse_env.DispatchEvent_said [OF assms, of ev] said_sel(1)
  by blast

section \<open>Nothing is lost\<close>

text \<open>A script that only looks on: it neither opens nor closes connections.\<close>

fun looks_on :: "'w action \<Rightarrow> bool" where
  "looks_on (DoConnect args) = False"
| "looks_on (DoDisconnect args) = False"
| "looks_on (ScriptsChange v) = False"
| "looks_on x = True"

text \<open>What dispatching asks of a connection.\<close>

definition face :: "SSEConnection \<Rightarrow> int \<times> nat option \<times> bool \<times> bool" where
  "face c = (cn_Handle c, cn_Callback c, cn_UserClosed c, cn_DestroyAfterDispatch c)"

definition same_faces :: "'w sse \<Rightarrow> 'w sse \<Rightarrow> bool" where
  "same_faces s t \<longleftrightarrow> (\<forall>a. map_option face (g_Heap t a) = map_option face (g_Heap s a))
     \<and> g_Connections t = g_Connections s \<and> g_CallbackValid t = g_CallbackValid s
     \<and> g_Issued t = g_Issued s"

lemma same_faces_refl [simp]: "same_faces s s"
  by (simp add: same_faces_def)

lemma same_faces_trans: "same_faces s t \<Longrightarrow> same_faces t u \<Longrightarrow> same_faces s u"
  by (simp add: same_faces_def)

lemma same_faces_sym: "same_faces s t \<Longrightarrow> same_faces t s"
  by (simp add: same_faces_def)

lemma same_faces_heap:
  "g_Heap s a = Some c \<Longrightarrow> face c' = face c \<Longrightarrow> same_faces s (s\<lparr>g_Heap := (g_Heap s)(a \<mapsto> c')\<rparr>)"
  by (simp add: same_faces_def)

lemma same_faces_modify:
  assumes "modify a f s = Some t" and "\<And>c. face (f c) = face c"
  shows "same_faces s t"
proof -
  from assms(1) obtain c where "g_Heap s a = Some c" "t = s\<lparr>g_Heap := (g_Heap s)(a \<mapsto> f c)\<rparr>"
    by (auto simp: modify_def deref_def bind_eq_Some_conv)
  with same_faces_heap assms(2) show ?thesis by blast
qed

lemma same_faces_push: "same_faces s (snd (SSE_QueuePush ev s))"
  by (simp add: same_faces_def)

lemma same_faces_fields [simp]:
  "same_faces s (s\<lparr>g_Debug := b\<rparr>)" "same_faces s (s\<lparr>g_Platform := w\<rparr>)"
  "same_faces s (s\<lparr>g_Delivered := l\<rparr>)"
  by (simp_all add: same_faces_def)

lemma same_faces_SetConnected: "SSE_SetConnected i b s = Some t \<Longrightarrow> same_faces s t"
  by (auto simp: SSE_SetConnected_def bind_eq_Some_conv face_def
      intro: same_faces_modify split: if_splits option.splits)

lemma same_faces_SetLastEventId: "SSE_SetLastEventId i v s = Some t \<Longrightarrow> same_faces s t"
  by (auto simp: SSE_SetLastEventId_def bind_eq_Some_conv face_def
      intro: same_faces_modify split: if_splits option.splits)

lemma same_faces_RunAction: "looks_on x \<Longrightarrow> RunAction env x s = Some t \<Longrightarrow> same_faces s t"
  by (cases x) (auto simp: SSE_SetDebug_def SSE_EnqueueOpen_def SSE_EnqueueClosed_def
      SSE_EnqueueMessage_def SSE_EnqueueError_def bind_eq_Some_conv same_faces_push
      intro: same_faces_SetConnected same_faces_SetLastEventId
        same_faces_trans [OF same_faces_SetConnected same_faces_push])

lemma same_faces_RunActions:
  "list_all looks_on xs \<Longrightarrow> RunActions env xs s = Some t \<Longrightarrow> same_faces s t"
  by (induction xs arbitrary: s)
    (auto simp: bind_eq_Some_conv dest: same_faces_RunAction intro: same_faces_trans)

lemma same_facesD:
  "same_faces s t \<Longrightarrow> g_Heap s a = Some c \<Longrightarrow> \<exists>d. g_Heap t a = Some d \<and> face d = face c"
proof -
  assume "same_faces s t" "g_Heap s a = Some c"
  then have "map_option face (g_Heap t a) = Some (face c)" by (simp add: same_faces_def)
  then show ?thesis by auto
qed

text \<open>An event that finds its connection open and its script alive.\<close>

definition deliverable :: "'w env \<Rightarrow> 'w sse \<Rightarrow> SSEEvent \<Rightarrow> bool" where
  "deliverable env s ev \<longleftrightarrow> (\<exists>a c k. g_Heap s a = Some c \<and> cn_Handle c = ev_Handle ev
     \<and> \<not> cn_UserClosed c \<and> cn_Callback c = Some k \<and> g_CallbackValid s k \<and> x_SetupCallback env k)"

lemma deliverable_same: "same_faces s t \<Longrightarrow> deliverable env s ev \<Longrightarrow> deliverable env t ev"
proof -
  assume f: "same_faces s t" and "deliverable env s ev"
  then obtain a c k where c: "g_Heap s a = Some c" "cn_Handle c = ev_Handle ev" "\<not> cn_UserClosed c"
    "cn_Callback c = Some k" "g_CallbackValid s k" "x_SetupCallback env k"
    by (auto simp: deliverable_def)
  from same_facesD [OF f c(1)] obtain d where "g_Heap t a = Some d" "face d = face c" by blast
  with c f show ?thesis by (auto simp: deliverable_def face_def same_faces_def)
qed

text \<open>What a flush without side effects of the script leaves as it is: who can be reached.\<close>

definition same_view :: "'w env \<Rightarrow> 'w sse \<Rightarrow> 'w sse \<Rightarrow> bool" where
  "same_view env s t \<longleftrightarrow> g_Issued t = g_Issued s \<and> deliverable env t = deliverable env s"

lemma same_view_faces: "same_faces s t \<Longrightarrow> same_view env s t"
  using deliverable_same [of s t env] deliverable_same [OF same_faces_sym, of s t env]
  by (auto simp: same_view_def same_faces_def fun_eq_iff)

lemma same_view_trans: "same_view env s t \<Longrightarrow> same_view env t u \<Longrightarrow> same_view env s u"
  by (simp add: same_view_def)

lemma same_view_no_wrap: "same_view env s t \<Longrightarrow> no_wrap t = no_wrap s"
  by (simp add: same_view_def no_wrap_def)

text \<open>Without the wrap-around, an event reaches the connection the lookup finds, or none.\<close>

lemma deliverable_found:
  assumes "struct_ok s" and "no_wrap s" and "g_Heap s a = Some c" and "cn_Handle c = ev_Handle ev"
    and "cn_Callback c = Some k"
  shows "deliverable env s ev \<longleftrightarrow> \<not> cn_UserClosed c \<and> g_CallbackValid s k \<and> x_SetupCallback env k"
proof
  assume "deliverable env s ev"
  then obtain b d j where d: "g_Heap s b = Some d" "cn_Handle d = ev_Handle ev" "\<not> cn_UserClosed d"
    "cn_Callback d = Some j" "g_CallbackValid s j" "x_SetupCallback env j" by (auto simp: deliverable_def)
  then have "b = a" using struct_okD(6) [OF assms(1), of b d a c] assms(2-4) by simp
  with d assms(3,5) show "\<not> cn_UserClosed c \<and> g_CallbackValid s k \<and> x_SetupCallback env k" by simp
qed (use assms in \<open>auto simp: deliverable_def\<close>)

text \<open>A connection whose script is gone reached nobody; removing it changes nothing for the others.\<close>

lemma same_view_removed:
  assumes "g_Heap s a = Some c" and "cn_Callback c = Some k" and "\<not> g_CallbackValid s k"
    and "g_Issued t = g_Issued s" and "g_CallbackValid t = g_CallbackValid s" and "g_Heap t = (g_Heap s)(a := None)"
  shows "same_view env s t"
proof -
  have "g_Heap t b = Some d \<and> cn_Callback d = Some j \<and> g_CallbackValid t j
      \<longleftrightarrow> g_Heap s b = Some d \<and> cn_Callback d = Some j \<and> g_CallbackValid s j" for b d j
    using assms by auto
  then have "deliverable env t e = deliverable env s e" for e unfolding deliverable_def by blast
  with assms(4) show ?thesis by (auto simp: same_view_def)
qed

definition delivers :: "'w env \<Rightarrow> 'w sse \<Rightarrow> SSEEvent list \<Rightarrow> 'w sse \<Rightarrow> bool" where
  "delivers env s evs t \<longleftrightarrow> same_view env s t \<and> (\<exists>x. g_Delivered t = g_Delivered s @ x
     \<and> map snd x = map SSE_PushEventTable (filter (deliverable env s) evs))"

lemma delivers_nothing:
  "same_view env s t \<Longrightarrow> g_Delivered t = g_Delivered s \<Longrightarrow> \<not> deliverable env s ev \<Longrightarrow> delivers env s [ev] t"
  by (simp add: delivers_def)

lemma delivers_append:
  assumes "delivers env s xs t" and "delivers env t ys u"
  shows "delivers env s (xs @ ys) u"
proof -
  from assms obtain x y where x: "g_Delivered t = g_Delivered s @ x"
      "map snd x = map SSE_PushEventTable (filter (deliverable env s) xs)"
    and y: "g_Delivered u = g_Delivered t @ y"
      "map snd y = map SSE_PushEventTable (filter (deliverable env t) ys)" by (auto simp: delivers_def)
  have "deliverable env t = deliverable env s" using assms(1) by (simp add: delivers_def same_view_def)
  with x y have "\<exists>z. g_Delivered u = g_Delivered s @ z
      \<and> map snd z = map SSE_PushEventTable (filter (deliverable env s) (xs @ ys))"
    by (intro exI [of _ "x @ y"]) simp
  with assms same_view_trans show ?thesis by (auto simp: delivers_def)
qed

lemma delivers_frame:
  assumes "delivers env s evs t" and "same_faces s' s" and "same_faces t t'"
    and "g_Delivered s = g_Delivered s'" and "g_Delivered t' = g_Delivered t"
  shows "delivers env s' evs t'"
proof -
  have v: "same_view env s' s" "same_view env t t'" using assms(2,3) by (simp_all add: same_view_faces)
  then have "same_view env s' t'" using assms(1) same_view_trans unfolding delivers_def by meson
  moreover have "deliverable env s = deliverable env s'" using v(1) by (simp add: same_view_def)
  ultimately show ?thesis using assms(1,4,5) by (simp add: delivers_def)
qed

context sse_env
begin

text \<open>Dispatching to an open connection whose script is alive calls the callback if the engine can set it up.\<close>

lemma DispatchEvent_calls:
  assumes w: "sse_ok {} s" and f: "SSE_FindConnection (ev_Handle ev) s = Some (Some x)"
    and a: "g_Heap s x = Some c" and k: "cn_Callback c = Some k"
    and open_conn: "\<not> cn_UserClosed c" "g_CallbackValid s k"
    and script: "\<And>k tbl u. list_all looks_on (x_Script env k tbl u)"
  shows "\<exists>t. SSE_DispatchEvent env ev s = Some t \<and> same_faces s t
    \<and> g_Delivered t = g_Delivered s @ (if x_SetupCallback env k then [(k, SSE_PushEventTable ev)] else [])"
proof -
  let ?u = "s\<lparr>g_Heap := (g_Heap s)(x \<mapsto> c\<lparr>cn_Dispatching := True\<rparr>)\<rparr>"
  let ?tbl = "SSE_PushEventTable ev"
  have wu: "sse_ok {x} ?u" by (rule wf_enter [OF w a open_conn(1)])
  have fu: "same_faces s ?u" by (rule same_faces_heap [OF a]) (simp add: face_def)
  obtain s2 where s2: "(if x_SetupCallback env k then call_lua env k ?tbl ?u else Some ?u) = Some s2"
    "same_faces s s2" "g_Delivered s2 = g_Delivered s @ (if x_SetupCallback env k then [(k, ?tbl)] else [])"
  proof (cases "x_SetupCallback env k")
    case True
    let ?v = "?u\<lparr>g_Delivered := g_Delivered s @ [(k, ?tbl)]\<rparr>"
    have wv: "sse_ok {x} ?v" using wu by (rule wf_delivered)
    obtain s2 where r: "RunActions env (x_Script env k ?tbl ?v) ?v = Some s2"
      using RunActions_wf [OF wv] by blast
    have "same_faces s ?v" using fu by (rule same_faces_trans) simp
    then have "same_faces s s2" using same_faces_RunActions [OF script r] by (rule same_faces_trans)
    moreover have "quiet ?v s2" by (rule quiet_RunActions [OF wv r])
    ultimately show thesis using r True by (intro that [of s2]) (simp_all add: call_lua_def Let_def quiet_def)
  next
    case False
    with fu show thesis by (intro that [of ?u]) simp_all
  qed
  from same_facesD [OF s2(2) a] obtain c2 where c2: "g_Heap s2 x = Some c2" "face c2 = face c" by blast
  have "conn_flags False c" using w a by (auto simp: sse_ok_def flags_ok_def)
  then have nd: "\<not> cn_DestroyAfterDispatch c2" using open_conn(1) c2(2) by (simp add: conn_flags_def face_def)
  let ?t = "s2\<lparr>g_Heap := (g_Heap s2)(x \<mapsto> c2\<lparr>cn_Dispatching := False\<rparr>)\<rparr>"
  have "SSE_DispatchEvent env ev s = Some ?t"
    using f a k open_conn nd s2(1) c2(1) by (simp add: SSE_DispatchEvent_def deref_def modify_at)
  moreover have "same_faces s2 ?t" by (rule same_faces_heap [OF c2(1)]) (simp add: face_def)
  with s2(2) have "same_faces s ?t" by (rule same_faces_trans)
  ultimately show ?thesis using s2(3) by (intro exI [of _ ?t]) simp
qed

lemma DispatchEvent_delivers:
  assumes w: "sse_ok {} s" and nw: "no_wrap s"
    and script: "\<And>k tbl u. list_all looks_on (x_Script env k tbl u)"
  shows "\<exists>t. SSE_DispatchEvent env ev s = Some t \<and> delivers env s [ev] t"
proof -
  have st: "struct_ok s" using w by (simp add: sse_ok_def)
  note red = SSE_DispatchEvent_def deref_def
  show ?thesis
  proof (cases rule: FindConnection_ok [OF st, of "ev_Handle ev"])
    case 1: (1 a c)
    then obtain k where k: "cn_Callback c = Some k" using struct_ok_callback [OF st] by blast
    note reach = deliverable_found [OF st nw 1(2,3) k, of env]
    consider (closed) "cn_UserClosed c" | (invalid) "\<not> cn_UserClosed c" "\<not> g_CallbackValid s k"
      | (ok) "\<not> cn_UserClosed c" "g_CallbackValid s k" by blast
    then show ?thesis
    proof cases
      case closed
      with 1 k reach show ?thesis by (simp add: red delivers_nothing same_view_def)
    next
      case invalid
      let ?u = "s\<lparr>g_Heap := (g_Heap s)(a \<mapsto> c\<lparr>cn_UserClosed := True\<rparr>)\<rparr>"
      have a: "a \<in> set (g_Connections ?u)" using struct_okD(2) [OF st] 1(2) by auto
      from Destroy_eq [OF a, of "c\<lparr>cn_UserClosed := True\<rparr>" k True] k obtain cs p where
        D: "SSE_DestroyConnection env a True ?u = Some (removed a k cs p ?u)" by auto
      have "same_view env s (removed a k cs p ?u)"
        by (rule same_view_removed [OF 1(2) k invalid(2)]) (simp_all add: removed_def)
      moreover have "g_Delivered (removed a k cs p ?u) = g_Delivered s" by (simp add: removed_def)
      ultimately have "delivers env s [ev] (removed a k cs p ?u)"
        using reach invalid by (simp add: delivers_nothing)
      with D 1 invalid k show ?thesis by (simp add: red modify_at)
    next
      case ok
      from DispatchEvent_calls [OF w 1(1,2) k ok script] obtain t where t: "SSE_DispatchEvent env ev s = Some t"
        "same_faces s t" "g_Delivered t = g_Delivered s @ (if x_SetupCallback env k then [(k, SSE_PushEventTable ev)] else [])"
        by blast
      have "delivers env s [ev] t"
        using same_view_faces [OF t(2)] t(3) reach ok by (simp add: delivers_def)
      with t(1) show ?thesis by blast
    qed
  next
    case 2
    then have "\<not> deliverable env s ev" by (auto simp: deliverable_def)
    with 2 show ?thesis by (simp add: red delivers_nothing same_view_def)
  qed
qed

lemma dispatch_all_delivers:
  assumes "\<And>k tbl u. list_all looks_on (x_Script env k tbl u)"
  shows "sse_ok {} s \<Longrightarrow> no_wrap s \<Longrightarrow> \<exists>t. dispatch_all env evs s = Some t \<and> delivers env s evs t"
proof (induction evs arbitrary: s)
  case Nil
  then show ?case by (simp add: delivers_def same_view_def)
next
  case (Cons e es)
  from DispatchEvent_delivers [OF Cons.prems assms, of e] obtain u where
    u: "SSE_DispatchEvent env e s = Some u" "delivers env s [e] u" by blast
  have "sse_ok {} u" using DispatchEvent_wf [OF Cons.prems(1), of e] u(1) by auto
  moreover have "no_wrap u" using u(2) Cons.prems(2) same_view_no_wrap by (auto simp: delivers_def)
  ultimately obtain t where t: "dispatch_all env es u = Some t" "delivers env u es t" using Cons.IH by blast
  with delivers_append [OF u(2) t(2)] u(1) show ?case by simp
qed

lemma FlushQueue_delivers:
  assumes script: "\<And>k tbl u. list_all looks_on (x_Script env k tbl u)" and i: "idle s" and nw: "no_wrap s"
  shows "\<exists>t. SSE_FlushQueue env s = Some t
      \<and> delivers env s (g_Events s @ map overflow_event (g_OverflowHandles s)) t"
proof -
  let ?s1 = "s\<lparr>g_Events := [], g_EventsSwap := g_Events s, g_OverflowHandles := [],
    g_OverflowSwap := g_OverflowHandles s\<rparr>"
  let ?os = "map overflow_event (g_OverflowHandles s)"
  have w1: "sse_ok {} ?s1" "no_wrap ?s1" using i nw wf_swapped by (auto simp: idle_def no_wrap_def)
  from dispatch_all_delivers [OF script w1] obtain s2 where
    s2: "dispatch_all env (g_Events s) ?s1 = Some s2" "delivers env ?s1 (g_Events s) s2" by blast
  let ?s2 = "s2\<lparr>g_EventsSwap := []\<rparr>"
  have d2: "delivers env s (g_Events s) ?s2"
    by (rule delivers_frame [OF s2(2)]) (simp_all add: same_faces_def)
  have "sse_ok {} s2" using dispatch_all_wf [OF w1(1), of "g_Events s"] s2(1) by auto
  then have w2: "sse_ok {} ?s2" by (rule wf_swaps)
  have n2: "no_wrap ?s2" using d2 nw same_view_no_wrap by (auto simp: delivers_def)
  from dispatch_all_delivers [OF script w2 n2] obtain s3 where
    s3: "dispatch_all env ?os ?s2 = Some s3" "delivers env ?s2 ?os s3" by blast
  have "delivers env ?s2 ?os (s3\<lparr>g_OverflowSwap := []\<rparr>)"
    by (rule delivers_frame [OF s3(2)]) (simp_all add: same_faces_def)
  moreover have "SSE_FlushQueue env s = Some (s3\<lparr>g_OverflowSwap := []\<rparr>)"
    using i s2(1) s3(1) by (simp add: SSE_FlushQueue_def idle_def Let_def overflow_is_dispatch)
  ultimately show ?thesis using delivers_append [OF d2] by blast
qed

lemma UpdateSSE_delivers:
  assumes "\<And>k tbl u. list_all looks_on (x_Script env k tbl u)" and "idle s" and "no_wrap s"
  shows "\<exists>t x. UpdateSSE env s = Some t \<and> g_Delivered t = g_Delivered s @ x
     \<and> map snd x = map SSE_PushEventTable
         (filter (deliverable env s) (g_Events s @ map overflow_event (g_OverflowHandles s)))"
  using FlushQueue_delivers [OF assms] by (fastforce simp: UpdateSSE_def delivers_def)

end

text \<open>
  C17. Completeness of a flush: when the callbacks neither open nor close connections and the handles have
  not wrapped around, an update delivers the queued events and then one overflow notice for each handle
  that lost events, each exactly once and in order, leaving out exactly those whose connection is closed or gone or
  whose script is gone; what is left out does not keep the rest from being delivered.
\<close>
theorem flush_delivers_all:
  assumes "sse_env env" and "idle s" and "\<And>k tbl u. list_all looks_on (x_Script env k tbl u)"
    and "g_Issued s < 2147483647"
  shows "\<exists>t x. UpdateSSE env s = Some t \<and> g_Delivered t = g_Delivered s @ x
     \<and> map snd x = map SSE_PushEventTable
         (filter (deliverable env s) (g_Events s @ map overflow_event (g_OverflowHandles s)))"
  using sse_env.UpdateSSE_delivers [OF assms(1,3,2)] assms(4) by (simp add: no_wrap_def)

end
