(* ===== verification/ParserPair.thy ===== *)
theory ParserPair
  imports ParserClient
begin

text \<open>
  Two users of the same parser. When their callbacks answer alike and keep a relation between
  their contexts, feeding both the same bytes keeps the parsers equal and the contexts related.
  With the recorder as one of the two, this says what a stream does to any other user.
\<close>

locale parser_pair =
  fixes k1 :: "'c parser_callbacks" and k2 :: "'d parser_callbacks"
    and R :: "'c \<Rightarrow> 'd \<Rightarrow> bool"
  assumes pair_event:
    "R c d \<Longrightarrow> fire_event (Some k1) c e = (b, c') \<Longrightarrow> fire_event (Some k2) d e = (b', d')
       \<Longrightarrow> b = b' \<and> R c' d'"
    and pair_id: "R c d \<Longrightarrow> R (fire_id (Some k1) c s) (fire_id (Some k2) d s)"
    and pair_retry: "R c d \<Longrightarrow> R (fire_retry (Some k1) c n) (fire_retry (Some k2) d n)"
    and pair_error: "R c d \<Longrightarrow> R (fire_error (Some k1) c s) (fire_error (Some k2) d s)"
begin

lemma Dispatch_pair:
  assumes "R c d" and "Dispatch (Some k1) (p, c) = (p1, c1)" and "Dispatch (Some k2) (p, d) = (p2, d1)"
  shows "p1 = p2 \<and> R c1 d1"
proof -
  consider (poisoned) "sp_EventPoisoned p"
    | (empty) "\<not> sp_EventPoisoned p" "sp_Data p = []"
    | (event) "\<not> sp_EventPoisoned p" "sp_Data p \<noteq> []" by blast
  then show ?thesis
  proof cases
    case event
    define data where "data = (if last (sp_Data p) = LF then butlast (sp_Data p) else sp_Data p)"
    define e where "e = BuildEvent (p\<lparr>sp_Data := data\<rparr>) data"
    obtain b c' b' d' where f: "fire_event (Some k1) c e = (b, c')" "fire_event (Some k2) d e = (b', d')"
      by fastforce
    from pair_event [OF assms(1) f] event assms(2,3) f show ?thesis
      by (simp add: Dispatch_def Let_def data_def [symmetric] e_def [symmetric])
  qed (use assms pair_id in \<open>auto simp: Dispatch_def\<close>)
qed

lemma ProcessField_pair:
  assumes "R c d" and "ProcessField (Some k1) f v (p, c) = (p1, c1)"
    and "ProcessField (Some k2) f v (p, d) = (p2, d1)"
  shows "p1 = p2 \<and> R c1 d1"
  using assms pair_retry pair_error by (auto simp: ProcessField_def split: if_splits)

lemma ProcessLine_pair:
  assumes "R c d" and "ProcessLine (Some k1) l (p, c) = (p1, c1)"
    and "ProcessLine (Some k2) l (p, d) = (p2, d1)"
  shows "p1 = p2 \<and> R c1 d1"
  using assms Dispatch_pair [OF assms(1)] ProcessField_pair [OF assms(1)]
  by (auto simp: ProcessLine_def HandleLine_def split: if_splits prod.splits)

lemma FeedByte_pair:
  assumes "R c d" and "FeedByte (Some k1) b (p, c) = (p1, c1)" and "FeedByte (Some k2) b (p, d) = (p2, d1)"
  shows "p1 = p2 \<and> R c1 d1"
  using assms pair_error
  by (auto simp: FeedByte_def Let_def split: if_splits prod.splits
      dest: ProcessLine_pair [OF assms(1)])

lemma Feed_pair:
  "R c d \<Longrightarrow> Feed (Some k1) bs (p, c) = (p1, c1) \<Longrightarrow> Feed (Some k2) bs (p, d) = (p2, d1) \<Longrightarrow>
   p1 = p2 \<and> R c1 d1"
proof (induction bs arbitrary: p c d)
  case (Cons b bs)
  obtain q c' q' d' where 1: "FeedByte (Some k1) b (p, c) = (q, c')" "FeedByte (Some k2) b (p, d) = (q', d')"
    by fastforce
  from FeedByte_pair [OF Cons.prems(1) 1] have "q = q'" "R c' d'" by simp_all
  with Cons.IH [of c' d' q] Cons.prems(2,3) 1 show ?case by simp
qed simp

end

end
