(* ===== verification/DesktopProps.thy ===== *)
theory DesktopProps
  imports Desktop ParserPair
begin

text \<open>
  The desktop transports' share of the contract: the callbacks keep the parser's guarantees
  (interpretations of \<open>parser_client\<close>), the reconnect delay stays in its range, and the
  interruptible sleep lasts as long as it should.
\<close>

section \<open>The callbacks as clients of the parser\<close>

lemma desktop_fire [simp]:
  "fire_event (Some (desktop_callbacks api)) c e = SSEDesktop_OnParserEvent api c e"
  "fire_id (Some (desktop_callbacks api)) c s = SSEDesktop_OnParserId api c s"
  "fire_retry (Some (desktop_callbacks api)) c n = SSEDesktop_OnParserRetry c n"
  "fire_error (Some (desktop_callbacks api)) c s = SSEDesktop_OnParserError api c s"
  by (simp_all add: fire_defs desktop_callbacks_def)

lemmas desktop_on = SSEDesktop_OnParserEvent_def SSEDesktop_OnParserId_def
  SSEDesktop_OnParserRetry_def SSEDesktop_OnParserError_def

text \<open>Once an event was dropped, the worker's resume position does not move.\<close>

definition frozen_at :: "string option \<Rightarrow> bool \<Rightarrow> 'a desktop_scheme \<times> 'e \<Rightarrow> bool" where
  "frozen_at i d c \<longleftrightarrow> d \<and> dk_LastEventId (fst c) = i"

interpretation frozen: parser_client "desktop_callbacks api" "frozen_at i" for api i
  by unfold_locales (auto simp: frozen_at_def desktop_on split: prod.splits)

text \<open>Members that no callback writes, and the delay's range.\<close>

definition delay_from :: "'a desktop_scheme \<Rightarrow> bool \<Rightarrow> 'a desktop_scheme \<times> 'e \<Rightarrow> bool" where
  "delay_from d0 f c \<longleftrightarrow>
     (dk_RetryMS (fst c) = dk_RetryMS d0 \<or>
      SSE_PARSER_RETRY_MIN_MS \<le> dk_RetryMS (fst c) \<and> dk_RetryMS (fst c) \<le> SSE_PARSER_RETRY_MAX_MS)
     \<and> dk_Handle (fst c) = dk_Handle d0 \<and> dk_Reconnect (fst c) = dk_Reconnect d0
     \<and> dk_Stop (fst c) = dk_Stop d0 \<and> dk_Opened (fst c) = dk_Opened d0
     \<and> dk_Status (fst c) = dk_Status d0 \<and> dk_Url (fst c) = dk_Url d0
     \<and> dk_Headers (fst c) = dk_Headers d0 \<and> dk_Thread (fst c) = dk_Thread d0
     \<and> desktop.more (fst c) = desktop.more d0"

lemma on_event_conn:
  assumes "SSEDesktop_OnParserEvent api (d, e) ev = (b, d', e')"
  shows "d' = d \<or> b \<and> d' = d\<lparr>dk_LastEventId := SSEDesktop_SetString (pe_LastEventId ev)\<rparr>"
  using assms by (cases "pe_LastEventId ev") (auto simp: desktop_on split: prod.splits if_splits)

lemma delay_from_id [simp]:
  "delay_from d0 f (d\<lparr>dk_LastEventId := i\<rparr>, e) = delay_from d0 f' (d, e')"
  by (simp add: delay_from_def)

interpretation delay: parser_client "desktop_callbacks api" "delay_from d0" for api d0
proof (unfold_locales, goal_cases)
  case (1 f c e b c')
  obtain d x d' x' where c: "c = (d, x)" "c' = (d', x')" by fastforce
  have "d' = d \<or> d' = d\<lparr>dk_LastEventId := SSEDesktop_SetString (pe_LastEventId e)\<rparr>"
    using on_event_conn [of api d x e b d' x'] 1(3) c by auto
  then show ?case using 1(1) c by (elim disjE) (simp_all add: delay_from_def)
next
  case (2 c s)
  then show ?case by (cases c) (simp add: SSEDesktop_OnParserId_def delay_from_def)
next
  case (3 f c n)
  then show ?case by (cases c) (simp add: SSEDesktop_OnParserRetry_def delay_from_def)
next
  case (4 f c s)
  then show ?case by (cases c) (simp add: SSEDesktop_OnParserError_def delay_from_def)
qed

lemma FeedParser_eq:
  assumes "Feed (Some (desktop_callbacks api)) bytes (dk_Parser d, d, e) = (p, d', e')"
  shows "FeedParser api bytes (d, e) = (d'\<lparr>dk_Parser := p\<rparr>, e')"
  using assms by (simp add: FeedParser_def)

lemma FeedParser_Nil [simp]: "FeedParser api [] c = c"
  by (cases c) (simp add: FeedParser_def)

text \<open>The members that a feed leaves alone.\<close>

lemma FeedParser_frame:
  assumes "FeedParser api bytes (d, e) = (d1, e1)"
  shows "dk_Handle d1 = dk_Handle d" and "dk_Reconnect d1 = dk_Reconnect d" and "dk_Stop d1 = dk_Stop d"
    and "dk_Opened d1 = dk_Opened d" and "dk_Status d1 = dk_Status d" and "dk_Url d1 = dk_Url d"
    and "dk_Headers d1 = dk_Headers d" and "desktop.more d1 = desktop.more d"
    and "dk_RetryMS d1 = dk_RetryMS d \<or>
      SSE_PARSER_RETRY_MIN_MS \<le> dk_RetryMS d1 \<and> dk_RetryMS d1 \<le> SSE_PARSER_RETRY_MAX_MS"
proof -
  obtain p d' e' where F: "Feed (Some (desktop_callbacks api)) bytes (dk_Parser d, d, e) = (p, d', e')"
    by (metis prod_cases3)
  have "delay_from d (sp_DropObserved (dk_Parser d)) (d, e)" by (simp add: delay_from_def)
  from delay.Feed_client [OF this F] FeedParser_eq [OF F] assms
  show "dk_Handle d1 = dk_Handle d" "dk_Reconnect d1 = dk_Reconnect d" "dk_Stop d1 = dk_Stop d"
    "dk_Opened d1 = dk_Opened d" "dk_Status d1 = dk_Status d" "dk_Url d1 = dk_Url d"
    "dk_Headers d1 = dk_Headers d" "desktop.more d1 = desktop.more d"
    "dk_RetryMS d1 = dk_RetryMS d \<or>
      SSE_PARSER_RETRY_MIN_MS \<le> dk_RetryMS d1 \<and> dk_RetryMS d1 \<le> SSE_PARSER_RETRY_MAX_MS"
    by (auto simp: delay_from_def)
qed

text \<open>
  Resume safety at the worker: once the parser has seen an event of this attempt dropped, nothing the
  server sends afterwards moves the \<open>Last-Event-ID\<close> the worker will send when it
  reconnects, whatever the rest of the extension does meanwhile.
\<close>
theorem worker_resume_id_frozen:
  assumes "sp_DropObserved (dk_Parser d)"
  shows "dk_LastEventId (fst (FeedParser api bytes (d, e))) = dk_LastEventId d"
proof -
  obtain p d' e' where F: "Feed (Some (desktop_callbacks api)) bytes (dk_Parser d, d, e) = (p, d', e')"
    by (metis prod_cases3)
  have "frozen_at (dk_LastEventId d) (sp_DropObserved (dk_Parser d)) (d, e)"
    using assms by (simp add: frozen_at_def)
  from frozen.Feed_client [OF this F] FeedParser_eq [OF F] show ?thesis by (simp add: frozen_at_def)
qed

section \<open>The reconnect delay\<close>

lemma tdiv_1000: "x sdiv 1000 = (if 0 \<le> x then x div 1000 else - ((- x) div (1000::int)))"
  by (cases "x = 0") (auto simp: signed_divide_int_def sgn_if)

text \<open>The delay without jitter.\<close>

definition backoff :: "int \<Rightarrow> nat \<Rightarrow> int" where
  "backoff retry_ms failures =
     min 300000 (max 1000 (min 300000 retry_ms) * 2 ^ min 8 (failures - 1))"

lemma backoff_range: "1000 \<le> backoff retry_ms failures \<and> backoff retry_ms failures \<le> 300000"
proof -
  let ?b = "max 1000 (min 300000 retry_ms)"
  have p: "(1::int) \<le> 2 ^ min 8 (failures - 1)" by simp
  have "1000 * 1 \<le> ?b * 2 ^ min 8 (failures - 1)"
    by (rule mult_mono) (use p in auto)
  then show ?thesis unfolding backoff_def by (simp add: min_def)
qed

lemma delay_eq:
  "SSEDesktop_ComputeRetryDelayMS retry_ms failures time =
     (let delay = backoff retry_ms failures; d = delay + (delay * (int (time mod 401) - 200)) sdiv 1000
      in to_int32 (if d < 500 then 500 else d))"
proof -
  have b: "(if (if retry_ms < 1000 then 1000 else retry_ms) > (300000::int) then 300000
      else (if retry_ms < 1000 then 1000 else retry_ms)) = max 1000 (min 300000 retry_ms)"
    by (simp add: min_def max_def)
  have s: "(if (if failures > 1 then failures - 1 else 0) > (8::nat) then 8
      else (if failures > 1 then failures - 1 else 0)) = min 8 (failures - 1)"
    by (simp add: min_def)
  show ?thesis
    unfolding SSEDesktop_ComputeRetryDelayMS_def SSE_DESKTOP_RETRY_MIN_MS_def
      SSE_DESKTOP_RETRY_MAX_MS_def SSE_DESKTOP_MIN_DELAY_MS_def SSE_DESKTOP_MAX_BACKOFF_SHIFT_def
      Let_def b s backoff_def
    by (simp add: min_def)
qed

text \<open>Jitter is at most a fifth either way, and the lower clamp never applies.\<close>

lemma div_1000: "0 \<le> (k::int) \<Longrightarrow> 1000 * (k div 1000) \<le> k \<and> 0 \<le> k div 1000"
proof -
  assume "0 \<le> k"
  moreover have "1000 * (k div 1000) + k mod 1000 = k" "0 \<le> k mod 1000" by simp_all
  ultimately show ?thesis by (simp add: pos_imp_zdiv_nonneg_iff)
qed

lemma jitter_bounds:
  fixes delay j :: int
  assumes "1000 \<le> delay" and "- 200 \<le> j" and "j \<le> 200"
  shows "4 * delay \<le> 5 * (delay + (delay * j) sdiv 1000) \<and> 5 * (delay + (delay * j) sdiv 1000) \<le> 6 * delay"
proof -
  define k where "k = delay * j"
  have up: "delay * j \<le> delay * 200" by (rule mult_left_mono) (use assms in simp_all)
  have lo: "delay * (- 200) \<le> delay * j" by (rule mult_left_mono) (use assms in simp_all)
  have k: "k \<le> delay * 200" "delay * (- 200) \<le> k" unfolding k_def by (rule up, rule lo)
  define q where "q = k sdiv 1000"
  have "- delay \<le> 5 * q \<and> 5 * q \<le> delay"
  proof (cases "0 \<le> k")
    case True
    then have "q = k div 1000" by (simp add: q_def tdiv_1000)
    moreover note div_1000 [OF True]
    ultimately show ?thesis using k assms(1) by linarith
  next
    case False
    then have "q = - ((- k) div 1000)" by (simp add: q_def tdiv_1000)
    moreover have "0 \<le> - k" using False by simp
    note div_1000 [OF this]
    ultimately show ?thesis using k assms(1) by linarith
  qed
  then have "4 * delay \<le> 5 * (delay + q) \<and> 5 * (delay + q) \<le> 6 * delay" by auto
  then show ?thesis by (simp add: q_def k_def)
qed

text \<open>
  The reconnect delay: it is within a fifth of the exponential back-off, which starts at the stream's delay
  limited to one second and five minutes, doubles with each further failure up to eight times and stays
  within five minutes. So it lies between 800 ms and six minutes, and no 32-bit value
  wraps; the lower clamp of the code never applies.
\<close>
theorem retry_delay_bounds:
  "let delay = SSEDesktop_ComputeRetryDelayMS retry_ms failures time; b = backoff retry_ms failures
   in 4 * b \<le> 5 * delay \<and> 5 * delay \<le> 6 * b \<and> 800 \<le> delay \<and> delay \<le> 360000
      \<and> 500 < delay"
proof -
  define b where "b = backoff retry_ms failures"
  define j where "j = int (time mod 401) - 200"
  define d where "d = b + (b * j) sdiv 1000"
  have b: "1000 \<le> b" "b \<le> 300000" using backoff_range by (auto simp: b_def)
  have "time mod 401 < 401" by simp
  then have "- 200 \<le> j" "j \<le> 200" unfolding j_def by linarith+
  from jitter_bounds [OF b(1) this] have d: "4 * b \<le> 5 * d" "5 * d \<le> 6 * b"
    unfolding d_def by blast+
  then have r: "800 \<le> d" "d \<le> 360000" using b by linarith+
  then have "SSEDesktop_ComputeRetryDelayMS retry_ms failures time = d"
    unfolding delay_eq Let_def b_def [symmetric] j_def [symmetric] d_def [symmetric]
    using to_int32_id [of d] by simp
  with d r show ?thesis unfolding Let_def b_def [symmetric] by simp
qed

text \<open>More failures never shorten the back-off.\<close>

lemma backoff_mono: "m \<le> n \<Longrightarrow> backoff retry_ms m \<le> backoff retry_ms n"
proof -
  assume "m \<le> n"
  then have "(2::int) ^ min 8 (m - 1) \<le> 2 ^ min 8 (n - 1)" by (intro power_increasing) auto
  then have "max 1000 (min 300000 retry_ms) * 2 ^ min 8 (m - 1) \<le> max 1000 (min 300000 retry_ms) * 2 ^ min 8 (n - 1)"
    by (intro mult_left_mono) auto
  then show ?thesis by (simp add: backoff_def min_def)
qed

section \<open>The interruptible sleep\<close>

lemma SleepLoop_ok:
  "r \<le> 100 * int (length stops) \<Longrightarrow> \<exists>steps rest. SleepLoop r stops = Some (steps, rest)
     \<and> (\<forall>s \<in> set steps. 0 < s \<and> s \<le> 100)
     \<and> (sum_list steps = max 0 r \<and> stops = replicate (length steps) False @ rest
        \<or> sum_list steps < r \<and> stops = replicate (length steps) False @ True # rest)"
proof (induction stops arbitrary: r)
  case Nil
  then show ?case by (simp add: SleepLoop.simps [of r])
next
  case (Cons stop stops)
  consider "r \<le> 0" | "0 < r" "stop" | "0 < r" "\<not> stop" by linarith
  then show ?case
  proof cases
    case 1
    then show ?thesis by (simp add: SleepLoop.simps [of r])
  next
    case 2
    then show ?thesis by (simp add: SleepLoop.simps [of r])
  next
    case 3
    let ?s = "if r > 100 then 100 else r"
    have "r - ?s \<le> 100 * int (length stops)" using Cons.prems by simp
    from Cons.IH [OF this] obtain steps rest where IH: "SleepLoop (r - ?s) stops = Some (steps, rest)"
      "\<forall>s \<in> set steps. 0 < s \<and> s \<le> 100"
      "sum_list steps = max 0 (r - ?s) \<and> stops = replicate (length steps) False @ rest
        \<or> sum_list steps < r - ?s \<and> stops = replicate (length steps) False @ True # rest" by blast
    have "SleepLoop r (stop # stops) = Some (?s # steps, rest)"
      using 3 IH(1) by (subst SleepLoop.simps) (simp add: Let_def)
    with IH(2,3) 3 show ?thesis by (intro exI [of _ "?s # steps"] exI [of _ rest]) auto
  qed
qed

text \<open>
  The retry sleep ends: it lasts exactly the delay when no stop request comes, it returns at the first look
  at the flag that sees one, and between two looks it never sleeps longer than 100 ms, so a disconnect
  waits for at most that.
\<close>
theorem retry_sleep_interruptible:
  assumes "delay_ms \<le> 100 * int (length stops)"
  shows "\<exists>steps rest. SSEDesktop_SleepRetry delay_ms stops = Some (steps, rest)
     \<and> (\<forall>s \<in> set steps. 0 < s \<and> s \<le> 100)
     \<and> (sum_list steps = max 0 delay_ms \<and> stops = replicate (length steps) False @ rest
        \<or> sum_list steps < delay_ms \<and> stops = replicate (length steps) False @ True # rest)"
  unfolding SSEDesktop_SleepRetry_def by (rule SleepLoop_ok [OF assms])

theorem retry_sleep_interruptible_witness:
  "\<exists>steps rest. SSEDesktop_SleepRetry 250 [False, False, False, True] = Some (steps, rest)
     \<and> (\<forall>s \<in> set steps. 0 < s \<and> s \<le> 100)"
  using retry_sleep_interruptible [of 250 "[False, False, False, True]"] by auto

theorem worker_resume_id_frozen_witness:
  "let d = \<lparr>dk_Handle = 1, dk_Url = None, dk_LastEventId = Some ''4'', dk_Headers = [],
      dk_Parser = SSEParser_new\<lparr>sp_DropObserved := True\<rparr>, dk_Thread = True, dk_RetryMS = 3000,
      dk_Status = 200, dk_Reconnect = True, dk_Stop = False, dk_Opened = True\<rparr>
   in dk_LastEventId (fst (FeedParser (core_api :: unit sse option sse_api)
        (''id: 9'' @ [LF, LF] @ ''data: x'' @ [LF, LF]) (d, None))) = Some ''4''"
  unfolding Let_def by (subst worker_resume_id_frozen) simp_all

end
