(* ===== verification/ParserSpec.thy ===== *)
theory ParserSpec
  imports ParserClient
begin

text \<open>
  A reference description of an event stream, and the proof that the byte-at-a-time parser
  implements it. The reference works on whole lines and whole blocks: the data of a block
  is the concatenation of its \<open>data\<close> values with a newline after each, its type and its
  id are the last values of their fields, and the resume position is the last id of the blocks
  whose events were delivered. It has no buffers, flags or rollback points.
\<close>

section \<open>From bytes to lines\<close>

definition text_of_lines :: "string list \<Rightarrow> string" where
  "text_of_lines ls = concat (map (\<lambda>l. l @ [LF]) ls)"

lemma text_of_lines_simps [simp]:
  "text_of_lines [] = []" "text_of_lines (l # ls) = l @ LF # text_of_lines ls"
  by (simp_all add: text_of_lines_def)

text \<open>\<open>ProcessLine\<close> gets the line by value and never reads the line buffer.\<close>

lemma Dispatch_Line:
  "Dispatch cbs (p\<lparr>sp_Line := x\<rparr>, c) =
     (case Dispatch cbs (p, c) of (p1, c1) \<Rightarrow> (p1\<lparr>sp_Line := x\<rparr>, c1))"
  by (simp add: Dispatch_def EndBlock_def BuildEvent_def Let_def split_def)

lemma ProcessField_Line:
  "ProcessField cbs f v (p\<lparr>sp_Line := x\<rparr>, c) =
     (case ProcessField cbs f v (p, c) of (p1, c1) \<Rightarrow> (p1\<lparr>sp_Line := x\<rparr>, c1))"
  by (simp add: ProcessField_def PoisonEvent_def)

lemma HandleLine_Line:
  "HandleLine cbs l (p\<lparr>sp_Line := x\<rparr>, c) =
     (case HandleLine cbs l (p, c) of (p1, c1) \<Rightarrow> (p1\<lparr>sp_Line := x\<rparr>, c1))"
  by (simp add: HandleLine_def Dispatch_Line ProcessField_Line split_def)

lemma ProcessLine_Line:
  "ProcessLine cbs l (p\<lparr>sp_Line := x\<rparr>, c) =
     (case ProcessLine cbs l (p, c) of (p1, c1) \<Rightarrow> (p1\<lparr>sp_Line := x\<rparr>, c1))"
proof -
  have eq: "p\<lparr>sp_Line := x, sp_FirstLine := False\<rparr> = p\<lparr>sp_FirstLine := False\<rparr>\<lparr>sp_Line := x\<rparr>"
    by (cases p) simp
  show ?thesis by (simp add: eq ProcessLine_def HandleLine_Line)
qed

text \<open>Bytes within the limit accumulate in the line buffer.\<close>

lemma Feed_within_line:
  "LF \<notin> set l \<Longrightarrow> length (sp_Line p) + length l \<le> SSE_PARSER_MAX_BUFFER
     \<Longrightarrow> \<not> sp_DiscardingLine p \<Longrightarrow> Feed cbs l (p, c) = (p\<lparr>sp_Line := sp_Line p @ l\<rparr>, c)"
proof (induction l arbitrary: p)
  case Nil
  then show ?case by simp
next
  case (Cons b l)
  let ?p = "p\<lparr>sp_Line := sp_Line p @ [b]\<rparr>"
  have "FeedByte cbs b (p, c) = (?p, c)" using Cons.prems by (auto simp: FeedByte_def Let_def)
  moreover have "Feed cbs l (?p, c) = (?p\<lparr>sp_Line := sp_Line ?p @ l\<rparr>, c)"
    using Cons.prems by (intro Cons.IH) auto
  ultimately show ?case by simp
qed

definition line_ready :: "sse_parser \<Rightarrow> bool" where
  "line_ready p \<longleftrightarrow> sp_Line p = [] \<and> \<not> sp_DiscardingLine p"

definition short_line :: "string \<Rightarrow> bool" where
  "short_line l \<longleftrightarrow> LF \<notin> set l \<and> length l \<le> SSE_PARSER_MAX_BUFFER"

text \<open>The line buffer and the two flags about lines are not touched below \<open>ProcessLine\<close>.\<close>

lemma HandleLine_frame [simp]:
  "sp_Line (fst (HandleLine cbs l (p, c))) = sp_Line p"
  "sp_DiscardingLine (fst (HandleLine cbs l (p, c))) = sp_DiscardingLine p"
  "sp_FirstLine (fst (HandleLine cbs l (p, c))) = sp_FirstLine p"
  by (simp_all add: HandleLine_def Dispatch_def EndBlock_def ProcessField_def PoisonEvent_def
      Let_def split_def)

lemma ProcessLine_ready:
  assumes "line_ready p" and "ProcessLine cbs l (p, c) = (p', c')"
  shows "line_ready p'"
proof -
  have "p' = fst (ProcessLine cbs l (p, c))" using assms(2) by simp
  then show ?thesis using assms(1) by (simp add: ProcessLine_def line_ready_def)
qed

lemma Feed_line:
  assumes "short_line l" and "line_ready p"
  shows "Feed cbs (l @ LF # bs) (p, c) = Feed cbs bs (ProcessLine cbs l (p, c))"
proof -
  obtain p1 c1 where P: "ProcessLine cbs l (p, c) = (p1, c1)" by fastforce
  have r: "line_ready p1" using ProcessLine_ready [OF assms(2) P] .
  have "p\<lparr>sp_Line := []\<rparr> = p" using assms(2) by (simp add: line_ready_def)
  then have "ProcessLine cbs l (p\<lparr>sp_Line := l\<rparr>, c) = (p1\<lparr>sp_Line := l\<rparr>, c1)"
    using P ProcessLine_Line [of cbs l l p c] by simp
  moreover have "p1\<lparr>sp_Line := l, sp_Line := []\<rparr> = p1"
    using r by (cases p1) (simp add: line_ready_def)
  ultimately have "FeedByte cbs LF (p\<lparr>sp_Line := l\<rparr>, c) = (p1, c1)"
    using assms(2) by (simp add: FeedByte_def line_ready_def)
  then show ?thesis
    using assms P by (simp add: Feed_append Feed_within_line line_ready_def short_line_def)
qed

lemma Feed_lines:
  "list_all short_line ls \<Longrightarrow> line_ready p \<Longrightarrow>
   Feed cbs (text_of_lines ls) (p, c) = fold (ProcessLine cbs) ls (p, c)"
proof (induction ls arbitrary: p c)
  case Nil
  then show ?case by simp
next
  case (Cons l ls)
  obtain p1 c1 where P: "ProcessLine cbs l (p, c) = (p1, c1)" by fastforce
  have "line_ready p1" using ProcessLine_ready [OF Cons.prems(2) P] .
  with Cons P show ?case by (simp add: Feed_line)
qed

text \<open>Line ends and the byte order mark: the lines of a stream without them.\<close>

fun normalise :: "string list \<Rightarrow> string list" where
  "normalise [] = []"
| "normalise (l # ls) = StripCR (StripBOM l) # map StripCR ls"

section \<open>The reference\<close>

definition spec_field :: "string \<Rightarrow> string" where
  "spec_field l = takeWhile (\<lambda>c. c \<noteq> CHR '':'') l"

definition spec_value :: "string \<Rightarrow> string" where
  "spec_value l =
     (let v = drop 1 (dropWhile (\<lambda>c. c \<noteq> CHR '':'') l)
      in if take 1 v = '' '' then drop 1 v else v)"

text \<open>The values of a field in a block, in order; a comment has the empty field name.\<close>

definition values_of :: "string \<Rightarrow> string list \<Rightarrow> string list" where
  "values_of f blk = map spec_value (filter (\<lambda>l. spec_field l = f) blk)"

definition spec_data :: "string list \<Rightarrow> string" where
  "spec_data blk = text_of_lines (values_of ''data'' blk)"

definition last_of :: "string list \<Rightarrow> string option" where
  "last_of vs = (if vs = [] then None else Some (last vs))"

definition spec_id :: "string list \<Rightarrow> string option" where
  "spec_id blk = last_of (values_of ''id'' blk)"

definition spec_event_name :: "string list \<Rightarrow> string" where
  "spec_event_name blk = (case last_of (values_of ''event'' blk) of
     None \<Rightarrow> ''message'' | Some v \<Rightarrow> (if v = [] then ''message'' else c_str v))"

definition spec_retries :: "string list \<Rightarrow> call list" where
  "spec_retries blk =
     map (\<lambda>v. CallRetry (max 1000 (min 300000 (int (digits_val v)))))
       (filter (\<lambda>v. v \<noteq> [] \<and> list_all isdigit v) (values_of ''retry'' blk))"

text \<open>
  The state between blocks: the last id of a block that was not dropped, whether an event
  has been dropped, and the calls so far.
\<close>

record spec_state =
  ss_Last :: "string option"
  ss_Drop :: bool
  ss_Log :: "call list"

definition or_else :: "'a option \<Rightarrow> 'a option \<Rightarrow> 'a option" where
  "or_else x y = (case x of None \<Rightarrow> y | Some v \<Rightarrow> x)"

definition spec_event :: "string list \<Rightarrow> spec_state \<Rightarrow> parsed_event" where
  "spec_event blk st =
     \<lparr>pe_Event = spec_event_name blk,
      pe_Data = c_str (butlast (spec_data blk)),
      pe_Id = (case spec_id blk of None \<Rightarrow> [] | Some i \<Rightarrow> c_str i),
      pe_LastEventId =
        (if ss_Drop st then None else map_option c_str (or_else (spec_id blk) (ss_Last st)))\<rparr>"

definition SpecBlock ::
  "(call list \<Rightarrow> parsed_event \<Rightarrow> bool) \<Rightarrow> string list \<Rightarrow> spec_state \<Rightarrow> spec_state" where
  "SpecBlock reply blk st =
     (let log = ss_Log st @ spec_retries blk; l' = or_else (spec_id blk) (ss_Last st) in
      if spec_data blk = [] then
        st\<lparr>ss_Last := l',
           ss_Log := log @ (case spec_id blk of None \<Rightarrow> []
                            | Some i \<Rightarrow> if ss_Drop st then [] else [CallId (c_str i)])\<rparr>
      else let e = spec_event blk st in
        if reply log e then st\<lparr>ss_Last := l', ss_Log := log @ [CallEvent e True]\<rparr>
        else st\<lparr>ss_Drop := True, ss_Log := log @ [CallEvent e False]\<rparr>)"

fun SpecStream ::
  "(call list \<Rightarrow> parsed_event \<Rightarrow> bool) \<Rightarrow> string list \<Rightarrow> string list \<Rightarrow> spec_state \<Rightarrow> spec_state"
where
  "SpecStream reply blk [] st = st\<lparr>ss_Log := ss_Log st @ spec_retries blk\<rparr>"
| "SpecStream reply blk (l # ls) st =
     (if l = [] then SpecStream reply [] ls (SpecBlock reply blk st)
      else SpecStream reply (blk @ [l]) ls st)"

definition spec_init :: spec_state where
  "spec_init = \<lparr>ss_Last = None, ss_Drop = False, ss_Log = []\<rparr>"

text \<open>Every block's data is within the cap (the parser poisons a block over it).\<close>

fun within_cap :: "string list \<Rightarrow> string list \<Rightarrow> bool" where
  "within_cap blk [] \<longleftrightarrow> length (spec_data blk) \<le> SSE_PARSER_MAX_BUFFER"
| "within_cap blk (l # ls) \<longleftrightarrow>
     (if l = [] then length (spec_data blk) \<le> SSE_PARSER_MAX_BUFFER \<and> within_cap [] ls
      else within_cap (blk @ [l]) ls)"


section \<open>The parser implements the reference\<close>

lemma SplitField_spec: "SplitField l = (spec_field l, spec_value l)"
proof (cases "find_char CHR '':'' l")
  case None
  then have "\<forall>c \<in> set l. c \<noteq> CHR '':''" by auto
  with None show ?thesis
    by (simp add: SplitField_def spec_field_def spec_value_def takeWhile_all dropWhile_all
        del: find_char_None)
next
  case (Some i)
  then obtain u v where l: "l = u @ CHR '':'' # v" "CHR '':'' \<notin> set u" "i = length u"
    by (auto simp: find_char_Some_split)
  then have "takeWhile (\<lambda>c. c \<noteq> CHR '':'') l = u"
    "dropWhile (\<lambda>c. c \<noteq> CHR '':'') l = CHR '':'' # v"
    by (auto simp: takeWhile_append dropWhile_append)
  with Some l show ?thesis
    by (cases v) (auto simp: SplitField_def spec_field_def spec_value_def Let_def)
qed

lemma ClampRetry_digits:
  assumes "v \<noteq> []" and "list_all isdigit v" and "300000 \<le> lmax"
  shows "ClampRetry lmax v = max 1000 (min 300000 (int (digits_val v)))"
  using assms by (auto simp: ClampRetry_def strtol_digits list_all_iff Let_def
      SSE_PARSER_RETRY_MIN_MS_def SSE_PARSER_RETRY_MAX_MS_def)

lemma values_of_snoc:
  "values_of f (blk @ [l]) = values_of f blk @ (if spec_field l = f then [spec_value l] else [])"
  by (simp add: values_of_def)

lemma last_of_snoc [simp]: "last_of (vs @ [v]) = Some v" "last_of [] = None"
  by (simp_all add: last_of_def)

lemma text_of_lines_append: "text_of_lines (xs @ ys) = text_of_lines xs @ text_of_lines ys"
  by (simp add: text_of_lines_def)

lemma spec_data_snoc:
  "spec_data (blk @ [l]) =
     spec_data blk @ (if spec_field l = ''data'' then spec_value l @ [LF] else [])"
  by (simp add: spec_data_def values_of_snoc text_of_lines_append)

lemma spec_id_snoc:
  "spec_id (blk @ [l]) = (if spec_field l = ''id'' then Some (spec_value l) else spec_id blk)"
  by (simp add: spec_id_def values_of_snoc)

lemma spec_retries_snoc:
  "spec_retries (blk @ [l]) = spec_retries blk @
     (if spec_field l = ''retry'' \<and> spec_value l \<noteq> [] \<and> list_all isdigit (spec_value l)
      then [CallRetry (max 1000 (min 300000 (int (digits_val (spec_value l)))))] else [])"
  by (simp add: spec_retries_def values_of_snoc)

lemma spec_block_Nil [simp]:
  "values_of f [] = []" "spec_data [] = []" "spec_id [] = None" "spec_retries [] = []"
  by (simp_all add: values_of_def spec_data_def spec_id_def spec_retries_def)

lemmas spec_snoc = spec_data_snoc spec_id_snoc spec_retries_snoc values_of_snoc

text \<open>A comment has the empty field name.\<close>

lemma spec_field_comment: "l \<noteq> [] \<Longrightarrow> spec_field l = [] \<longleftrightarrow> hd l = CHR '':''"
  by (cases l) (auto simp: spec_field_def)

text \<open>The simulation relation between the parser inside a block and the reference.\<close>

definition sim ::
  "(call list \<Rightarrow> parsed_event \<Rightarrow> bool) \<Rightarrow> string list \<Rightarrow> spec_state \<Rightarrow> sse_parser \<Rightarrow> recorder \<Rightarrow> bool"
where
  "sim reply blk st p r \<longleftrightarrow>
     \<not> sp_EventPoisoned p \<and> sp_Data p = spec_data blk
     \<and> sp_Event p = (case last_of (values_of ''event'' blk) of None \<Rightarrow> [] | Some v \<Rightarrow> v)
     \<and> sp_HasId p = (spec_id blk \<noteq> None) \<and> sp_DropObserved p = ss_Drop st
     \<and> sp_HasIdEverAtBlockStart p = (ss_Last st \<noteq> None)
     \<and> (\<forall>i. ss_Last st = Some i \<longrightarrow> sp_IdAtBlockStart p = i)
     \<and> sp_HasIdEver p = (or_else (spec_id blk) (ss_Last st) \<noteq> None)
     \<and> (\<forall>i. or_else (spec_id blk) (ss_Last st) = Some i \<longrightarrow> sp_Id p = i)
     \<and> rec_log r = ss_Log st @ spec_retries blk \<and> rec_reply r = reply"

lemma sim_line:
  assumes s: "sim reply blk st p r" and l: "l \<noteq> []"
    and cap: "length (spec_data (blk @ [l])) \<le> SSE_PARSER_MAX_BUFFER"
    and H: "HandleLine (Some rec_callbacks) l (p, r) = (p', r')"
  shows "sim reply (blk @ [l]) st p' r'"
proof (cases "hd l = CHR '':''")
  case True
  then have "spec_field l = []" using l spec_field_comment by simp
  with s l H True show ?thesis by (auto simp: sim_def HandleLine_def spec_snoc)
next
  case False
  have P: "ProcessField (Some rec_callbacks) (spec_field l) (spec_value l) (p, r) = (p', r')"
    using s l H False by (simp add: sim_def HandleLine_def SplitField_spec)
  consider "spec_field l = ''data''" | "spec_field l = ''event''" | "spec_field l = ''id''"
    | "spec_field l = ''retry''"
    | "spec_field l \<notin> {''data'', ''event'', ''id'', ''retry''}" by blast
  then show ?thesis
  proof cases
    case 1
    with s P cap have "p' = p\<lparr>sp_Data := sp_Data p @ spec_value l @ [LF]\<rparr>" "r' = r"
      by (simp_all add: sim_def ProcessField_def spec_snoc)
    with s 1 show ?thesis by (simp add: sim_def spec_snoc)
  next
    case 2
    with P have "p' = p\<lparr>sp_Event := spec_value l\<rparr>" "r' = r" by (simp_all add: ProcessField_def)
    with s 2 show ?thesis by (simp add: sim_def spec_snoc)
  next
    case 3
    with P have "p' = p\<lparr>sp_Id := spec_value l, sp_HasId := True, sp_HasIdEver := True\<rparr>" "r' = r"
      by (simp_all add: ProcessField_def)
    with s 3 show ?thesis by (simp add: sim_def spec_snoc or_else_def)
  next
    case 4
    have "p' = p"
      "r' = (if spec_value l \<noteq> [] \<and> list_all isdigit (spec_value l)
             then record_call r (CallRetry (ClampRetry LONG_MAX (spec_value l))) else r)"
      using P 4 by (auto simp: ProcessField_def split: if_splits)
    with s 4 show ?thesis
      by (simp add: sim_def spec_snoc ClampRetry_digits LONG_MAX_def)
  next
    case 5
    with P have "p' = p" "r' = r" by (simp_all add: ProcessField_def)
    with s 5 show ?thesis by (simp add: sim_def spec_snoc)
  qed
qed

lemma text_of_lines_last: "text_of_lines ls \<noteq> [] \<Longrightarrow> last (text_of_lines ls) = LF"
  by (induction ls rule: rev_induct) (auto simp: text_of_lines_append)

lemma sim_event:
  assumes "sim reply blk st p r" and "spec_data blk \<noteq> []"
  shows "BuildEvent (p\<lparr>sp_Data := d\<rparr>) (butlast (spec_data blk)) = spec_event blk st"
  using assms
  by (auto simp: sim_def BuildEvent_def spec_event_def spec_event_name_def or_else_def
      split: option.splits)

lemma sim_dispatch:
  assumes s: "sim reply blk st p r" and H: "HandleLine (Some rec_callbacks) [] (p, r) = (p', r')"
  shows "sim reply [] (SpecBlock reply blk st) p' r'"
proof -
  have D: "Dispatch (Some rec_callbacks) (p, r) = (p', r')" using H by (simp add: HandleLine_def)
  have np: "\<not> sp_EventPoisoned p" and data: "sp_Data p = spec_data blk"
    using s by (simp_all add: sim_def)
  show ?thesis
  proof (cases "spec_data blk = []")
    case True
    then have "p' = EndBlock p"
      "r' = (if sp_HasId p \<and> \<not> sp_DropObserved p then record_call r (CallId (c_str (sp_Id p))) else r)"
      using D np data by (auto simp: Dispatch_def)
    with s True show ?thesis
      by (cases "spec_id blk")
        (simp_all add: sim_def EndBlock_def SpecBlock_def Let_def or_else_def)
  next
    case False
    have last: "last (spec_data blk) = LF"
      using False text_of_lines_last by (simp add: spec_data_def)
    let ?q = "p\<lparr>sp_Data := butlast (spec_data blk)\<rparr>" and ?e = "spec_event blk st"
    let ?b = "reply (ss_Log st @ spec_retries blk) ?e"
    have e: "BuildEvent ?q (butlast (spec_data blk)) = ?e" using sim_event [OF s False] .
    have r: "rec_reply r (rec_log r) ?e = ?b" using s by (simp add: sim_def)
    have "p' = EndBlock (if ?b then ?q else ?q\<lparr>sp_Id := sp_IdAtBlockStart p,
        sp_HasIdEver := sp_HasIdEverAtBlockStart p, sp_DropObserved := True\<rparr>)"
      "r' = record_call r (CallEvent ?e ?b)"
      using D np data False last e r by (auto simp: Dispatch_def)
    with s False show ?thesis
      by (cases ?b) (simp_all add: sim_def EndBlock_def SpecBlock_def Let_def or_else_def)
  qed
qed

lemma within_cap_first: "within_cap blk ls \<Longrightarrow> length (spec_data blk) \<le> SSE_PARSER_MAX_BUFFER"
proof (induction blk ls rule: within_cap.induct)
  case (2 blk l ls)
  then show ?case by (auto simp: spec_data_snoc split: if_splits)
qed simp

lemma sim_stream:
  "sim reply blk st p r \<Longrightarrow> within_cap blk ls \<Longrightarrow>
   fold (HandleLine (Some rec_callbacks)) ls (p, r) = (p', r') \<Longrightarrow>
   rec_log r' = ss_Log (SpecStream reply blk ls st)"
proof (induction ls arbitrary: blk st p r)
  case Nil
  then show ?case by (simp add: sim_def)
next
  case (Cons l ls)
  obtain p1 r1 where H: "HandleLine (Some rec_callbacks) l (p, r) = (p1, r1)" by fastforce
  show ?case
  proof (cases "l = []")
    case True
    then have "sim reply [] (SpecBlock reply blk st) p1 r1"
      using sim_dispatch Cons.prems(1) H by simp
    from Cons.IH [OF this] Cons.prems H True show ?thesis by simp
  next
    case False
    have "length (spec_data (blk @ [l])) \<le> SSE_PARSER_MAX_BUFFER"
      using Cons.prems(2) False within_cap_first by auto
    from sim_line [OF Cons.prems(1) False this H]
    have "sim reply (blk @ [l]) st p1 r1" .
    from Cons.IH [OF this] Cons.prems H False show ?thesis by simp
  qed
qed

lemma fold_ProcessLine:
  "\<not> sp_FirstLine p \<Longrightarrow>
   fold (ProcessLine cbs) ls (p, c) = fold (HandleLine cbs) (map StripCR ls) (p, c)"
proof (induction ls arbitrary: p c)
  case (Cons l ls)
  then have eq: "p\<lparr>sp_FirstLine := False\<rparr> = p" by (cases p) simp
  have P: "ProcessLine cbs l (p, c) = HandleLine cbs (StripCR l) (p, c)"
    using Cons.prems by (simp add: ProcessLine_def eq)
  obtain p1 c1 where H: "HandleLine cbs (StripCR l) (p, c) = (p1, c1)" by fastforce
  with HandleLine_frame(3) [of cbs "StripCR l" p c] Cons.prems have "\<not> sp_FirstLine p1" by simp
  with Cons.IH P H show ?case by simp
qed simp

text \<open>The initial parser, its first line behind it, and the initial state of the reference.\<close>

lemma sim_init:
  "sim reply [] spec_init (SSEParser_new\<lparr>sp_FirstLine := False\<rparr>) \<lparr>rec_log = [], rec_reply = reply\<rparr>"
  by (simp add: sim_def spec_init_def SSEParser_new_def or_else_def)

lemma fold_ProcessLine_new:
  "ls \<noteq> [] \<Longrightarrow> fold (ProcessLine cbs) ls (SSEParser_new, c) =
     fold (HandleLine cbs) (normalise ls) (SSEParser_new\<lparr>sp_FirstLine := False\<rparr>, c)"
proof (cases ls)
  case (Cons l ls')
  let ?q = "SSEParser_new\<lparr>sp_FirstLine := False\<rparr>"
  obtain p1 c1 where H: "HandleLine cbs (StripCR (StripBOM l)) (?q, c) = (p1, c1)" by fastforce
  with HandleLine_frame(3) [of cbs "StripCR (StripBOM l)" ?q c] have "\<not> sp_FirstLine p1" by simp
  with Cons H show ?thesis
    by (simp add: ProcessLine_def fold_ProcessLine) (simp add: SSEParser_new_def)
qed simp

end
