(* ===== verification/ParserRoundtrip.thy ===== *)
theory ParserRoundtrip
  imports ParserSpec
begin

text \<open>
  The round trip: a server that writes messages in the usual way (an \<open>event:\<close> line, an
  \<open>id:\<close> line, one \<open>data:\<close> line per line of payload, a blank line) and the parser
  that reads them back. The encoder is the reference for what a stream means; it
  is not part of the client.
\<close>

record message =
  msg_Name :: string
  msg_Id :: "string option"
  msg_Data :: "string list"

fun join_lf :: "string list \<Rightarrow> string" where
  "join_lf [] = []"
| "join_lf [d] = d"
| "join_lf (d # ds) = d @ LF # join_lf ds"

definition message_fields :: "message \<Rightarrow> string list" where
  "message_fields m =
     (if msg_Name m = [] then [] else [''event: '' @ msg_Name m])
     @ (case msg_Id m of None \<Rightarrow> [] | Some i \<Rightarrow> [''id: '' @ i])
     @ map (\<lambda>d. ''data: '' @ d) (msg_Data m)"

definition message_lines :: "message \<Rightarrow> string list" where
  "message_lines m = message_fields m @ [[]]"

text \<open>A value that survives a field line: no newline, no NUL, no carriage return at its end.\<close>

definition clean :: "string \<Rightarrow> bool" where
  "clean v \<longleftrightarrow> LF \<notin> set v \<and> NUL \<notin> set v \<and> (v \<noteq> [] \<longrightarrow> last v \<noteq> CR)
     \<and> length v + 7 \<le> SSE_PARSER_MAX_BUFFER"

definition msg_ok :: "message \<Rightarrow> bool" where
  "msg_ok m \<longleftrightarrow> msg_Data m \<noteq> [] \<and> clean (msg_Name m) \<and> list_all clean (msg_Data m)
     \<and> (case msg_Id m of None \<Rightarrow> True | Some i \<Rightarrow> clean i)
     \<and> length (text_of_lines (msg_Data m)) \<le> SSE_PARSER_MAX_BUFFER"

text \<open>What the callback should get: one event per message, the last id as resume position.\<close>

fun expected :: "string option \<Rightarrow> message list \<Rightarrow> call list" where
  "expected l [] = []"
| "expected l (m # ms) =
     CallEvent
       \<lparr>pe_Event = (if msg_Name m = [] then ''message'' else msg_Name m),
        pe_Data = join_lf (msg_Data m),
        pe_Id = (case msg_Id m of None \<Rightarrow> [] | Some i \<Rightarrow> i),
        pe_LastEventId = or_else (msg_Id m) l\<rparr> True
     # expected (or_else (msg_Id m) l) ms"

lemma butlast_text_of_lines: "ds \<noteq> [] \<Longrightarrow> butlast (text_of_lines ds) = join_lf ds"
proof (induction ds rule: join_lf.induct)
  case (3 d e ds)
  have "text_of_lines (e # ds) \<noteq> []" by simp
  with 3 show ?case by (simp add: butlast_append)
qed auto

lemma field_line [simp]:
  "spec_field (''event: '' @ v) = ''event''" "spec_value (''event: '' @ v) = v"
  "spec_field (''id: '' @ v) = ''id''" "spec_value (''id: '' @ v) = v"
  "spec_field (''data: '' @ v) = ''data''" "spec_value (''data: '' @ v) = v"
  by (simp_all add: spec_field_def spec_value_def)

lemma values_of_append: "values_of f (xs @ ys) = values_of f xs @ values_of f ys"
  by (simp add: values_of_def)

lemma values_of_map_data:
  "values_of f (map (\<lambda>d. ''data: '' @ d) ds) = (if f = ''data'' then ds else [])"
  by (induction ds) (auto simp: values_of_def simp del: append.simps)

lemma values_of_message:
  "values_of ''data'' (message_fields m) = msg_Data m"
  "values_of ''event'' (message_fields m) = (if msg_Name m = [] then [] else [msg_Name m])"
  "values_of ''id'' (message_fields m) = (case msg_Id m of None \<Rightarrow> [] | Some i \<Rightarrow> [i])"
  "values_of ''retry'' (message_fields m) = []"
  unfolding message_fields_def values_of_append values_of_map_data
  by (auto simp: values_of_def simp del: append.simps split: option.split)

lemma clean_c_str [simp]: "clean v \<Longrightarrow> c_str v = v"
  by (simp add: clean_def)

lemma NUL_join: "\<forall>d \<in> set ds. NUL \<notin> set d \<Longrightarrow> NUL \<notin> set (join_lf ds)"
  by (induction ds rule: join_lf.induct) auto

lemma SpecBlock_message:
  assumes "msg_ok m" and "\<not> ss_Drop st" and "map_option c_str (ss_Last st) = ss_Last st"
    and "\<And>e. reply (ss_Log st) e"
  shows "SpecBlock reply (message_fields m) st =
    st\<lparr>ss_Last := or_else (msg_Id m) (ss_Last st),
       ss_Log := ss_Log st @ take 1 (expected (ss_Last st) [m])\<rparr>"
proof -
  have d: "spec_data (message_fields m) = text_of_lines (msg_Data m)"
    by (simp add: spec_data_def values_of_message)
  have i: "spec_id (message_fields m) = msg_Id m"
    by (simp add: spec_id_def values_of_message last_of_def split: option.split)
  have r: "spec_retries (message_fields m) = []" by (simp add: spec_retries_def values_of_message)
  have n: "spec_event_name (message_fields m) = (if msg_Name m = [] then ''message'' else msg_Name m)"
    using assms(1) by (simp add: spec_event_name_def values_of_message last_of_def msg_ok_def)
  have "NUL \<notin> set (join_lf (msg_Data m))"
    using assms(1) by (intro NUL_join) (auto simp: msg_ok_def list_all_iff clean_def)
  then have "c_str (butlast (text_of_lines (msg_Data m))) = join_lf (msg_Data m)"
    using assms(1) by (simp add: butlast_text_of_lines msg_ok_def)
  moreover have "text_of_lines (msg_Data m) \<noteq> []"
    using assms(1) by (cases "msg_Data m") (auto simp: msg_ok_def)
  ultimately show ?thesis
    using assms
    by (auto simp: SpecBlock_def Let_def d i r n spec_event_def or_else_def msg_ok_def
        split: option.splits)
qed

lemma SpecStream_fields:
  "list_all (\<lambda>l. l \<noteq> []) fs \<Longrightarrow>
   SpecStream reply blk (fs @ [] # ls) st = SpecStream reply [] ls (SpecBlock reply (blk @ fs) st)"
  by (induction fs arbitrary: blk) auto

lemma message_fields_nonempty: "list_all (\<lambda>l. l \<noteq> []) (message_fields m)"
  by (auto simp: message_fields_def list_all_iff split: option.splits)

lemma SpecStream_messages:
  "list_all msg_ok ms \<Longrightarrow> \<not> ss_Drop st \<Longrightarrow> map_option c_str (ss_Last st) = ss_Last st \<Longrightarrow>
   (\<And>log e. length log < length (ss_Log st) + length ms \<Longrightarrow> reply log e) \<Longrightarrow>
   ss_Log (SpecStream reply [] (concat (map message_lines ms)) st) =
   ss_Log st @ expected (ss_Last st) ms"
proof (induction ms arbitrary: st)
  case (Cons m ms)
  have l: "map_option c_str (or_else (msg_Id m) (ss_Last st)) = or_else (msg_Id m) (ss_Last st)"
    using Cons.prems by (auto simp: or_else_def msg_ok_def split: option.splits)
  define st1 where "st1 = st\<lparr>ss_Last := or_else (msg_Id m) (ss_Last st),
    ss_Log := ss_Log st @ take 1 (expected (ss_Last st) [m])\<rparr>"
  have B: "SpecBlock reply (message_fields m) st = st1"
    unfolding st1_def by (rule SpecBlock_message) (use Cons.prems in auto)
  have "concat (map message_lines (m # ms)) = message_fields m @ [] # concat (map message_lines ms)"
    by (simp add: message_lines_def)
  then have "SpecStream reply [] (concat (map message_lines (m # ms))) st =
      SpecStream reply [] (concat (map message_lines ms)) st1"
    by (simp only: SpecStream_fields [OF message_fields_nonempty] append_Nil B)
  moreover have "ss_Log (SpecStream reply [] (concat (map message_lines ms)) st1) =
      ss_Log st1 @ expected (ss_Last st1) ms"
    using Cons.prems l by (intro Cons.IH) (auto simp: st1_def)
  moreover have "ss_Log st1 @ expected (ss_Last st1) ms = ss_Log st @ expected (ss_Last st) (m # ms)"
    by (simp add: st1_def)
  ultimately show ?case by (simp only:)
qed simp

lemma within_cap_fields:
  "list_all (\<lambda>l. l \<noteq> []) fs \<Longrightarrow> within_cap blk (fs @ [] # ls) \<longleftrightarrow>
     length (spec_data (blk @ fs)) \<le> SSE_PARSER_MAX_BUFFER \<and> within_cap [] ls"
  by (induction fs arbitrary: blk) auto

lemma within_cap_messages:
  "list_all msg_ok ms \<Longrightarrow> within_cap [] (concat (map message_lines ms))"
  by (induction ms)
    (auto simp: message_lines_def within_cap_fields message_fields_nonempty spec_data_def
      values_of_message msg_ok_def)

lemma field_lines_clean:
  assumes "msg_ok m" and "l \<in> set (message_lines m)"
  shows "short_line l \<and> StripCR l = l \<and> StripBOM l = l"
proof -
  have "short_line (n @ v) \<and> StripCR (n @ v) = n @ v \<and> StripBOM (n @ v) = n @ v"
    if "n \<in> {''event: '', ''id: '', ''data: ''}" "clean v" for n v
    using that by (cases "v = []")
      (auto simp: short_line_def clean_def StripCR_def StripBOM_def SSE_PARSER_MAX_BUFFER_def)
  moreover have "short_line [] \<and> StripCR [] = [] \<and> StripBOM [] = []"
    by (simp add: short_line_def StripCR_def StripBOM_def)
  moreover have "l = [] \<or> (\<exists>n v. l = n @ v \<and> n \<in> {''event: '', ''id: '', ''data: ''} \<and> clean v)"
    using assms unfolding message_lines_def message_fields_def msg_ok_def list_all_iff
    by (auto simp del: append.simps split: option.splits if_splits)
  ultimately show ?thesis by blast
qed

lemma normalise_id: "\<forall>l \<in> set ls. StripCR l = l \<and> StripBOM l = l \<Longrightarrow> normalise ls = ls"
  by (cases ls) (auto simp: map_idI)

text \<open>The callback may refuse events, but not these.\<close>

lemma messages_transcript:
  assumes "list_all msg_ok ms" and rep: "\<And>log e. length log < length ms \<Longrightarrow> reply log e"
  shows "Transcript reply (text_of_lines (concat (map message_lines ms))) = expected None ms"
proof -
  let ?raw = "concat (map message_lines ms)" and ?r = "\<lparr>rec_log = [], rec_reply = reply\<rparr>"
  have c: "\<forall>l \<in> set ?raw. short_line l \<and> StripCR l = l \<and> StripBOM l = l"
    using assms field_lines_clean by (auto simp: list_all_iff)
  then have n: "normalise ?raw = ?raw" by (intro normalise_id) blast
  from c have s: "list_all short_line ?raw" by (simp add: list_all_iff)
  obtain p c where F: "fold (ProcessLine (Some rec_callbacks)) ?raw (SSEParser_new, ?r) = (p, c)"
    by fastforce
  have T: "Transcript reply (text_of_lines ?raw) = rec_log c"
    using F by (simp add: Transcript_def Feed_lines [OF s] line_ready_def SSEParser_new_def)
  show ?thesis
  proof (cases "?raw = []")
    case True
    then have "ms = []" by (cases ms) (auto simp: message_lines_def)
    then show ?thesis by (simp add: Transcript_def)
  next
    case False
    have "fold (HandleLine (Some rec_callbacks)) ?raw
        (SSEParser_new\<lparr>sp_FirstLine := False\<rparr>, ?r) = (p, c)"
      using F fold_ProcessLine_new [OF False, of "Some rec_callbacks" ?r] n by simp
    from sim_stream [OF sim_init within_cap_messages [OF assms(1)] this]
    have "rec_log c = ss_Log (SpecStream reply [] ?raw spec_init)" .
    also have "\<dots> = expected None ms"
      using SpecStream_messages [OF assms(1), of spec_init reply] rep by (simp add: spec_init_def)
    finally show ?thesis using T by simp
  qed
qed

text \<open>
  C10. Round trip: whatever list of messages a server encodes, the callback gets exactly one event
  per message, with its name (\<open>message\<close> when absent), its payload lines joined with newlines,
  its id, and the last id seen as the resume position.
\<close>
theorem messages_roundtrip:
  assumes "list_all msg_ok ms"
  shows "Transcript (\<lambda>_ _. True) (text_of_lines (concat (map message_lines ms))) = expected None ms"
  by (rule messages_transcript [OF assms]) simp

theorem messages_roundtrip_witness:
  "Transcript (\<lambda>_ _. True)
     (text_of_lines (concat (map message_lines
        [\<lparr>msg_Name = ''tick'', msg_Id = Some ''5'', msg_Data = [''a'', '' b'']\<rparr>]))) =
   [CallEvent \<lparr>pe_Event = ''tick'', pe_Data = ''a'' @ [LF] @ '' b'', pe_Id = ''5'',
      pe_LastEventId = Some ''5''\<rparr> True]"
proof -
  let ?ms = "[\<lparr>msg_Name = ''tick'', msg_Id = Some ''5'', msg_Data = [''a'', '' b'']\<rparr>]"
  have "list_all msg_ok ?ms" by (simp add: msg_ok_def clean_def SSE_PARSER_MAX_BUFFER_def)
  from messages_roundtrip [OF this] show ?thesis by (simp add: or_else_def)
qed

section \<open>NUL bytes\<close>

text \<open>
  A payload with a NUL byte, which is valid UTF-8, does not survive: the event carries the
  C string \<open>m_Data.c_str()\<close>, so everything from the first NUL on is lost.
\<close>
theorem nul_payload_truncated:
  "Transcript (\<lambda>_ _. True) (text_of_lines [''data: a'' @ [NUL] @ ''b'', []]) =
     [CallEvent \<lparr>pe_Event = ''message'', pe_Data = ''a'', pe_Id = [], pe_LastEventId = None\<rparr> True]"
  by code_simp

end
