(* ===== verification/CoreRefinement.thy ===== *)
theory CoreRefinement
  imports ExtensionMain DesktopProps ParserRoundtrip
begin

text \<open>
  The parser, the desktop worker's callbacks and the core together. The abstract view of a stream is its
  transcript: a list of calls. Its effect on the core is a burst of events pushed into the queue and one
  commit of the last resume position; the bytes, fed through the callbacks into the core one by
  one, refine that.
\<close>

section \<open>The abstract effect of a transcript\<close>

text \<open>The events that a transcript offers to the queue; errors carry the delay valid at that time.\<close>

fun offers :: "int \<Rightarrow> bool \<Rightarrow> int \<Rightarrow> call list \<Rightarrow> SSEEvent list" where
  "offers h rc ms [] = []"
| "offers h rc ms (CallEvent ev b # ks) =
     message_event h (Some (pe_Event ev)) (Some (pe_Data ev)) (Some (pe_Id ev)) # offers h rc ms ks"
| "offers h rc ms (CallRetry n # ks) = offers h rc n ks"
| "offers h rc ms (CallId i # ks) = offers h rc ms ks"
| "offers h rc ms (CallError m # ks) = error_event h (Some m) 0 rc ms # offers h rc ms ks"

fun last_retry :: "int \<Rightarrow> call list \<Rightarrow> int" where
  "last_retry ms [] = ms"
| "last_retry ms (CallRetry n # ks) = last_retry n ks"
| "last_retry ms (_ # ks) = last_retry ms ks"

text \<open>The resume position a transcript commits last.\<close>

fun commit :: "string option \<Rightarrow> call \<Rightarrow> string option" where
  "commit i (CallId j) = Some j"
| "commit i (CallEvent ev b) = (if b \<and> pe_LastEventId ev \<noteq> None then pe_LastEventId ev else i)"
| "commit i _ = i"

definition commits :: "call list \<Rightarrow> string option" where
  "commits ks = foldl commit None ks"

definition settle :: "int \<Rightarrow> string option \<Rightarrow> 'w sse \<Rightarrow> 'w sse option" where
  "settle h i s = (case i of None \<Rightarrow> Some s | Some j \<Rightarrow> SSE_SetLastEventId h (Some j) s)"

text \<open>What the queue answers to the next event after a transcript.\<close>

definition core_reply :: "'a desktop_scheme \<Rightarrow> 'w sse \<Rightarrow> call list \<Rightarrow> parsed_event \<Rightarrow> bool" where
  "core_reply d s ks ev =
     fst (SSE_EnqueueMessage (dk_Handle d) (Some (pe_Event ev)) (Some (pe_Data ev)) (Some (pe_Id ev))
       (push_all (offers (dk_Handle d) (dk_Reconnect d) (dk_RetryMS d) ks) s))"

lemma offers_append: "offers h rc ms (xs @ ys) = offers h rc ms xs @ offers h rc (last_retry ms xs) ys"
  by (induction h rc ms xs rule: offers.induct) auto

lemma last_retry_append: "last_retry ms (xs @ ys) = last_retry (last_retry ms xs) ys"
  by (induction ms xs rule: last_retry.induct) auto

lemma commits_snoc [simp]: "commits [] = None" "commits (xs @ [k]) = commit (commits xs) k"
  by (simp_all add: commits_def)

lemma push_all_append: "push_all (xs @ ys) s = push_all ys (push_all xs s)"
  by (induction xs arbitrary: s) auto

lemma push_all_wf: "sse_ok D s \<Longrightarrow> sse_ok D (push_all es s)"
  by (induction es arbitrary: s) (auto intro: wf_push)

section \<open>Committing and pushing are independent\<close>

lemma find_conn_update:
  "h a = Some c \<Longrightarrow> cn_Handle c' = cn_Handle c \<Longrightarrow> find_conn (h(a \<mapsto> c')) i xs = find_conn h i xs"
  by (induction xs) (auto split: option.split)

definition set_id :: "string option \<Rightarrow> SSEConnection \<Rightarrow> SSEConnection" where
  "set_id v c = c\<lparr>cn_LastEventId := SSE_StrDup (Some (case v of None \<Rightarrow> '''' | Some x \<Rightarrow> x))\<rparr>"

lemma set_id_simps [simp]: "cn_Handle (set_id v c) = cn_Handle c" "set_id w (set_id v c) = set_id w c"
  by (simp_all add: set_id_def)

lemma SetLastEventId_compute:
  "\<not> g_Active s \<Longrightarrow> SSE_SetLastEventId h v s = Some s"
  "SSE_FindConnectionNoLock h s = Some None \<Longrightarrow> SSE_SetLastEventId h v s = Some s"
  "g_Active s \<Longrightarrow> SSE_FindConnectionNoLock h s = Some (Some a) \<Longrightarrow> g_Heap s a = Some c \<Longrightarrow>
     SSE_SetLastEventId h v s = Some (s\<lparr>g_Heap := (g_Heap s)(a \<mapsto> set_id v c)\<rparr>)"
  by (simp_all add: SSE_SetLastEventId_def modify_def deref_def set_id_def)

lemma SetLastEventId_cases:
  assumes "SSE_SetLastEventId h v s = Some t"
  obtains (off) "\<not> g_Active s" "t = s"
  | (missing) "SSE_FindConnectionNoLock h s = Some None" "t = s"
  | (found) a c where "g_Active s" "SSE_FindConnectionNoLock h s = Some (Some a)" "g_Heap s a = Some c"
      "t = s\<lparr>g_Heap := (g_Heap s)(a \<mapsto> set_id v c)\<rparr>"
proof (cases "g_Active s")
  case False
  then have "t = s" using assms by (simp add: SetLastEventId_compute(1))
  with False show ?thesis by (rule off)
next
  case True
  show ?thesis
  proof (cases "SSE_FindConnectionNoLock h s")
    case None
    with True assms show ?thesis by (simp add: SSE_SetLastEventId_def)
  next
    case (Some r)
    show ?thesis
    proof (cases r)
      case None
      with Some have f: "SSE_FindConnectionNoLock h s = Some None" by simp
      then have "t = s" using assms by (simp add: SetLastEventId_compute(2))
      with f show ?thesis by (rule missing)
    next
      case (Some a)
      with \<open>SSE_FindConnectionNoLock h s = Some r\<close>
      have f: "SSE_FindConnectionNoLock h s = Some (Some a)" by simp
      then obtain c where c: "g_Heap s a = Some c"
        using True assms by (auto simp: SSE_SetLastEventId_def modify_def deref_def bind_eq_Some_conv)
      then have "t = s\<lparr>g_Heap := (g_Heap s)(a \<mapsto> set_id v c)\<rparr>"
        using assms SetLastEventId_compute(3) [OF True f c, of v] by simp
      with True f c show ?thesis by (rule found)
    qed
  qed
qed

lemma SetLastEventId_again:
  assumes "SSE_SetLastEventId h v s = Some t"
  shows "SSE_SetLastEventId h w t = SSE_SetLastEventId h w s"
using assms
proof (cases rule: SetLastEventId_cases)
  case (found a c)
  then have f: "SSE_FindConnectionNoLock h t = Some (Some a)"
    by (simp add: SSE_FindConnectionNoLock_def find_conn_update)
  from found have g: "g_Active t" "g_Heap t a = Some (set_id v c)" by simp_all
  from SetLastEventId_compute(3) [OF g(1) f g(2), of w]
    SetLastEventId_compute(3) [OF found(1-3), of w] found(4) show ?thesis by simp
qed simp_all

lemma Push_find [simp]: "SSE_FindConnectionNoLock h (snd (SSE_QueuePush ev s)) = SSE_FindConnectionNoLock h s"
  by (simp add: SSE_FindConnectionNoLock_def)

lemma Push_heap:
  "SSE_QueuePush ev (s\<lparr>g_Heap := hp\<rparr>) = (fst (SSE_QueuePush ev s), (snd (SSE_QueuePush ev s))\<lparr>g_Heap := hp\<rparr>)"
  by (simp add: queue_defs)

lemma Push_SetLastEventId:
  assumes "SSE_SetLastEventId h v s = Some t"
  shows "fst (SSE_QueuePush ev t) = fst (SSE_QueuePush ev s)"
    and "SSE_SetLastEventId h v (snd (SSE_QueuePush ev s)) = Some (snd (SSE_QueuePush ev t))"
proof -
  show "fst (SSE_QueuePush ev t) = fst (SSE_QueuePush ev s)"
    using assms by (cases rule: SetLastEventId_cases) (simp_all add: Push_heap)
  show "SSE_SetLastEventId h v (snd (SSE_QueuePush ev s)) = Some (snd (SSE_QueuePush ev t))"
  using assms
proof (cases rule: SetLastEventId_cases)
    case off
    then show ?thesis by (simp add: SetLastEventId_compute(1))
  next
    case missing
    then show ?thesis by (simp add: SetLastEventId_compute(2))
  next
    case (found a c)
    then show ?thesis by (simp add: SetLastEventId_compute(3) [of _ h a c] Push_heap)
  qed
qed

lemma settle_push:
  assumes "settle h i s = Some t"
  shows "fst (SSE_QueuePush ev t) = fst (SSE_QueuePush ev s)"
    and "settle h i (snd (SSE_QueuePush ev s)) = Some (snd (SSE_QueuePush ev t))"
  using assms Push_SetLastEventId [of h i s t ev] by (auto simp: settle_def split: option.splits)

lemma settle_again:
  assumes "settle h i s = Some t"
  shows "SSE_SetLastEventId h (Some j) t = settle h (Some j) s"
  using assms SetLastEventId_again [of h i s t] by (auto simp: settle_def split: option.splits)

lemma settle_wf: "sse_ok D s \<Longrightarrow> \<exists>t. settle h i s = Some t \<and> sse_ok D t"
  using SetLastEventId_wf by (auto simp: settle_def split: option.split)

section \<open>The refinement\<close>

text \<open>The worker and the core after a transcript.\<close>

definition after :: "'a desktop_scheme \<Rightarrow> 'w sse \<Rightarrow> call list \<Rightarrow> 'a desktop_scheme \<times> 'w sse option" where
  "after d s ks =
     (d\<lparr>dk_RetryMS := last_retry (dk_RetryMS d) ks,
        dk_LastEventId := (case commits ks of None \<Rightarrow> dk_LastEventId d | Some i \<Rightarrow> Some (c_str i))\<rparr>,
      settle (dk_Handle d) (commits ks)
        (push_all (offers (dk_Handle d) (dk_Reconnect d) (dk_RetryMS d) ks) s))"

definition tracks :: "'a desktop_scheme \<Rightarrow> 'w sse \<Rightarrow> recorder \<Rightarrow> 'a desktop_scheme \<times> 'w sse option \<Rightarrow> bool" where
  "tracks d s r c \<longleftrightarrow> sse_ok {} s \<and> rec_reply r = core_reply d s \<and> c = after d s (rec_log r)"

lemma core_api_sel [simp]:
  "api_EnqueueMessage core_api h n d i (Some s) = (case SSE_EnqueueMessage h n d i s of (b, t) \<Rightarrow> (b, Some t))"
  "api_EnqueueError core_api h m st rc ms (Some s) = Some (SSE_EnqueueError h m st rc ms s)"
  "api_SetLastEventId core_api h v (Some s) = SSE_SetLastEventId h v s"
  "api_EnqueueOpen core_api h st (Some s) = SSE_EnqueueOpen h st s"
  by (simp_all add: core_api_def)

lemma after_snoc:
  assumes "sse_ok {} s"
  obtains t where "settle (dk_Handle d) (commits ks)
      (push_all (offers (dk_Handle d) (dk_Reconnect d) (dk_RetryMS d) ks) s) = Some t"
  using settle_wf [OF push_all_wf [OF assms]] by blast

lemma tracks_event:
  assumes "tracks d s r c" and "fire_event (Some rec_callbacks) r ev = (b, r1)"
    and "fire_event (Some (desktop_callbacks core_api)) c ev = (b', c1)"
  shows "b = b' \<and> tracks d s r1 c1"
proof -
  let ?ks = "rec_log r" and ?h = "dk_Handle d"
  let ?u = "push_all (offers ?h (dk_Reconnect d) (dk_RetryMS d) ?ks) s"
  let ?ev = "message_event ?h (Some (pe_Event ev)) (Some (pe_Data ev)) (Some (pe_Id ev))"
  have ok: "sse_ok {} s" and rp: "rec_reply r = core_reply d s" and c: "c = after d s ?ks"
    using assms(1) by (simp_all add: tracks_def)
  obtain t where t: "settle ?h (commits ?ks) ?u = Some t" using after_snoc [OF ok] .
  have b: "b = fst (SSE_QueuePush ?ev ?u)" and r1: "r1 = record_call r (CallEvent ev b)"
    using assms(2) by (auto simp: rp core_reply_def SSE_EnqueueMessage_def Let_def)
  obtain b2 t2 where q: "SSE_QueuePush ?ev t = (b2, t2)" by fastforce
  with settle_push [OF t, of ?ev] b have b2: "b2 = b"
    and t2: "settle ?h (commits ?ks) (snd (SSE_QueuePush ?ev ?u)) = Some t2" by simp_all
  have ks1: "rec_log r1 = ?ks @ [CallEvent ev b]" "rec_reply r1 = core_reply d s"
    by (simp_all add: r1 rp record_call_def)
  have u1: "push_all (offers ?h (dk_Reconnect d) (dk_RetryMS d) (rec_log r1)) s = snd (SSE_QueuePush ?ev ?u)"
    by (simp add: ks1 offers_append push_all_append)
  have "b' = b \<and> c1 = after d s (rec_log r1)"
  proof (cases "b \<and> pe_LastEventId ev \<noteq> None")
    case True
    then obtain i where i: "pe_LastEventId ev = Some i" by auto
    with True b2 q assms(3) c t have "b' = b" "c1 = (d\<lparr>dk_RetryMS := last_retry (dk_RetryMS d) ?ks,
        dk_LastEventId := Some (c_str i)\<rparr>, SSE_SetLastEventId ?h (Some i) t2)"
      by (auto simp: after_def SSEDesktop_OnParserEvent_def SSE_EnqueueMessage_def
          SSEDesktop_SetString_def SSE_StrDup_def)
    with True i settle_again [OF t2] u1 show ?thesis
      by (simp add: after_def ks1 last_retry_append)
  next
    case False
    then have "b' = b" "c1 = (fst c, Some t2)"
      using b2 q assms(3) c t
      by (auto simp: after_def SSEDesktop_OnParserEvent_def SSE_EnqueueMessage_def split: option.splits)
    moreover have "commits (rec_log r1) = commits ?ks" using False by (auto simp: ks1)
    ultimately show ?thesis using u1 t2 c by (simp add: after_def ks1 last_retry_append)
  qed
  with ok ks1(2) show ?thesis by (simp add: tracks_def)
qed

interpretation core: parser_pair rec_callbacks "desktop_callbacks core_api" "tracks d s" for d s
proof (unfold_locales, goal_cases)
  case (1 r c ev b r1 b' c1)
  then show ?case by (rule tracks_event)
next
  case (2 r c i)
  then have ok: "sse_ok {} s" and rp: "rec_reply r = core_reply d s" and c: "c = after d s (rec_log r)"
    by (simp_all add: tracks_def)
  obtain t where t: "settle (dk_Handle d) (commits (rec_log r))
      (push_all (offers (dk_Handle d) (dk_Reconnect d) (dk_RetryMS d) (rec_log r)) s) = Some t"
    using after_snoc [OF ok] .
  with settle_again [OF t, of i] ok rp c show ?case
    by (simp add: tracks_def after_def SSEDesktop_OnParserId_def SSEDesktop_SetString_def SSE_StrDup_def
        record_call_def offers_append last_retry_append)
next
  case (3 r c n)
  then show ?case
    by (simp add: tracks_def after_def SSEDesktop_OnParserRetry_def record_call_def offers_append last_retry_append)
next
  case (4 r c m)
  then have ok: "sse_ok {} s" and rp: "rec_reply r = core_reply d s" and c: "c = after d s (rec_log r)"
    by (simp_all add: tracks_def)
  obtain t where t: "settle (dk_Handle d) (commits (rec_log r))
      (push_all (offers (dk_Handle d) (dk_Reconnect d) (dk_RetryMS d) (rec_log r)) s) = Some t"
    using after_snoc [OF ok] .
  with settle_push(2) [OF t] ok rp c show ?case
    by (simp add: tracks_def after_def SSEDesktop_OnParserError_def SSE_EnqueueError_def
        record_call_def offers_append last_retry_append push_all_append)
qed

lemma core_refines:
  assumes "sse_ok {} s" and "dk_Parser d = SSEParser_new"
  shows "\<exists>p d' s'. FeedParser core_api bytes (d, Some s) = (d'\<lparr>dk_Parser := p\<rparr>, Some s')
     \<and> (d', Some s') = after d s (Transcript (core_reply d s) bytes)"
proof -
  let ?r = "\<lparr>rec_log = [], rec_reply = core_reply d s\<rparr>"
  obtain p1 r1 where 1: "Feed (Some rec_callbacks) bytes (SSEParser_new, ?r) = (p1, r1)" by fastforce
  obtain p2 d2 e2 where 2: "Feed (Some (desktop_callbacks core_api)) bytes (SSEParser_new, d, Some s) = (p2, d2, e2)"
    by (metis prod_cases3)
  have "tracks d s ?r (d, Some s)" using assms(1) by (simp add: tracks_def after_def settle_def)
  from core.Feed_pair [OF this 1 2] have "(d2, e2) = after d s (rec_log r1)" by (simp add: tracks_def)
  moreover have "rec_log r1 = Transcript (core_reply d s) bytes" using 1 by (simp add: Transcript_def)
  moreover obtain t where "snd (after d s (rec_log r1)) = Some t"
    using after_snoc [OF assms(1), of d "rec_log r1"] by (auto simp: after_def)
  ultimately show ?thesis
    using FeedParser_eq [of core_api bytes d "Some s" p2 d2 e2] 2 assms(2)
    by (intro exI [of _ p2] exI [of _ d2] exI [of _ t]) (metis snd_conv)
qed

text \<open>
  C2. Refinement: feeding any bytes of a fresh stream attempt through the worker's callbacks into the core has exactly
  the effect of the stream's transcript: its events and errors pushed into the queue in order as one
  burst, its last committed resume position stored at the worker and at the connection alike, and
  its last reconnect delay. No dangling pointer is followed.
\<close>
theorem core_refines_transcript:
  assumes "sse_ok {} s" and "dk_Parser d = SSEParser_new"
  shows "\<exists>p d' s'. FeedParser core_api bytes (d, Some s) = (d'\<lparr>dk_Parser := p\<rparr>, Some s')
     \<and> (d', Some s') = after d s (Transcript (core_reply d s) bytes)"
  by (rule core_refines [OF assms])

end
