(* ===== verification/DmUrl.thy ===== *)
theory DmUrl
  imports DmPlatform
begin

text \<open>
  URLs and requests of the Linux transport (\<open>sse_connection_pool_impl.h\<close>): splitting a
  URL into host, port and path, and writing the HTTP request. A \<open>const char*\<close> or
  \<open>std::string\<close> is a string; a failure is the error text the C++ code prints.
\<close>

section \<open>Strings\<close>

definition find_first_of :: "string \<Rightarrow> string \<Rightarrow> nat option" where
  "find_first_of cs s =
     (let i = length (takeWhile (\<lambda>c. c \<notin> set cs) s) in if i < length s then Some i else None)"

definition rfind_char :: "char \<Rightarrow> string \<Rightarrow> nat option" where
  "rfind_char c s = map_option (\<lambda>i. length s - Suc i) (find_char c (rev s))"

definition SSEDM_HasControlChars :: "string option \<Rightarrow> bool" where
  "SSEDM_HasControlChars v =
     (case v of None \<Rightarrow> False | Some s \<Rightarrow> list_ex (\<lambda>c. c = CR \<or> c = LF) (c_str s))"

definition SSEDM_LowerASCII :: "string \<Rightarrow> string" where
  "SSEDM_LowerASCII s = map tolower s"

section \<open>URLs\<close>

record SSEDMUrl =
  du_Host :: string
  du_Path :: string
  du_HostHeader :: string
  du_Port :: int
  du_Secure :: bool

definition SSEDM_IsDefaultPort :: "SSEDMUrl \<Rightarrow> bool" where
  "SSEDM_IsDefaultPort u \<longleftrightarrow> \<not> du_Secure u \<and> du_Port u = 80 \<or> du_Secure u \<and> du_Port u = 443"

definition SSEDM_ParsePort :: "string \<Rightarrow> int option" where
  "SSEDM_ParsePort port =
     (if port = [] then None
      else case strtol LONG_MAX port of (parsed, erange, rest) \<Rightarrow>
        if erange \<or> rest \<noteq> [] \<or> parsed \<le> 0 \<or> parsed > 65535 then None else Some parsed)"

text \<open>The scheme: the port it implies and whether it is secure.\<close>

definition ParseScheme :: "string \<Rightarrow> string + int \<times> bool" where
  "ParseScheme s =
     (if SSEDM_LowerASCII s = ''http'' then Inr (80, False)
      else if SSEDM_LowerASCII s = ''https'' then Inr (443, True)
      else Inl ''SSE URL must use http or https'')"

definition DropFragment :: "string \<Rightarrow> string" where
  "DropFragment path = (case find_char CHR ''#'' path of None \<Rightarrow> path | Some f \<Rightarrow> take f path)"

text \<open>Authority and path of what follows the scheme.\<close>

definition SplitPath :: "string \<Rightarrow> string \<times> string" where
  "SplitPath rest =
     (let (authority, path) =
        (case find_first_of ''/?#'' rest of None \<Rightarrow> (rest, ''/'')
         | Some i \<Rightarrow> (take i rest, if rest ! i = CHR ''/'' then drop i rest else ''/'' @ drop i rest));
          path1 = DropFragment path
      in (authority, if path1 = [] then ''/'' else path1))"

definition ParseAuthority :: "string \<Rightarrow> int \<Rightarrow> string + string \<times> int" where
  "ParseAuthority a port =
     (if a = [] \<or> find_char CHR ''@'' a \<noteq> None then Inl ''SSE URL host is invalid''
      else if hd a = CHR ''['' then
        (case find_char CHR '']'' a of None \<Rightarrow> Inl ''SSE URL IPv6 host is invalid''
         | Some e \<Rightarrow>
             if e = 1 then Inl ''SSE URL IPv6 host is invalid''
             else let host = take (e - 1) (drop 1 a)
               in if e + 1 < length a then
                    (if a ! (e + 1) \<noteq> CHR '':'' then Inl ''SSE URL host is invalid''
                     else case SSEDM_ParsePort (drop (e + 2) a) of
                         None \<Rightarrow> Inl ''SSE URL port is invalid'' | Some p \<Rightarrow> Inr (host, p))
                  else Inr (host, port))
      else case find_char CHR '':'' a of None \<Rightarrow> Inr (a, port)
        | Some i \<Rightarrow>
            if rfind_char CHR '':'' a = Some i then
              (case SSEDM_ParsePort (drop (i + 1) a) of
                 None \<Rightarrow> Inl ''SSE URL port is invalid'' | Some p \<Rightarrow> Inr (take i a, p))
            else Inr (a, port))"

definition SSEDM_ParseUrl :: "string option \<Rightarrow> string + SSEDMUrl" where
  "SSEDM_ParseUrl url =
     (if url = None \<or> url = Some [] then Inl ''SSE URL is empty''
      else let value = c_str (the url) in
        if value = [] then Inl ''SSE URL is empty''
        else case find_str ''://'' value of
          None \<Rightarrow> Inl ''SSE URL must include http:// or https://''
        | Some scheme_end \<Rightarrow>
          (case ParseScheme (take scheme_end value) of Inl e \<Rightarrow> Inl e
           | Inr (default_port, secure) \<Rightarrow>
             (case SplitPath (drop (scheme_end + 3) value) of (authority, path) \<Rightarrow>
               (case ParseAuthority authority default_port of Inl e \<Rightarrow> Inl e
                | Inr (host, port) \<Rightarrow>
                    if host = [] then Inl ''SSE URL host is empty''
                    else let h = (if find_char CHR '':'' host \<noteq> None then ''['' @ host @ '']'' else host);
                             u = \<lparr>du_Host = host, du_Path = path, du_HostHeader = h,
                                  du_Port = port, du_Secure = secure\<rparr>
                      in Inr (if SSEDM_IsDefaultPort u then u
                              else u\<lparr>du_HostHeader := h @ '':'' @ dec_string (nat port)\<rparr>)))))"

section \<open>The request\<close>

abbreviation CRLF :: string where "CRLF \<equiv> [CR, LF]"

definition SSEDM_AppendHeader :: "string \<Rightarrow> string option \<Rightarrow> string option \<Rightarrow> string + string" where
  "SSEDM_AppendHeader request name value =
     (case (name, value) of
        (Some n, Some v) \<Rightarrow>
          if c_str n = [] \<or> SSEDM_HasControlChars name \<or> SSEDM_HasControlChars value
             \<or> CHR '':'' \<in> set (c_str n)
          then Inl ''invalid SSE request header''
          else Inr (request @ c_str n @ '': '' @ c_str v @ CRLF)
      | _ \<Rightarrow> Inr request)"

fun AppendHeaders :: "string \<Rightarrow> SSEHeader list \<Rightarrow> string + string" where
  "AppendHeaders request [] = Inr request"
| "AppendHeaders request (h # hs) =
     (case SSEDM_AppendHeader request (Some (hd_Name h)) (Some (hd_Value h)) of
        Inl e \<Rightarrow> Inl e | Inr r \<Rightarrow> AppendHeaders r hs)"

definition SSEDM_BuildRequest :: "SSEDesktopConnection \<Rightarrow> SSEDMUrl \<Rightarrow> string + string" where
  "SSEDM_BuildRequest d u =
     (let request = ''GET '' @ du_Path u @ '' HTTP/1.1'' @ CRLF
        @ ''Host: '' @ du_HostHeader u @ CRLF
        @ ''Accept: text/event-stream'' @ CRLF
        @ ''Cache-Control: no-cache'' @ CRLF
        @ ''Connection: keep-alive'' @ CRLF
        @ ''User-Agent: defold-extension-sse/0.2'' @ CRLF
      in case AppendHeaders request (dk_Headers d) of Inl e \<Rightarrow> Inl e
         | Inr r \<Rightarrow>
            (case (case dk_LastEventId d of
                     Some i \<Rightarrow> if c_str i = [] then Inr r
                       else SSEDM_AppendHeader r (Some ''Last-Event-ID'') (Some i)
                   | None \<Rightarrow> Inr r) of
               Inl e \<Rightarrow> Inl e | Inr r1 \<Rightarrow> Inr (r1 @ CRLF)))"

end
