(* ===== verification/DmUrlProps.thy ===== *)
theory DmUrlProps
  imports DmUrl
begin

text \<open>
  What the URL parser accepts and what reaches the wire: soundness of the parsed parts, a
  round trip from parts to URL and back, and the exact lines of the request.
\<close>

section \<open>Decimal numbers\<close>

lemma digit_char_val: "n < 10 \<Longrightarrow> isdigit (digit_char n) \<and> digit_val (digit_char n) = n"
  by (simp add: digit_char_def isdigit_def digit_val_def)

lemma digits_val_append: "digits_val (s @ [c]) = 10 * digits_val s + digit_val c"
  by (simp add: digits_val_def)

lemma dec_string_ok:
  "dec_string n \<noteq> [] \<and> (\<forall>c \<in> set (dec_string n). isdigit c) \<and> digits_val (dec_string n) = n"
proof (induction n rule: dec_string.induct)
  case (1 n)
  show ?case
  proof (cases "n < 10")
    case True
    then show ?thesis using digit_char_val [of n] by (subst (1 2 3) dec_string.simps) (simp add: digits_val_def)
  next
    case False
    then have IH: "dec_string (n div 10) \<noteq> []" "\<forall>c \<in> set (dec_string (n div 10)). isdigit c"
      "digits_val (dec_string (n div 10)) = n div 10" using 1 by auto
    have "n mod 10 < 10" by simp
    from digit_char_val [OF this] IH False show ?thesis
      by (subst (1 2 3) dec_string.simps) (simp add: digits_val_append)
  qed
qed

lemma ParsePort_dec: "0 < n \<Longrightarrow> n \<le> 65535 \<Longrightarrow> SSEDM_ParsePort (dec_string n) = Some (int n)"
  using dec_string_ok [of n] by (simp add: SSEDM_ParsePort_def strtol_digits LONG_MAX_def)

lemma ParsePort_range: "SSEDM_ParsePort s = Some p \<Longrightarrow> 1 \<le> p \<and> p \<le> 65535"
  by (auto simp: SSEDM_ParsePort_def split: if_splits prod.splits)

lemma isdigit_plain: "isdigit c \<Longrightarrow> c \<notin> {CHR '':'', CHR ''/'', CHR ''?'', CHR ''#'', CHR ''@'', CHR '']'', NUL, LF, CR}"
  by (auto simp: isdigit_def)

section \<open>Splitting\<close>

lemma takeWhile_shorter: "length (takeWhile P s) < length s \<longleftrightarrow> (\<exists>x \<in> set s. \<not> P x)"
  by (induction s) auto

lemma find_first_of_None: "find_first_of cs s = None \<longleftrightarrow> (\<forall>x \<in> set s. x \<notin> set cs)"
  by (auto simp: find_first_of_def Let_def takeWhile_shorter)

lemma find_first_of_at:
  assumes "\<forall>x \<in> set u. x \<notin> set cs" and "c \<in> set cs"
  shows "find_first_of cs (u @ c # v) = Some (length u)"
proof -
  have "takeWhile (\<lambda>x. x \<notin> set cs) (u @ c # v) = u" using assms by (simp add: takeWhile_tail)
  then show ?thesis by (simp add: find_first_of_def)
qed

lemma find_first_of_Some:
  assumes "find_first_of cs s = Some i"
  shows "i < length s \<and> s ! i \<in> set cs \<and> (\<forall>c \<in> set (take i s). c \<notin> set cs)"
proof -
  let ?P = "\<lambda>c. c \<notin> set cs"
  have i: "i = length (takeWhile ?P s)" and l: "length (takeWhile ?P s) < length s"
    using assms by (auto simp: find_first_of_def Let_def split: if_splits)
  have "s ! i \<in> set cs" using nth_length_takeWhile [OF l] unfolding i by simp
  moreover have "take i s = takeWhile ?P s" unfolding i by (rule takeWhile_eq_take [symmetric])
  then have "\<forall>c \<in> set (take i s). c \<notin> set cs" by (auto dest: set_takeWhileD)
  ultimately show ?thesis using i l by blast
qed

lemma find_char_append_Some: "find_char c (u @ c # v) = Some i \<Longrightarrow> c \<notin> set u \<Longrightarrow> i = length u"
  by simp

lemma rfind_only: "c \<notin> set u \<Longrightarrow> c \<notin> set v \<Longrightarrow> rfind_char c (u @ c # v) = Some (length u)"
  by (simp add: rfind_char_def)

lemma DropFragment_cut:
  assumes "CHR ''#'' \<notin> set u" and "w = [] \<or> hd w = CHR ''#''"
  shows "DropFragment (u @ w) = u"
proof (cases w)
  case Nil
  have "find_char CHR ''#'' u = None" using assms(1) by simp
  with Nil show ?thesis by (simp add: DropFragment_def del: find_char_None)
next
  case (Cons c v)
  then have "w = CHR ''#'' # v" using assms(2) by simp
  with assms(1) show ?thesis by (simp add: DropFragment_def)
qed

lemma DropFragment_prefix:
  "\<exists>v. p = DropFragment p @ v \<and> (v = [] \<or> hd v = CHR ''#'') \<and> CHR ''#'' \<notin> set (DropFragment p)"
proof (cases "find_char CHR ''#'' p")
  case None
  then have "DropFragment p = p" "CHR ''#'' \<notin> set p" by (simp_all add: DropFragment_def del: find_char_None)
    (use None in simp)
  then show ?thesis by simp
next
  case (Some f)
  then obtain u v where "p = u @ CHR ''#'' # v" "CHR ''#'' \<notin> set u" by (auto simp: find_char_Some_split)
  with DropFragment_cut [of u "CHR ''#'' # v"] show ?thesis by auto
qed

lemma SplitPath_sound:
  assumes "SplitPath rest = (a, p)"
  shows "(\<exists>q. p = CHR ''/'' # q) \<and> CHR ''#'' \<notin> set p \<and> (\<forall>c \<in> set a. c \<notin> set ''/?#'')
     \<and> set a \<subseteq> set rest \<and> set p \<subseteq> insert CHR ''/'' (set rest)"
proof -
  obtain a0 p0 where split: "(case find_first_of ''/?#'' rest of None \<Rightarrow> (rest, ''/'')
      | Some i \<Rightarrow> (take i rest, if rest ! i = CHR ''/'' then drop i rest else ''/'' @ drop i rest)) = (a0, p0)"
    by fastforce
  have parts: "(\<exists>q. p0 = CHR ''/'' # q) \<and> (\<forall>c \<in> set a0. c \<notin> set ''/?#'')
      \<and> set a0 \<subseteq> set rest \<and> set p0 \<subseteq> insert CHR ''/'' (set rest)"
  proof (cases "find_first_of ''/?#'' rest")
    case None
    have "\<forall>c \<in> set rest. c \<notin> set ''/?#''" using None unfolding find_first_of_None .
    moreover have "a0 = rest" "p0 = [CHR ''/'']" using split None by simp_all
    ultimately show ?thesis by simp
  next
    case (Some i)
    from find_first_of_Some [OF Some] have i: "i < length rest" "\<forall>c \<in> set (take i rest). c \<notin> set ''/?#''" by auto
    have "drop i rest = rest ! i # drop (Suc i) rest" using i(1) by (simp add: Cons_nth_drop_Suc)
    then have "\<exists>q. p0 = CHR ''/'' # q" "set p0 \<subseteq> insert CHR ''/'' (set (drop i rest))"
      using split Some by (auto split: if_splits)
    moreover have "a0 = take i rest" using split Some by simp
    ultimately show ?thesis
      using i(2) set_drop_subset [of i rest] set_take_subset [of i rest] by blast
  qed
  then have a0: "\<forall>c \<in> set a0. c \<notin> set ''/?#''" "set a0 \<subseteq> set rest"
    and sub: "set p0 \<subseteq> insert CHR ''/'' (set rest)" by blast+
  from parts obtain q where q: "p0 = CHR ''/'' # q" by blast
  have p: "a = a0 \<and> p = (if DropFragment p0 = [] then ''/'' else DropFragment p0)"
    using assms split by (simp add: SplitPath_def Let_def)
  from DropFragment_prefix [of p0] obtain v where v: "p0 = DropFragment p0 @ v" "v = [] \<or> hd v = CHR ''#''"
    "CHR ''#'' \<notin> set (DropFragment p0)" by blast
  obtain r where r: "DropFragment p0 = CHR ''/'' # r"
    using v q by (cases "DropFragment p0") auto
  have "set (DropFragment p0) \<subseteq> set p0" using v(1) by (metis Un_upper1 set_append)
  then show ?thesis using p r a0 sub v(3) by simp blast
qed

lemma ParseAuthority_sound:
  assumes "ParseAuthority a p0 = Inr (h, p)" and "1 \<le> p0" and "p0 \<le> 65535"
  shows "set h \<subseteq> set a \<and> CHR ''@'' \<notin> set a \<and> 1 \<le> p \<and> p \<le> 65535"
proof -
  have at: "CHR ''@'' \<notin> set a" and ne: "a \<noteq> []"
    using assms(1) by (auto simp: ParseAuthority_def split: if_splits)
  have sub: "set (take n (drop m a)) \<subseteq> set a" for n m
    by (meson order_trans set_drop_subset set_take_subset)
  show ?thesis
  proof (cases "hd a = CHR ''[''")
    case True
    with assms at ne sub [of _ 1] show ?thesis
      by (auto simp: ParseAuthority_def Let_def simp del: find_char_None
          split: if_splits option.splits dest: ParsePort_range)
  next
    case False
    with assms at ne show ?thesis
      by (auto simp: ParseAuthority_def Let_def simp del: find_char_None
          split: if_splits option.splits dest: ParsePort_range in_set_takeD)
  qed
qed

text \<open>The value of the \<open>Host\<close> header.\<close>

definition host_header :: "string \<Rightarrow> int \<Rightarrow> bool \<Rightarrow> string" where
  "host_header host port secure =
     (if CHR '':'' \<in> set host then ''['' @ host @ '']'' else host)
     @ (if port = (if secure then 443 else 80) then [] else '':'' @ dec_string (nat port))"

lemma ParseUrl_unfold:
  assumes "value = c_str url" and "find_str ''://'' value = Some i"
    and "ParseScheme (take i value) = Inr (p0, secure)"
    and "SplitPath (drop (i + 3) value) = (a, path)"
  shows "SSEDM_ParseUrl (Some url) = (case ParseAuthority a p0 of Inl e \<Rightarrow> Inl e
     | Inr (host, port) \<Rightarrow> if host = [] then Inl ''SSE URL host is empty''
         else Inr \<lparr>du_Host = host, du_Path = path, du_HostHeader = host_header host port secure,
           du_Port = port, du_Secure = secure\<rparr>)"
proof -
  have "value \<noteq> []" using assms(2) by auto
  then have "url \<noteq> []" using assms(1) by auto
  with \<open>value \<noteq> []\<close> show ?thesis
    using assms by (auto simp: SSEDM_ParseUrl_def Let_def host_header_def SSEDM_IsDefaultPort_def
        split: sum.split prod.split)
qed

lemma ParseScheme_port: "ParseScheme s = Inr (p, b) \<Longrightarrow> p = (if b then 443 else 80)"
  by (auto simp: ParseScheme_def split: if_splits)

text \<open>
  C36. Soundness of URL parsing: an accepted URL names a non-empty host without any delimiter, a port
  between 1 and 65535 and an absolute path without a fragment, all made of bytes of the URL, and
  the \<open>Host\<close> header is the host, bracketed when it is an IPv6 address, with the port
  exactly when it is not the scheme's own.
\<close>
theorem parse_url_sound:
  assumes "SSEDM_ParseUrl (Some url) = Inr u"
  shows "du_Host u \<noteq> [] \<and> (\<forall>c \<in> set (du_Host u). c \<notin> set ''/?#@'')
     \<and> (\<exists>q. du_Path u = CHR ''/'' # q) \<and> CHR ''#'' \<notin> set (du_Path u)
     \<and> 1 \<le> du_Port u \<and> du_Port u \<le> 65535
     \<and> set (du_Host u) \<union> set (du_Path u) \<subseteq> insert CHR ''/'' (set url)
     \<and> du_HostHeader u = host_header (du_Host u) (du_Port u) (du_Secure u)"
proof -
  define v where "v = c_str url"
  have vu: "set v \<subseteq> set url" by (auto simp: v_def c_str_def dest: set_takeWhileD)
  obtain i where i: "find_str ''://'' v = Some i"
    using assms by (auto simp: SSEDM_ParseUrl_def Let_def v_def split: if_splits option.splits)
  obtain p0 b where sch: "ParseScheme (take i v) = Inr (p0, b)"
    using assms i by (auto simp: SSEDM_ParseUrl_def Let_def v_def split: if_splits sum.splits)
  obtain a path where sp: "SplitPath (drop (i + 3) v) = (a, path)" by fastforce
  note un = ParseUrl_unfold [OF v_def i sch sp]
  obtain host port where au: "ParseAuthority a p0 = Inr (host, port)" and ne: "host \<noteq> []"
    and u: "u = \<lparr>du_Host = host, du_Path = path, du_HostHeader = host_header host port b,
      du_Port = port, du_Secure = b\<rparr>"
    using assms unfolding un by (auto split: sum.splits if_splits)
  have "1 \<le> p0" "p0 \<le> 65535" using ParseScheme_port [OF sch] by auto
  from ParseAuthority_sound [OF au this] have h: "set host \<subseteq> set a" "CHR ''@'' \<notin> set a"
    "1 \<le> port" "port \<le> 65535" by auto
  from SplitPath_sound [OF sp] have s: "\<exists>q. path = CHR ''/'' # q" "CHR ''#'' \<notin> set path"
    "\<forall>c \<in> set a. c \<notin> set ''/?#''" "set a \<subseteq> set (drop (i + 3) v)"
    "set path \<subseteq> insert CHR ''/'' (set (drop (i + 3) v))" by blast+
  have dv: "set (drop (i + 3) v) \<subseteq> set url" using vu set_drop_subset [of "i + 3" v] by blast
  have "\<forall>c \<in> set host. c \<notin> set ''/?#@''"
  proof
    fix c assume "c \<in> set host"
    with h(1) have "c \<in> set a" by blast
    with h(2) s(3) have "c \<noteq> CHR ''@''" "c \<notin> set ''/?#''" by auto
    then show "c \<notin> set ''/?#@''" by simp
  qed
  moreover have "set host \<union> set path \<subseteq> insert CHR ''/'' (set url)" using h(1) s(4,5) dv by blast
  ultimately show ?thesis using ne h(3,4) s(1,2) by (simp add: u)
qed

theorem parse_url_sound_witness:
  "\<exists>q. du_Path (projr (SSEDM_ParseUrl (Some ''https://[::1]:8443?q#f''))) = CHR ''/'' # q"
proof -
  have "SSEDM_ParseUrl (Some ''https://[::1]:8443?q#f'') =
      Inr (projr (SSEDM_ParseUrl (Some ''https://[::1]:8443?q#f'')))" by code_simp
  from parse_url_sound [OF this] show ?thesis by blast
qed

section \<open>Round trip\<close>

lemma find_str_scheme:
  "find_str ''://'' (''http://'' @ r) = Some 4" "find_str ''://'' (''https://'' @ r) = Some 5"
  by simp_all

text \<open>A URL put together from its parts; no port is the default one.\<close>

definition make_url :: "bool \<Rightarrow> string \<Rightarrow> nat option \<Rightarrow> string \<Rightarrow> string \<Rightarrow> string" where
  "make_url secure host port path fragment =
     (if secure then ''https://'' else ''http://'')
     @ (if CHR '':'' \<in> set host then ''['' @ host @ '']'' else host)
     @ (case port of None \<Rightarrow> [] | Some p \<Rightarrow> '':'' @ dec_string p) @ path @ fragment"

definition plain_host :: "string \<Rightarrow> bool" where
  "plain_host host \<longleftrightarrow> host \<noteq> [] \<and> (\<forall>c \<in> set host. c \<notin> set ''/?#@[]'' \<and> c \<noteq> NUL)"

definition plain_path :: "string \<Rightarrow> string \<Rightarrow> bool" where
  "plain_path path fragment \<longleftrightarrow> (path = [] \<or> hd path = CHR ''/'' \<or> hd path = CHR ''?'')
     \<and> (\<forall>c \<in> set path. c \<noteq> CHR ''#'' \<and> c \<noteq> NUL)
     \<and> (fragment = [] \<or> hd fragment = CHR ''#'') \<and> NUL \<notin> set fragment"

lemma SplitPath_make:
  assumes a: "\<forall>x \<in> set a. x \<notin> set ''/?#''" and p: "plain_path path fragment"
  shows "SplitPath (a @ path @ fragment) =
    (a, if path = [] then ''/'' else if hd path = CHR ''/'' then path else ''/'' @ path)"
proof -
  have frag: "fragment = [] \<or> hd fragment = CHR ''#''" and nh: "CHR ''#'' \<notin> set path"
    using p by (auto simp: plain_path_def)
  show ?thesis
  proof (cases path)
    case Nil
    show ?thesis
    proof (cases fragment)
      case Nil
      have "find_first_of ''/?#'' a = None" unfolding find_first_of_None by (rule a)
      then show ?thesis using \<open>path = []\<close> Nil DropFragment_cut [of "''/''" "[]"]
        by (simp add: SplitPath_def Let_def)
    next
      case (Cons c w)
      then have c: "c = CHR ''#''" using frag by simp
      have "find_first_of ''/?#'' (a @ c # w) = Some (length a)"
        by (rule find_first_of_at [OF a]) (simp add: c)
      then show ?thesis using \<open>path = []\<close> Cons c DropFragment_cut [of "''/''" fragment]
        by (simp add: SplitPath_def Let_def)
    qed
  next
    case (Cons c w)
    then have c: "c = CHR ''/'' \<or> c = CHR ''?''" using p by (auto simp: plain_path_def)
    have f: "find_first_of ''/?#'' (a @ path @ fragment) = Some (length a)"
      unfolding Cons append_Cons by (rule find_first_of_at [OF a]) (use c in auto)
    have nth: "(a @ path @ fragment) ! length a = c" "take (length a) (a @ path @ fragment) = a"
      "drop (length a) (a @ path @ fragment) = path @ fragment" "hd path = c" "path \<noteq> []"
      using Cons by simp_all
    show ?thesis
    proof (cases "c = CHR ''/''")
      case True
      with f nth DropFragment_cut [OF nh frag] show ?thesis by (simp add: SplitPath_def Let_def)
    next
      case False
      have "CHR ''#'' \<notin> set (''/'' @ path)" using nh by simp
      from False f nth DropFragment_cut [OF this frag] show ?thesis by (simp add: SplitPath_def Let_def)
    qed
  qed
qed

lemma ParseAuthority_make:
  assumes h: "plain_host host" and p: "case port of None \<Rightarrow> True | Some p \<Rightarrow> 0 < p \<and> p \<le> 65535"
  shows "ParseAuthority ((if CHR '':'' \<in> set host then ''['' @ host @ '']'' else host)
      @ (case port of None \<Rightarrow> [] | Some p \<Rightarrow> '':'' @ dec_string p)) p0
    = Inr (host, case port of None \<Rightarrow> p0 | Some p \<Rightarrow> int p)"
proof -
  let ?tail = "case port of None \<Rightarrow> [] | Some p \<Rightarrow> '':'' @ dec_string p"
  have ne: "host \<noteq> []" and at: "CHR ''@'' \<notin> set host" and br: "CHR '']'' \<notin> set host" "CHR ''['' \<notin> set host"
    using h by (auto simp: plain_host_def)
  have nt: "c \<notin> set (dec_string q)" if "\<not> isdigit c" for q c using dec_string_ok [of q] that by blast
  have at': "CHR ''@'' \<notin> set ?tail" using nt [of "CHR ''@''"] by (auto simp: isdigit_def split: option.split)
  show ?thesis
  proof (cases "CHR '':'' \<in> set host")
    case True
    have e: "find_char CHR '']'' (''['' @ host @ CHR '']'' # ?tail) = Some (Suc (length host))"
      using find_char_append [of "CHR '']''" "''['' @ host" ?tail] br by simp
    have d: "drop (length host + 3) (''['' @ host @ CHR '']'' # CHR '':'' # x) = x" for x
      by (simp add: eval_nat_numeral)
    show ?thesis
    proof (cases port)
      case None
      with True e at at' ne show ?thesis by (simp add: ParseAuthority_def)
    next
      case (Some q)
      then have "SSEDM_ParsePort (dec_string q) = Some (int q)" using p by (simp add: ParsePort_dec)
      with Some True e at at' ne show ?thesis by (simp add: ParseAuthority_def nth_append)
    qed
  next
    case False
    have hd: "hd host \<noteq> CHR ''[''" using ne br by (cases host) auto
    show ?thesis
    proof (cases port)
      case None
      have "find_char CHR '':'' host = None" using False by simp
      with None False at ne hd show ?thesis by (simp add: ParseAuthority_def del: find_char_None)
        (simp add: at)
    next
      case (Some q)
      have nc: "CHR '':'' \<notin> set (dec_string q)" by (rule nt) (simp add: isdigit_def)
      have "find_char CHR '':'' (host @ CHR '':'' # dec_string q) = Some (length host)" using False by simp
      moreover have "rfind_char CHR '':'' (host @ CHR '':'' # dec_string q) = Some (length host)"
        by (rule rfind_only [OF False nc])
      moreover have "SSEDM_ParsePort (dec_string q) = Some (int q)" using p Some by (simp add: ParsePort_dec)
      ultimately show ?thesis using Some False at at' ne hd by (simp add: ParseAuthority_def)
    qed
  qed
qed

text \<open>
  C35. Round trip: a URL put together from a scheme, a host name or IPv6 address, an optional port, a
  path or query and a fragment is parsed into exactly these parts: the fragment is dropped, an
  absent path becomes the root, an absent port the scheme's.
\<close>
theorem parse_url_roundtrip:
  assumes "plain_host host" and "case port of None \<Rightarrow> True | Some p \<Rightarrow> 0 < p \<and> p \<le> 65535"
    and "plain_path path fragment"
  shows "SSEDM_ParseUrl (Some (make_url secure host port path fragment)) =
    (let p = (case port of None \<Rightarrow> if secure then 443 else 80 | Some q \<Rightarrow> int q)
     in Inr \<lparr>du_Host = host,
          du_Path = (if path = [] then ''/'' else if hd path = CHR ''/'' then path else ''/'' @ path),
          du_HostHeader = host_header host p secure, du_Port = p, du_Secure = secure\<rparr>)"
proof -
  let ?scheme = "if secure then ''https'' else ''http''"
  let ?a = "(if CHR '':'' \<in> set host then ''['' @ host @ '']'' else host)
      @ (case port of None \<Rightarrow> [] | Some p \<Rightarrow> '':'' @ dec_string p)"
  have tail: "\<forall>c \<in> set (case port of None \<Rightarrow> [] | Some p \<Rightarrow> '':'' @ dec_string p). c = CHR '':'' \<or> isdigit c"
    using dec_string_ok by (auto split: option.split)
  have a: "\<forall>x \<in> set ?a. x \<notin> set ''/?#'' \<and> x \<noteq> NUL"
  proof
    fix x assume x: "x \<in> set ?a"
    consider "x \<in> set host" | "x \<in> {CHR ''['', CHR '']'', CHR '':''}" | "isdigit x"
      using x tail by (auto split: if_splits)
    then show "x \<notin> set ''/?#'' \<and> x \<noteq> NUL"
    proof cases
      case 1
      then show ?thesis using assms(1) by (auto simp: plain_host_def)
    next
      case 2
      then show ?thesis by auto
    next
      case 3
      with isdigit_plain [of x] show ?thesis by simp
    qed
  qed
  have url: "make_url secure host port path fragment = ?scheme @ ''://'' @ ?a @ path @ fragment"
    by (simp add: make_url_def)
  have "NUL \<notin> set ?a" "NUL \<notin> set path" "NUL \<notin> set fragment" "NUL \<notin> set ?scheme" "NUL \<notin> set ''://''"
    using a assms(3) by (blast, auto simp: plain_path_def)
  then have "NUL \<notin> set (make_url secure host port path fragment)"
    unfolding url set_append Un_iff by blast
  then have v: "make_url secure host port path fragment = c_str (make_url secure host port path fragment)"
    by simp
  have i: "find_str ''://'' (make_url secure host port path fragment) = Some (length ?scheme)"
    unfolding url using find_str_scheme by simp
  have s: "ParseScheme (take (length ?scheme) (make_url secure host port path fragment)) =
      Inr (if secure then 443 else 80, secure)"
    unfolding url by (simp add: ParseScheme_def SSEDM_LowerASCII_def tolower_def)
  have d: "drop (length ?scheme + 3) (make_url secure host port path fragment) = ?a @ path @ fragment"
    unfolding url by simp
  have sp: "SplitPath (drop (length ?scheme + 3) (make_url secure host port path fragment)) =
      (?a, if path = [] then ''/'' else if hd path = CHR ''/'' then path else ''/'' @ path)"
    unfolding d by (rule SplitPath_make [OF _ assms(3)]) (use a in blast)
  have "host \<noteq> []" using assms(1) by (simp add: plain_host_def)
  then show ?thesis
    unfolding ParseUrl_unfold [OF v i s sp] ParseAuthority_make [OF assms(1,2)]
    by (simp add: Let_def)
qed

theorem parse_url_roundtrip_witness:
  "SSEDM_ParseUrl (Some (make_url True ''::1'' (Some 8443) ''?q'' ''#f'')) =
    Inr \<lparr>du_Host = ''::1'', du_Path = ''/?q'', du_HostHeader = host_header ''::1'' 8443 True,
      du_Port = 8443, du_Secure = True\<rparr>"
  using parse_url_roundtrip [of "''::1''" "Some 8443" "''?q''" "''#f''" True]
  by (simp add: plain_host_def plain_path_def)

section \<open>The request on the wire\<close>

text \<open>The lines a server reads: split at line feeds, one trailing carriage return dropped.\<close>

fun http_lines :: "string \<Rightarrow> string \<Rightarrow> string list" where
  "http_lines acc [] = (if acc = [] then [] else [acc])"
| "http_lines acc (c # s) = (if c = LF then StripCR acc # http_lines [] s else http_lines (acc @ [c]) s)"

lemma http_lines_run: "LF \<notin> set l \<Longrightarrow> http_lines acc (l @ LF # s) = StripCR (acc @ l) # http_lines [] s"
  by (induction l arbitrary: acc) auto

lemma http_lines_line:
  assumes "LF \<notin> set l"
  shows "http_lines [] (l @ CRLF @ s) = l # http_lines [] s"
  using http_lines_run [of "l @ [CR]" "[]" s] assms by (simp add: StripCR_def)

definition header_line :: "SSEHeader \<Rightarrow> string" where
  "header_line h = c_str (hd_Name h) @ '': '' @ c_str (hd_Value h)"

text \<open>What the code demands of a header: it cannot end its line or name another field.\<close>

definition good_header :: "SSEHeader \<Rightarrow> bool" where
  "good_header h \<longleftrightarrow> c_str (hd_Name h) \<noteq> [] \<and> CHR '':'' \<notin> set (c_str (hd_Name h))
     \<and> CR \<notin> set (header_line h) \<and> LF \<notin> set (header_line h)"

lemma AppendHeader_good:
  "SSEDM_AppendHeader r (Some n) (Some v) =
    (let h = \<lparr>hd_Name = n, hd_Value = v\<rparr> in if good_header h then Inr (r @ header_line h @ CRLF)
     else Inl ''invalid SSE request header'')"
  by (auto simp: SSEDM_AppendHeader_def SSEDM_HasControlChars_def good_header_def header_line_def
      Let_def list_ex_iff)

lemma header_eta [simp]: "\<lparr>hd_Name = hd_Name h, hd_Value = hd_Value h\<rparr> = h"
  by simp

lemma AppendHeaders_good:
  "AppendHeaders r hs = Inr r' \<Longrightarrow> list_all good_header hs \<and> r' = r @ concat (map (\<lambda>h. header_line h @ CRLF) hs)"
proof (induction hs arbitrary: r)
  case (Cons h hs)
  then have "good_header h" "AppendHeaders (r @ header_line h @ CRLF) hs = Inr r'"
    by (auto simp: AppendHeader_good Let_def split: if_splits)
  with Cons.IH show ?case by fastforce
qed simp

lemma http_lines_headers:
  "list_all good_header hs \<Longrightarrow>
   http_lines [] (concat (map (\<lambda>h. header_line h @ CRLF) hs) @ s) = map header_line hs @ http_lines [] s"
proof (induction hs)
  case (Cons h hs)
  then have "LF \<notin> set (header_line h)" by (simp add: good_header_def)
  from http_lines_line [OF this, of "concat (map (\<lambda>h. header_line h @ CRLF) hs) @ s"] Cons show ?case
    by simp
qed simp

text \<open>The headers of a request: those of the connection, and the resume position if there is one.\<close>

definition request_headers :: "SSEDesktopConnection \<Rightarrow> SSEHeader list" where
  "request_headers d = dk_Headers d @ (case dk_LastEventId d of None \<Rightarrow> []
     | Some i \<Rightarrow> if c_str i = [] then [] else [\<lparr>hd_Name = ''Last-Event-ID'', hd_Value = i\<rparr>])"

lemma BuildRequest_eq:
  assumes "SSEDM_BuildRequest d u = Inr req"
  shows "list_all good_header (request_headers d)
     \<and> req = ''GET '' @ du_Path u @ '' HTTP/1.1'' @ CRLF @ ''Host: '' @ du_HostHeader u @ CRLF
         @ ''Accept: text/event-stream'' @ CRLF @ ''Cache-Control: no-cache'' @ CRLF
         @ ''Connection: keep-alive'' @ CRLF @ ''User-Agent: defold-extension-sse/0.2'' @ CRLF
         @ concat (map (\<lambda>h. header_line h @ CRLF) (request_headers d)) @ CRLF"
proof -
  let ?pre = "''GET '' @ du_Path u @ '' HTTP/1.1'' @ CRLF @ ''Host: '' @ du_HostHeader u @ CRLF
         @ ''Accept: text/event-stream'' @ CRLF @ ''Cache-Control: no-cache'' @ CRLF
         @ ''Connection: keep-alive'' @ CRLF @ ''User-Agent: defold-extension-sse/0.2'' @ CRLF"
  obtain r where r: "AppendHeaders ?pre (dk_Headers d) = Inr r"
    using assms by (auto simp: SSEDM_BuildRequest_def Let_def split: sum.splits)
  from AppendHeaders_good [OF r] have g: "list_all good_header (dk_Headers d)"
    and re: "r = ?pre @ concat (map (\<lambda>h. header_line h @ CRLF) (dk_Headers d))" by blast+
  have req: "(case (case dk_LastEventId d of Some i \<Rightarrow> if c_str i = [] then Inr r
        else SSEDM_AppendHeader r (Some ''Last-Event-ID'') (Some i) | None \<Rightarrow> Inr r) of
      Inl e \<Rightarrow> Inl e | Inr r1 \<Rightarrow> Inr (r1 @ CRLF)) = Inr req"
    using assms r by (simp add: SSEDM_BuildRequest_def Let_def)
  show ?thesis
  proof (cases "dk_LastEventId d")
    case None
    with g re req show ?thesis by (simp add: request_headers_def)
  next
    case (Some i)
    show ?thesis
    proof (cases "c_str i = []")
      case True
      with Some g re req show ?thesis by (simp add: request_headers_def)
    next
      case False
      with Some req have "SSEDM_AppendHeader r (Some ''Last-Event-ID'') (Some i) = Inr (r @ header_line
          \<lparr>hd_Name = ''Last-Event-ID'', hd_Value = i\<rparr> @ CRLF)"
        and "good_header \<lparr>hd_Name = ''Last-Event-ID'', hd_Value = i\<rparr>"
        by (auto simp: AppendHeader_good Let_def split: if_splits)
      with Some False g re req show ?thesis by (simp add: request_headers_def)
    qed
  qed
qed

text \<open>
  C37. Header safety: when the path and the host of the URL hold no line feed (\<open>url_line_break_adds_header\<close> shows what happens otherwise), the server reads exactly the request line,
  the five fields of the client, one line for each header of the connection and the resume
  position, then the blank line. No header name or value and no event id a server once sent can add
  a field or end the request early; if one could, the request is refused.
\<close>
theorem request_has_exactly_its_lines:
  assumes "SSEDM_BuildRequest d u = Inr req"
    and "LF \<notin> set (du_Path u)" and "LF \<notin> set (du_HostHeader u)"
  shows "http_lines [] req =
      (''GET '' @ du_Path u @ '' HTTP/1.1'') # (''Host: '' @ du_HostHeader u)
      # ''Accept: text/event-stream'' # ''Cache-Control: no-cache'' # ''Connection: keep-alive''
      # ''User-Agent: defold-extension-sse/0.2'' # map header_line (request_headers d) @ [[]]
    \<and> list_all good_header (request_headers d)"
proof -
  from BuildRequest_eq [OF assms(1)] have g: "list_all good_header (request_headers d)"
    and req: "req = (''GET '' @ du_Path u @ '' HTTP/1.1'') @ CRLF @ (''Host: '' @ du_HostHeader u) @ CRLF
         @ ''Accept: text/event-stream'' @ CRLF @ ''Cache-Control: no-cache'' @ CRLF
         @ ''Connection: keep-alive'' @ CRLF @ ''User-Agent: defold-extension-sse/0.2'' @ CRLF
         @ concat (map (\<lambda>h. header_line h @ CRLF) (request_headers d)) @ [] @ CRLF @ []"
    by simp_all
  have l: "LF \<notin> set (''GET '' @ du_Path u @ '' HTTP/1.1'')" "LF \<notin> set (''Host: '' @ du_HostHeader u)"
    "LF \<notin> set ''Accept: text/event-stream''" "LF \<notin> set ''Cache-Control: no-cache''"
    "LF \<notin> set ''Connection: keep-alive''" "LF \<notin> set ''User-Agent: defold-extension-sse/0.2''"
    "LF \<notin> set ([] :: string)"
    using assms(2,3) by simp_all
  show ?thesis
    unfolding req http_lines_line [OF l(1)] http_lines_line [OF l(2)] http_lines_line [OF l(3)]
      http_lines_line [OF l(4)] http_lines_line [OF l(5)] http_lines_line [OF l(6)]
      http_lines_headers [OF g] http_lines_line [OF l(7)]
    using g by simp
qed

definition demo_worker :: SSEDesktopConnection where
  "demo_worker = SSEDesktopConnection_new\<lparr>dk_Headers := [\<lparr>hd_Name = ''X-A'', hd_Value = ''b''\<rparr>],
     dk_LastEventId := Some ''7''\<rparr>"

theorem request_has_exactly_its_lines_witness:
  "let u = projr (SSEDM_ParseUrl (Some ''http://a:81/p''))
   in http_lines [] (projr (SSEDM_BuildRequest demo_worker u)) =
     [''GET /p HTTP/1.1'', ''Host: a:81'', ''Accept: text/event-stream'', ''Cache-Control: no-cache'',
      ''Connection: keep-alive'', ''User-Agent: defold-extension-sse/0.2'', ''X-A: b'',
      ''Last-Event-ID: 7'', []]"
proof -
  let ?u = "\<lparr>du_Host = ''a'', du_Path = ''/p'', du_HostHeader = ''a:81'', du_Port = 81, du_Secure = False\<rparr>"
  have u: "projr (SSEDM_ParseUrl (Some ''http://a:81/p'')) = ?u" by code_simp
  have "SSEDM_BuildRequest demo_worker ?u = Inr (projr (SSEDM_BuildRequest demo_worker ?u))" by code_simp
  from request_has_exactly_its_lines [OF this]
  have "http_lines [] (projr (SSEDM_BuildRequest demo_worker ?u)) =
      ''GET /p HTTP/1.1'' # ''Host: a:81''
      # ''Accept: text/event-stream'' # ''Cache-Control: no-cache'' # ''Connection: keep-alive''
      # ''User-Agent: defold-extension-sse/0.2'' # map header_line (request_headers demo_worker) @ [[]]"
    by simp
  moreover have "map header_line (request_headers demo_worker) = [''X-A: b'', ''Last-Event-ID: 7'']"
    by code_simp
  ultimately show ?thesis unfolding u Let_def by simp
qed

text \<open>
  The header check does not extend to the URL: a URL with a line break in its path is accepted, and the
  server reads a header field that neither the client nor the connection's headers contain.
\<close>
theorem url_line_break_adds_header:
  "\<exists>url u req. SSEDM_ParseUrl (Some url) = Inr u
     \<and> SSEDM_BuildRequest SSEDesktopConnection_new u = Inr req
     \<and> ''X-Injected: 1'' \<in> set (http_lines [] req)"
proof -
  let ?url = "''http://a/ HTTP/1.1'' @ CRLF @ ''X-Injected: 1'' @ CRLF @ ''X:''"
  let ?u = "projr (SSEDM_ParseUrl (Some ?url))"
  let ?r = "projr (SSEDM_BuildRequest SSEDesktopConnection_new ?u)"
  have "SSEDM_ParseUrl (Some ?url) = Inr ?u" by code_simp
  moreover have "SSEDM_BuildRequest SSEDesktopConnection_new ?u = Inr ?r" by code_simp
  moreover have "list_ex (\<lambda>l. l = ''X-Injected: 1'') (http_lines [] ?r)" by code_simp
  then have "''X-Injected: 1'' \<in> set (http_lines [] ?r)" by (simp only: list_ex_iff) blast
  ultimately show ?thesis by blast
qed

end
