(* ===== verification/DmChunked.thy ===== *)
theory DmChunked
  imports DmUrlProps
begin

text \<open>
  The chunked transfer decoder of the Linux transport. \<open>size_t\<close> is a 64-bit word; the
  decoder hands the payload to the parser, which is the pair of the parser's state and its
  callbacks' context.
\<close>

section \<open>Chunk sizes\<close>

text \<open>The value of a hexadecimal digit; \<open>None\<close> stands for any other byte.\<close>

definition hex_val :: "char \<Rightarrow> nat option" where
  "hex_val c =
     (let n = (of_char c :: nat)
      in if 48 \<le> n \<and> n \<le> 57 then Some (n - 48)
         else if 97 \<le> n \<and> n \<le> 102 then Some (n - 97 + 10)
         else if 65 \<le> n \<and> n \<le> 70 then Some (n - 65 + 10)
         else None)"

definition SIZE_MAX :: "64 word" where "SIZE_MAX = - 1"

fun ChunkSizeLoop :: "string \<Rightarrow> 64 word \<Rightarrow> bool \<Rightarrow> 64 word option" where
  "ChunkSizeLoop [] v has = (if has then Some v else None)"
| "ChunkSizeLoop (c # s) v has =
     (if c = CHR '';'' then (if has then Some v else None)
      else if c = CHR '' '' \<or> c = TAB then ChunkSizeLoop s v has
      else case hex_val c of None \<Rightarrow> None
        | Some d \<Rightarrow>
            if v > (SIZE_MAX - of_nat d) div 16 then None
            else ChunkSizeLoop s (v * 16 + of_nat d) True)"

definition SSEDM_ParseChunkSize :: "string \<Rightarrow> 64 word option" where
  "SSEDM_ParseChunkSize line = ChunkSizeLoop line 0 False"

section \<open>The decoder\<close>

datatype chunk_state = STATE_SIZE | STATE_DATA | STATE_DATA_CRLF | STATE_DATA_LF | STATE_DONE

record SSEDMChunkDecoder =
  ck_Line :: string
  ck_Remaining :: "64 word"
  ck_State :: chunk_state

definition SSEDMChunkDecoder_new :: SSEDMChunkDecoder where
  "SSEDMChunkDecoder_new = \<lparr>ck_Line = [], ck_Remaining = 0, ck_State = STATE_SIZE\<rparr>"

text \<open>Drops the line end: the loop removes every trailing CR and LF.\<close>

definition trim_eol :: "string \<Rightarrow> string" where
  "trim_eol s = rev (dropWhile (\<lambda>c. c = LF \<or> c = CR) (rev s))"

text \<open>One byte of a chunk-size line.\<close>

definition SizeByte :: "SSEDMChunkDecoder \<Rightarrow> char \<Rightarrow> string + SSEDMChunkDecoder" where
  "SizeByte d c =
     (let line = ck_Line d @ [c]
      in if length line > 1024 then Inl ''chunk size line is too long''
         else if c = LF then
           (case SSEDM_ParseChunkSize (trim_eol line) of
              None \<Rightarrow> Inl ''invalid chunk size''
            | Some n \<Rightarrow> Inr (d\<lparr>ck_Line := [], ck_Remaining := n,
                ck_State := (if n = 0 then STATE_DONE else STATE_DATA)\<rparr>))
         else Inr (d\<lparr>ck_Line := line\<rparr>))"

text \<open>
  \<open>SSEDM_FeedChunkedBody\<close>: the decoder, the parser and the error text of a \<open>false\<close>
  return. \<open>offset < size\<close> is that bytes are left.
\<close>

function SSEDM_FeedChunkedBody ::
  "'c parser_callbacks option \<Rightarrow> string \<Rightarrow> SSEDMChunkDecoder \<Rightarrow> sse_parser \<times> 'c
     \<Rightarrow> SSEDMChunkDecoder \<times> (sse_parser \<times> 'c) \<times> string option" where
  "SSEDM_FeedChunkedBody cbs [] d pc = (d, pc, None)"
| "SSEDM_FeedChunkedBody cbs (c # s) d pc =
     (case ck_State d of
        STATE_DONE \<Rightarrow> (d, pc, None)
      | STATE_SIZE \<Rightarrow>
          (case SizeByte d c of Inl e \<Rightarrow> (d, pc, Some e)
           | Inr d1 \<Rightarrow> SSEDM_FeedChunkedBody cbs s d1 pc)
      | STATE_DATA \<Rightarrow>
          (let available = length (c # s); n = min (unat (ck_Remaining d)) available;
               pc1 = (if n > 0 then Feed cbs (take n (c # s)) pc else pc);
               left = ck_Remaining d - of_nat n;
               d1 = d\<lparr>ck_Remaining := left,
                      ck_State := (if left = 0 then STATE_DATA_CRLF else STATE_DATA)\<rparr>
           in SSEDM_FeedChunkedBody cbs (drop n (c # s)) d1 pc1)
      | STATE_DATA_CRLF \<Rightarrow>
          if c = CR then SSEDM_FeedChunkedBody cbs s (d\<lparr>ck_State := STATE_DATA_LF\<rparr>) pc
          else if c = LF then SSEDM_FeedChunkedBody cbs s (d\<lparr>ck_State := STATE_SIZE\<rparr>) pc
          else (d, pc, Some ''invalid chunk delimiter'')
      | STATE_DATA_LF \<Rightarrow>
          if c \<noteq> LF then (d, pc, Some ''invalid chunk delimiter'')
          else SSEDM_FeedChunkedBody cbs s (d\<lparr>ck_State := STATE_SIZE\<rparr>) pc)"
  by pat_completeness auto

text \<open>Each turn consumes a byte, or leaves the data state because nothing remains.\<close>

termination
  by (relation "measures [\<lambda>(cbs, s, d, pc). length s,
        \<lambda>(cbs, s, d, pc). if ck_State d = STATE_DATA then 1 else 0]")
    (auto simp: min_def unat_eq_zero split: if_splits)

end
