(* ===== verification/DmChunkedProps.thy ===== *)
theory DmChunkedProps
  imports DmChunked
begin

text \<open>
  The chunk decoder against its reference: the size field is exact and never wraps, the
  fragmentation of the stream by the socket does not matter, and an encoded body is decoded back.
\<close>

section \<open>Chunk sizes are exact\<close>

definition chunk_digits :: "string \<Rightarrow> string" where
  "chunk_digits line = filter (\<lambda>c. c \<noteq> CHR '' '' \<and> c \<noteq> TAB) (takeWhile (\<lambda>c. c \<noteq> CHR '';'') line)"

definition hex_number_from :: "nat \<Rightarrow> string \<Rightarrow> nat" where
  "hex_number_from n ds = foldl (\<lambda>n c. 16 * n + the (hex_val c)) n ds"

lemma hex_number_from_simps [simp]:
  "hex_number_from n [] = n"
  "hex_number_from n (c # ds) = hex_number_from (16 * n + the (hex_val c)) ds"
  by (simp_all add: hex_number_from_def)

lemma hex_number_from_append:
  "hex_number_from n (as @ bs) = hex_number_from (hex_number_from n as) bs"
  by (simp add: hex_number_from_def)

lemma hex_number_from_ge: "n \<le> hex_number_from n ds"
proof (induction ds arbitrary: n)
  case (Cons c ds)
  have "n \<le> 16 * n + the (hex_val c)" by simp
  also have "\<dots> \<le> hex_number_from (16 * n + the (hex_val c)) ds" by (rule Cons.IH)
  finally show ?case by simp
qed simp

lemma unat_small: "n < 2 ^ 64 \<Longrightarrow> unat (of_nat n :: 64 word) = n"
  by (simp add: unsigned_of_nat take_bit_nat_eq_self)

lemma unat_bound: "unat (v :: 64 word) < 2 ^ 64"
  using unsigned_less [of v] by simp

lemma hex_val_less: "hex_val c = Some d \<Longrightarrow> d < 16"
  by (auto simp: hex_val_def Let_def split: if_splits)

text \<open>The overflow test of the code is exact.\<close>

lemma size_guard:
  fixes v :: "64 word"
  assumes "d < 16"
  shows "v > (SIZE_MAX - of_nat d) div 16 \<longleftrightarrow> 2 ^ 64 \<le> 16 * unat v + d"
proof -
  have d: "unat (of_nat d :: 64 word) = d" by (rule unat_small) (use assms in simp)
  have m: "unat SIZE_MAX = 2 ^ 64 - 1" by code_simp
  have "(of_nat d :: 64 word) \<le> SIZE_MAX" by (simp add: SIZE_MAX_def)
  then have s: "unat (SIZE_MAX - of_nat d :: 64 word) = 2 ^ 64 - 1 - d"
    by (simp add: unat_sub d m)
  have "unat ((SIZE_MAX - of_nat d :: 64 word) div 16) = (2 ^ 64 - 1 - d) div 16"
    by (simp add: unat_div s)
  then have "v > (SIZE_MAX - of_nat d) div 16 \<longleftrightarrow> (2 ^ 64 - 1 - d) div 16 < unat v"
    by (simp add: word_less_nat_alt)
  also have "\<dots> \<longleftrightarrow> 2 ^ 64 \<le> 16 * unat v + d"
    using assms by (auto simp: div_less_iff_less_mult)
  finally show ?thesis .
qed

lemma size_step:
  fixes v :: "64 word"
  assumes "16 * unat v + d < 2 ^ 64"
  shows "unat (v * 16 + of_nat d) = 16 * unat v + d"
proof -
  have "v * 16 + of_nat d = (of_nat (16 * unat v + d) :: 64 word)" by simp
  then show ?thesis using unat_small [OF assms] by (simp add: mult.commute)
qed

lemma ChunkSizeLoop_eq:
  "ChunkSizeLoop s v has =
     (if (has \<or> chunk_digits s \<noteq> []) \<and> (\<forall>c \<in> set (chunk_digits s). hex_val c \<noteq> None)
         \<and> hex_number_from (unat v) (chunk_digits s) < 2 ^ 64
      then Some (of_nat (hex_number_from (unat v) (chunk_digits s))) else None)"
proof (induction s v has rule: ChunkSizeLoop.induct)
  case (1 v has)
  have "unat v < 2 ^ 64" by (rule unat_bound)
  then show ?case by (simp add: chunk_digits_def)
next
  case (2 c s v has)
  have lt: "unat v < 2 ^ 64" by (rule unat_bound)
  show ?case
  proof (cases "c = CHR '';'' \<or> c = CHR '' '' \<or> c = TAB")
    case True
    then show ?thesis using 2(1) lt by (auto simp: chunk_digits_def)
  next
    case sep: False
    then have ds: "chunk_digits (c # s) = c # chunk_digits s" by (simp add: chunk_digits_def)
    show ?thesis
    proof (cases "hex_val c")
      case None
      with sep ds show ?thesis by simp
    next
      case (Some d)
      note d = hex_val_less [OF Some]
      show ?thesis
      proof (cases "v > (SIZE_MAX - of_nat d) div 16")
        case True
        then have "2 ^ 64 \<le> hex_number_from (16 * unat v + d) (chunk_digits s)"
          using size_guard [OF d] hex_number_from_ge le_trans by blast
        with True sep Some ds show ?thesis by simp
      next
        case False
        then have "16 * unat v + d < 2 ^ 64" using size_guard [OF d, of v] by simp
        from size_step [OF this] 2(2) [OF _ _ Some False] False sep Some ds show ?thesis by simp
      qed
    qed
  qed
qed

text \<open>
  C34. Chunk sizes: the size field is read exactly. With the extension cut off and blanks skipped, the line
  is accepted if and only if it holds at least one digit, only hexadecimal digits and a value below
  2^64, and then the result is that value; no line makes the 64-bit arithmetic wrap.
\<close>
theorem chunk_size_exact:
  "SSEDM_ParseChunkSize line =
     (let ds = chunk_digits line; n = hex_number_from 0 ds
      in if ds \<noteq> [] \<and> list_all (\<lambda>c. hex_val c \<noteq> None) ds \<and> n < 2 ^ 64 then Some (of_nat n) else None)"
  by (simp add: SSEDM_ParseChunkSize_def ChunkSizeLoop_eq list_all_iff Let_def)

section \<open>Fragmentation\<close>

lemma Feed_split: "n \<le> length xs \<Longrightarrow> Feed cbs (drop n xs) (Feed cbs (take n xs) pc) = Feed cbs xs pc"
  by (simp flip: Feed_append)

definition advance :: "SSEDMChunkDecoder \<Rightarrow> nat \<Rightarrow> SSEDMChunkDecoder" where
  "advance d n = (let left = ck_Remaining d - of_nat n in
     d\<lparr>ck_Remaining := left, ck_State := (if left = 0 then STATE_DATA_CRLF else STATE_DATA)\<rparr>)"

lemma advance_advance: "advance (advance d m) n = advance d (m + n)"
  by (simp add: advance_def Let_def diff_diff_eq)

lemma advance_less:
  assumes "n < unat (ck_Remaining d)"
  shows "ck_State (advance d n) = STATE_DATA" and "unat (ck_Remaining (advance d n)) = unat (ck_Remaining d) - n"
proof -
  have "n < 2 ^ 64" using assms unat_bound [of "ck_Remaining d"] by simp
  then have u: "unat (of_nat n :: 64 word) = n" by (rule unat_small)
  then have "(of_nat n :: 64 word) \<le> ck_Remaining d" using assms by (simp add: word_le_nat_alt)
  then show r: "unat (ck_Remaining (advance d n)) = unat (ck_Remaining d) - n"
    by (simp add: advance_def Let_def unat_sub u)
  then show "ck_State (advance d n) = STATE_DATA" using assms by (auto simp: advance_def Let_def)
qed

lemma Chunked_data:
  assumes "ck_State d = STATE_DATA" and "xs \<noteq> []"
  shows "SSEDM_FeedChunkedBody cbs xs d pc =
    (let n = min (unat (ck_Remaining d)) (length xs)
     in SSEDM_FeedChunkedBody cbs (drop n xs) (advance d n) (Feed cbs (take n xs) pc))"
  using assms by (cases xs) (auto simp: Let_def advance_def min_def)

lemma Chunked_append:
  "SSEDM_FeedChunkedBody cbs (xs @ ys) d pc =
     (case SSEDM_FeedChunkedBody cbs xs d pc of
        (d1, pc1, Some e) \<Rightarrow> (d1, pc1, Some e)
      | (d1, pc1, None) \<Rightarrow> SSEDM_FeedChunkedBody cbs ys d1 pc1)"
proof (induction "length xs" arbitrary: xs d pc rule: less_induct)
  case less
  show ?case
  proof (cases xs)
    case Nil
    then show ?thesis by simp
  next
    case (Cons c s)
    have IH: "SSEDM_FeedChunkedBody cbs (s @ ys) d pc =
       (case SSEDM_FeedChunkedBody cbs s d pc of
          (d1, pc1, Some e) \<Rightarrow> (d1, pc1, Some e)
        | (d1, pc1, None) \<Rightarrow> SSEDM_FeedChunkedBody cbs ys d1 pc1)" for d pc
      by (rule less) (simp add: Cons)
    show ?thesis
    proof (cases "ck_State d = STATE_DATA")
      case False
      have at_end: "SSEDM_FeedChunkedBody cbs ys d pc = (d, pc, None)" if "ck_State d = STATE_DONE" for d pc
        using that by (cases ys) simp_all
      with False Cons IH show ?thesis by (cases "ck_State d") (auto split: sum.split simp: at_end)
    next
      case data: True
      show ?thesis
      proof (cases "unat (ck_Remaining d) \<le> length xs")
        case True
        let ?n = "unat (ck_Remaining d)"
        have n: "min ?n (length xs) = ?n" "min ?n (length (xs @ ys)) = ?n" using True by simp_all
        have td: "take ?n (xs @ ys) = take ?n xs" "drop ?n (xs @ ys) = drop ?n xs @ ys" using True by simp_all
        show ?thesis
        proof (cases "?n = 0")
          case True
          let ?d = "advance d 0"
          have nd: "ck_State ?d = STATE_DATA_CRLF" using True by (simp add: advance_def unat_eq_zero)
          have e: "SSEDM_FeedChunkedBody cbs zs d pc = SSEDM_FeedChunkedBody cbs zs ?d pc" if "zs \<noteq> []" for zs
            using Chunked_data [OF data that, of cbs pc] True by (simp add: Let_def)
          have e1: "SSEDM_FeedChunkedBody cbs (c # s) d pc = SSEDM_FeedChunkedBody cbs (c # s) ?d pc"
            and e2: "SSEDM_FeedChunkedBody cbs ((c # s) @ ys) d pc = SSEDM_FeedChunkedBody cbs ((c # s) @ ys) ?d pc"
            using e by blast+
          show ?thesis unfolding Cons e1 e2 using nd IH by simp
        next
          case False
          have ih: "SSEDM_FeedChunkedBody cbs (drop ?n xs @ ys) (advance d ?n) (Feed cbs (take ?n xs) pc) =
             (case SSEDM_FeedChunkedBody cbs (drop ?n xs) (advance d ?n) (Feed cbs (take ?n xs) pc) of
                (d1, pc1, Some e) \<Rightarrow> (d1, pc1, Some e)
              | (d1, pc1, None) \<Rightarrow> SSEDM_FeedChunkedBody cbs ys d1 pc1)"
            by (rule less) (use False Cons in simp)
          have ne: "xs \<noteq> []" "xs @ ys \<noteq> []" using Cons by simp_all
          show ?thesis
            unfolding Chunked_data [OF data ne(1)] Chunked_data [OF data ne(2)] Let_def n td by (rule ih)
        qed
      next
        case False
        let ?l = "length xs"
        from False have l: "?l < unat (ck_Remaining d)" by simp
        note a = advance_less [OF l]
        have x: "SSEDM_FeedChunkedBody cbs xs d pc = (advance d ?l, Feed cbs xs pc, None)"
          using Chunked_data [OF data, of xs cbs pc] l Cons by (simp add: Let_def min_def)
        show ?thesis
        proof (cases "ys = []")
          case True
          with x show ?thesis by simp
        next
          case False
          let ?m = "min (unat (ck_Remaining (advance d ?l))) (length ys)"
          have m: "min (unat (ck_Remaining d)) (length (xs @ ys)) = ?l + ?m"
            using a(2) l by (auto simp: min_def)
          have "SSEDM_FeedChunkedBody cbs (xs @ ys) d pc =
              SSEDM_FeedChunkedBody cbs (drop ?m ys) (advance d (?l + ?m)) (Feed cbs (xs @ take ?m ys) pc)"
            using Chunked_data [OF data, of "xs @ ys" cbs pc] Cons unfolding Let_def m by simp
          also have "\<dots> = SSEDM_FeedChunkedBody cbs ys (advance d ?l) (Feed cbs xs pc)"
            using Chunked_data [OF a(1) False, of cbs "Feed cbs xs pc"]
            by (simp add: Let_def advance_advance Feed_append)
          finally show ?thesis by (simp add: x)
        qed
      qed
    qed
  qed
qed

section \<open>Round trip\<close>

text \<open>A number in hexadecimal, as servers write it.\<close>

definition hex_char :: "nat \<Rightarrow> char" where
  "hex_char d = char_of (if d < 10 then 48 + d else 87 + d)"

fun hex_string :: "nat \<Rightarrow> string" where
  "hex_string n = (if n < 16 then [hex_char n] else hex_string (n div 16) @ [hex_char (n mod 16)])"

declare hex_string.simps [simp del]

lemma hex_char_val: "d < 16 \<Longrightarrow> hex_val (hex_char d) = Some d"
  by (auto simp: hex_val_def hex_char_def Let_def)

lemma hex_val_plain: "hex_val c \<noteq> None \<Longrightarrow> c \<notin> {CHR '';'', CHR '' '', TAB, LF, CR}"
  by (auto simp: hex_val_def)

lemma hex_string_ok:
  "hex_string n \<noteq> [] \<and> (\<forall>c \<in> set (hex_string n). hex_val c \<noteq> None) \<and> hex_number_from 0 (hex_string n) = n"
proof (induction n rule: hex_string.induct)
  case (1 n)
  show ?case
  proof (cases "n < 16")
    case True
    then show ?thesis by (subst (1 2 3) hex_string.simps) (simp add: hex_char_val)
  next
    case False
    have "n mod 16 < 16" by simp
    with 1 False show ?thesis
      by (subst (1 2 3) hex_string.simps) (simp add: hex_char_val hex_number_from_append)
  qed
qed

lemma hex_string_length: "n < 16 ^ Suc k \<Longrightarrow> length (hex_string n) \<le> Suc k"
proof (induction k arbitrary: n)
  case 0
  then show ?case by (subst hex_string.simps) simp
next
  case (Suc k)
  then have "n div 16 < 16 ^ Suc k" by (simp add: div_less_iff_less_mult mult.commute)
  with Suc.IH show ?case by (subst hex_string.simps) (simp add: le_SucI)
qed

lemma chunk_digits_hex:
  assumes "ext = [] \<or> hd ext = CHR '';''"
  shows "chunk_digits (hex_string n @ ext) = hex_string n"
proof -
  have "\<forall>c \<in> set (hex_string n). c \<noteq> CHR '';'' \<and> c \<noteq> CHR '' '' \<and> c \<noteq> TAB"
    using hex_string_ok [of n] hex_val_plain by blast
  then have "takeWhile (\<lambda>c. c \<noteq> CHR '';'') (hex_string n @ ext) = hex_string n"
    and "filter (\<lambda>c. c \<noteq> CHR '' '' \<and> c \<noteq> TAB) (hex_string n) = hex_string n"
    using assms by (cases ext; simp add: takeWhile_tail takeWhile_all filter_id_conv)+
  then show ?thesis by (simp add: chunk_digits_def)
qed

text \<open>A size line, possibly with an extension, without a line feed and short enough.\<close>

definition size_line :: "nat \<Rightarrow> string \<Rightarrow> string" where
  "size_line n ext = hex_string n @ ext @ CRLF"

definition ext_ok :: "string \<Rightarrow> bool" where
  "ext_ok ext \<longleftrightarrow> (ext = [] \<or> hd ext = CHR '';'') \<and> LF \<notin> set ext
     \<and> (ext = [] \<or> last ext \<noteq> CR) \<and> length ext \<le> 1000"

lemma size_bytes:
  assumes "LF \<notin> set l" and "length acc + length l \<le> 1024" and "ck_State d = STATE_SIZE" and "ck_Line d = acc"
  shows "SSEDM_FeedChunkedBody cbs (l @ s) d pc = SSEDM_FeedChunkedBody cbs s (d\<lparr>ck_Line := acc @ l\<rparr>) pc"
  using assms
proof (induction l arbitrary: acc d)
  case Nil
  then have "d\<lparr>ck_Line := acc @ []\<rparr> = d" by (cases d) simp
  then show ?case by simp
next
  case (Cons c l)
  have "SizeByte d c = Inr (d\<lparr>ck_Line := acc @ [c]\<rparr>)"
    using Cons.prems by (auto simp: SizeByte_def Let_def)
  then have "SSEDM_FeedChunkedBody cbs ((c # l) @ s) d pc =
      SSEDM_FeedChunkedBody cbs (l @ s) (d\<lparr>ck_Line := acc @ [c]\<rparr>) pc"
    using Cons.prems(3) by simp
  also have "\<dots> = SSEDM_FeedChunkedBody cbs s (d\<lparr>ck_Line := acc @ [c], ck_Line := (acc @ [c]) @ l\<rparr>) pc"
    by (rule Cons.IH) (use Cons.prems in simp_all)
  finally show ?case by simp
qed

lemma trim_eol_line: "u = [] \<or> last u \<noteq> CR \<and> last u \<noteq> LF \<Longrightarrow> trim_eol (u @ CRLF) = u"
  by (cases u rule: rev_cases) (simp_all add: trim_eol_def)

lemma size_line_decoded:
  assumes n: "n < 2 ^ 64" and e: "ext_ok ext" and d: "ck_State d = STATE_SIZE" "ck_Line d = []"
  shows "SSEDM_FeedChunkedBody cbs (size_line n ext @ s) d pc =
    SSEDM_FeedChunkedBody cbs s (d\<lparr>ck_Remaining := of_nat n,
      ck_State := (if n = 0 then STATE_DONE else STATE_DATA)\<rparr>) pc"
proof -
  let ?u = "hex_string n @ ext"
  have hx: "hex_string n \<noteq> []" "\<forall>c \<in> set (hex_string n). c \<noteq> LF \<and> c \<noteq> CR"
    using hex_string_ok [of n] hex_val_plain by blast+
  have "(2::nat) ^ 64 = 16 ^ Suc 15" by simp
  with n have "length (hex_string n) \<le> Suc 15" using hex_string_length [of n 15] by simp
  then have len: "length ?u + 2 \<le> 1024" using e by (simp add: ext_ok_def)
  have lf: "LF \<notin> set (?u @ [CR])" using hx e by (auto simp: ext_ok_def)
  have la: "?u = [] \<or> last ?u \<noteq> CR \<and> last ?u \<noteq> LF"
  proof (cases "ext = []")
    case True
    then show ?thesis using hx by simp
  next
    case False
    then have "last ext \<in> set ext" by simp
    then have "last ext \<noteq> LF" using e by (metis ext_ok_def)
    with False e show ?thesis by (auto simp: ext_ok_def)
  qed
  have p: "SSEDM_ParseChunkSize ?u = Some (of_nat n)"
    using hex_string_ok [of n] n e
    by (simp add: SSEDM_ParseChunkSize_def ChunkSizeLoop_eq chunk_digits_hex ext_ok_def)
  have z: "(of_nat n :: 64 word) = 0 \<longleftrightarrow> n = 0" 
  proof
    assume "(of_nat n :: 64 word) = 0"
    then have "unat (of_nat n :: 64 word) = 0" by (simp only: unat_0)
    then show "n = 0" unfolding unat_small [OF n] .
  qed simp
  let ?d = "d\<lparr>ck_Line := ?u @ [CR]\<rparr>"
  have "trim_eol (?u @ [CR] @ [LF]) = ?u" using trim_eol_line [OF la] by simp
  then have b: "SizeByte ?d LF = Inr (?d\<lparr>ck_Line := [], ck_Remaining := of_nat n,
      ck_State := (if n = 0 then STATE_DONE else STATE_DATA)\<rparr>)"
    using len p z by (simp add: SizeByte_def Let_def)
  have eq: "?d\<lparr>ck_Line := [], ck_Remaining := of_nat n, ck_State := x\<rparr> =
      d\<lparr>ck_Remaining := of_nat n, ck_State := x\<rparr>" for x using d(2) by (cases d) simp
  have "SSEDM_FeedChunkedBody cbs (size_line n ext @ s) d pc =
      SSEDM_FeedChunkedBody cbs ((?u @ [CR]) @ LF # s) d pc" by (simp add: size_line_def)
  also have "\<dots> = SSEDM_FeedChunkedBody cbs (LF # s) ?d pc"
    using size_bytes [OF lf, of "[]" d cbs "LF # s" pc] len d by simp
  also have "\<dots> = SSEDM_FeedChunkedBody cbs s (d\<lparr>ck_Remaining := of_nat n,
      ck_State := (if n = 0 then STATE_DONE else STATE_DATA)\<rparr>) pc"
    using d(1) b eq by simp
  finally show ?thesis .
qed

text \<open>A body as a server encodes it: chunks with extensions, then the last chunk.\<close>

definition encode_chunk :: "string \<times> string \<Rightarrow> string" where
  "encode_chunk ch = size_line (length (snd ch)) (fst ch) @ snd ch @ CRLF"

definition encode_body :: "(string \<times> string) list \<Rightarrow> string" where
  "encode_body chs = concat (map encode_chunk chs) @ size_line 0 [] @ CRLF"

definition chunk_ok :: "string \<times> string \<Rightarrow> bool" where
  "chunk_ok ch \<longleftrightarrow> ext_ok (fst ch) \<and> snd ch \<noteq> [] \<and> length (snd ch) < 2 ^ 64"

lemma chunk_decoded:
  assumes c: "chunk_ok ch" and d: "ck_State d = STATE_SIZE" "ck_Line d = []"
  shows "\<exists>d'. ck_State d' = STATE_SIZE \<and> ck_Line d' = [] \<and>
    SSEDM_FeedChunkedBody cbs (encode_chunk ch @ s) d pc = SSEDM_FeedChunkedBody cbs s d' (Feed cbs (snd ch) pc)"
proof -
  let ?x = "snd ch" and ?n = "length (snd ch)"
  have n: "?n < 2 ^ 64" "?n \<noteq> 0" using c by (auto simp: chunk_ok_def)
  let ?d = "d\<lparr>ck_Remaining := of_nat ?n, ck_State := STATE_DATA\<rparr>"
  let ?e = "advance ?d ?n"
  have st: "ck_State ?d = STATE_DATA" by simp
  have u: "unat (ck_Remaining ?d) = ?n" using unat_small [OF n(1)] by simp
  have ne: "?x @ CRLF @ s \<noteq> []" by simp
  have "SSEDM_FeedChunkedBody cbs (encode_chunk ch @ s) d pc = SSEDM_FeedChunkedBody cbs (?x @ CRLF @ s) ?d pc"
    using size_line_decoded [OF n(1) _ d, of "fst ch" cbs "?x @ CRLF @ s" pc] c n(2)
    by (simp add: encode_chunk_def chunk_ok_def)
  also have "\<dots> = SSEDM_FeedChunkedBody cbs (CRLF @ s) ?e (Feed cbs ?x pc)"
    unfolding Chunked_data [OF st ne] u Let_def by (simp add: min_def)
  also have "\<dots> = SSEDM_FeedChunkedBody cbs s (?e\<lparr>ck_State := STATE_SIZE\<rparr>) (Feed cbs ?x pc)"
    by (simp add: advance_def Let_def)
  finally show ?thesis using d(2)
    by (intro exI [of _ "?e\<lparr>ck_State := STATE_SIZE\<rparr>"]) (simp add: advance_def Let_def)
qed

lemma chunks_decoded:
  "list_all chunk_ok chs \<Longrightarrow> ck_State d = STATE_SIZE \<Longrightarrow> ck_Line d = [] \<Longrightarrow>
   \<exists>d'. ck_State d' = STATE_SIZE \<and> ck_Line d' = [] \<and>
     SSEDM_FeedChunkedBody cbs (concat (map encode_chunk chs) @ s) d pc =
     SSEDM_FeedChunkedBody cbs s d' (Feed cbs (concat (map snd chs)) pc)"
proof (induction chs arbitrary: d pc)
  case Nil
  then show ?case by auto
next
  case (Cons ch chs)
  then have ok: "chunk_ok ch" "list_all chunk_ok chs" by simp_all
  from chunk_decoded [OF ok(1) Cons.prems(2,3), of cbs "concat (map encode_chunk chs) @ s" pc]
  obtain d1 where d1: "ck_State d1 = STATE_SIZE" "ck_Line d1 = []"
    "SSEDM_FeedChunkedBody cbs (encode_chunk ch @ concat (map encode_chunk chs) @ s) d pc =
     SSEDM_FeedChunkedBody cbs (concat (map encode_chunk chs) @ s) d1 (Feed cbs (snd ch) pc)" by blast
  from Cons.IH [OF ok(2) d1(1,2), of "Feed cbs (snd ch) pc"] d1(3) show ?case by (simp add: Feed_append)
qed

text \<open>The body arrives from the socket in arbitrary pieces, one call for each.\<close>

fun FeedPieces ::
  "'c parser_callbacks option \<Rightarrow> string list \<Rightarrow> SSEDMChunkDecoder \<Rightarrow> sse_parser \<times> 'c
     \<Rightarrow> SSEDMChunkDecoder \<times> (sse_parser \<times> 'c) \<times> string option" where
  "FeedPieces cbs [] d pc = (d, pc, None)"
| "FeedPieces cbs (x # xs) d pc =
     (case SSEDM_FeedChunkedBody cbs x d pc of
        (d1, pc1, Some e) \<Rightarrow> (d1, pc1, Some e)
      | (d1, pc1, None) \<Rightarrow> FeedPieces cbs xs d1 pc1)"

lemma FeedPieces_concat: "FeedPieces cbs pieces d pc = SSEDM_FeedChunkedBody cbs (concat pieces) d pc"
  by (induction pieces arbitrary: d pc) (auto simp: Chunked_append split: prod.split option.split)

lemma encode_body_decoded:
  assumes "list_all chunk_ok chs"
  shows "\<exists>d. SSEDM_FeedChunkedBody cbs (encode_body chs @ rest) SSEDMChunkDecoder_new pc =
      (d, Feed cbs (concat (map snd chs)) pc, None) \<and> ck_State d = STATE_DONE"
proof -
  let ?d0 = SSEDMChunkDecoder_new and ?s = "size_line 0 [] @ CRLF @ rest"
  have d0: "ck_State ?d0 = STATE_SIZE" "ck_Line ?d0 = []" by (simp_all add: SSEDMChunkDecoder_new_def)
  from chunks_decoded [OF assms d0, of cbs ?s pc] obtain d1 where
    d1: "ck_State d1 = STATE_SIZE" "ck_Line d1 = []"
    "SSEDM_FeedChunkedBody cbs (encode_body chs @ rest) ?d0 pc =
     SSEDM_FeedChunkedBody cbs ?s d1 (Feed cbs (concat (map snd chs)) pc)"
    by (auto simp: encode_body_def)
  let ?d2 = "d1\<lparr>ck_Remaining := 0, ck_State := STATE_DONE\<rparr>"
  have "SSEDM_FeedChunkedBody cbs ?s d1 (Feed cbs (concat (map snd chs)) pc) =
      SSEDM_FeedChunkedBody cbs (CRLF @ rest) ?d2 (Feed cbs (concat (map snd chs)) pc)"
    using size_line_decoded [of 0 "[]" d1 cbs "CRLF @ rest"] d1(1,2) by (simp add: ext_ok_def)
  also have "\<dots> = (?d2, Feed cbs (concat (map snd chs)) pc, None)" by simp
  finally show ?thesis using d1(3) by simp
qed

text \<open>
  Fragmentation does not matter: however the socket cuts the stream into pieces, the decoder, the parser and
  the error are those of the whole stream at once.
\<close>
theorem chunked_any_fragmentation:
  "FeedPieces cbs pieces d pc = SSEDM_FeedChunkedBody cbs (concat pieces) d pc"
  by (rule FeedPieces_concat)

text \<open>
  C33. Round trip: from a body that a server encoded as chunks, with or without extensions, received in
  any pieces and with anything behind it, the parser is fed exactly the payload, and the decoder
  ends in its final state without an error.
\<close>
theorem chunked_body_roundtrip:
  assumes "list_all chunk_ok chs" and "concat pieces = encode_body chs @ rest"
  shows "\<exists>d. FeedPieces cbs pieces SSEDMChunkDecoder_new pc = (d, Feed cbs (concat (map snd chs)) pc, None)
     \<and> ck_State d = STATE_DONE"
  using encode_body_decoded [OF assms(1), of cbs rest pc] assms(2) by (simp add: FeedPieces_concat)

theorem chunked_body_roundtrip_witness:
  "\<exists>d. FeedPieces (None :: unit parser_callbacks option) [''3;x'', CRLF @ ''abc'' @ [CR], [LF] @ ''0'' @ CRLF @ CRLF]
       SSEDMChunkDecoder_new (SSEParser_new, ()) =
     (d, Feed None ''abc'' (SSEParser_new, ()), None) \<and> ck_State d = STATE_DONE"
proof -
  have "list_all chunk_ok [('';x'', ''abc'')]" by (simp add: chunk_ok_def ext_ok_def)
  moreover have "concat [''3;x'', CRLF @ ''abc'' @ [CR], [LF] @ ''0'' @ CRLF @ CRLF] =
      encode_body [('';x'', ''abc'')] @ []" by code_simp
  ultimately show ?thesis
    using chunked_body_roundtrip [where cbs = "None :: unit parser_callbacks option" and pc = "(SSEParser_new, ())"]
    by fastforce
qed

end
