(* ===== verification/DmResponse.thy ===== *)
theory DmResponse
  imports DmChunkedProps
begin

text \<open>
  The response side and the worker of the Linux transport (\<open>sse_connection_pool_impl.h\<close>).
  Everything the worker learns from outside is an input: what each look at the stop flag saw, what
  each call of the socket API returned. A loop takes one element of a list of such inputs per
  turn, and is still \<open>Running\<close> when the list is used up. The calls back into the
  extension are those of \<open>sse_api\<close>, in the order the code makes them.
\<close>

section \<open>Sockets\<close>

text \<open>\<open>dmSocket::Result\<close>; the other results carry the text \<open>ResultToString\<close> gives for them.\<close>

datatype sock_result = RESULT_OK | RESULT_WOULDBLOCK | RESULT_TRY_AGAIN | RESULT_ERROR string

fun ResultToString :: "sock_result \<Rightarrow> string" where
  "ResultToString RESULT_OK = ''RESULT_OK''"
| "ResultToString RESULT_WOULDBLOCK = ''RESULT_WOULDBLOCK''"
| "ResultToString RESULT_TRY_AGAIN = ''RESULT_TRY_AGAIN''"
| "ResultToString (RESULT_ERROR s) = s"

definition again :: "sock_result \<Rightarrow> bool" where
  "again r \<longleftrightarrow> r = RESULT_WOULDBLOCK \<or> r = RESULT_TRY_AGAIN"

text \<open>A turn of the wait: the look at the stop flag and the result of \<open>dmSocket::Select\<close>.\<close>

fun SSEDM_WaitForSocket :: "(bool \<times> sock_result) list \<Rightarrow> sock_result option" where
  "SSEDM_WaitForSocket [] = None"
| "SSEDM_WaitForSocket ((stop, r) # turns) =
     (if stop then Some RESULT_OK else if \<not> again r then Some r else SSEDM_WaitForSocket turns)"

section \<open>Sending the request\<close>

record send_turn =
  st_Stop :: bool
  st_Result :: sock_result
  st_Sent :: int
  st_Waits :: "(bool \<times> sock_result) list"

text \<open>The error text of a \<open>false\<close> return, and the bytes that went out.\<close>

fun SSEDM_SendAll :: "send_turn list \<Rightarrow> string \<Rightarrow> (string option, string) progress" where
  "SSEDM_SendAll turns [] = Finished None []"
| "SSEDM_SendAll [] data = Running []"
| "SSEDM_SendAll (t # turns) data =
     (if st_Stop t then Finished None []
      else if st_Result t = RESULT_OK \<and> st_Sent t > 0 then
        map_progress id (\<lambda>out. take (nat (st_Sent t)) data @ out)
          (SSEDM_SendAll turns (drop (nat (st_Sent t)) data))
      else if st_Result t = RESULT_OK \<or> again (st_Result t) then
        (case SSEDM_WaitForSocket (st_Waits t) of None \<Rightarrow> Running []
         | Some r \<Rightarrow>
             if r \<noteq> RESULT_OK then Finished (Some (''socket send wait failed: '' @ ResultToString r)) []
             else SSEDM_SendAll turns data)
      else Finished (Some (''socket send failed: '' @ ResultToString (st_Result t))) [])"

section \<open>Response headers\<close>

definition SSEDM_FindHeaderEnd :: "string \<Rightarrow> (nat \<times> nat) option" where
  "SSEDM_FindHeaderEnd response =
     (case find_str (CRLF @ CRLF) response of
        Some i \<Rightarrow> Some (i, 4)
      | None \<Rightarrow> (case find_str [LF, LF] response of Some i \<Rightarrow> Some (i, 2) | None \<Rightarrow> None))"

definition SSEDM_TrimTrailingCR :: "string \<Rightarrow> string" where
  "SSEDM_TrimTrailingCR line = (if line \<noteq> [] \<and> last line = CR then butlast line else line)"

definition is_chunked_line :: "string \<Rightarrow> bool" where
  "is_chunked_line line =
     (let lower = SSEDM_LowerASCII line
      in find_str ''transfer-encoding:'' lower = Some 0 \<and> find_str ''chunked'' lower \<noteq> None)"

text \<open>The loop over the lines behind the first.\<close>

function HeaderLines :: "string \<Rightarrow> bool \<Rightarrow> bool" where
  "HeaderLines rest chunked =
     (if rest = [] then chunked
      else case find_char LF rest of
        None \<Rightarrow> chunked \<or> is_chunked_line (SSEDM_TrimTrailingCR rest)
      | Some i \<Rightarrow> HeaderLines (drop (Suc i) rest)
          (chunked \<or> is_chunked_line (SSEDM_TrimTrailingCR (take i rest))))"
  by pat_completeness auto

termination by (relation "measure (length o fst)") auto

declare HeaderLines.simps [simp del]

text \<open>Status and whether the body is chunked, or the error text.\<close>

definition SSEDM_ParseResponseHeaders :: "string \<Rightarrow> string + int \<times> bool" where
  "SSEDM_ParseResponseHeaders headers =
     (let (first, rest) = (case find_char LF headers of None \<Rightarrow> (headers, [])
                           | Some i \<Rightarrow> (take i headers, drop (Suc i) headers))
      in case sscanf_status (SSEDM_TrimTrailingCR first) of
           None \<Rightarrow> Inl ''invalid HTTP response''
         | Some status \<Rightarrow> Inr (status, HeaderLines rest False))"

section \<open>Reading the response\<close>

text \<open>\<open>SSEDM_FeedBody\<close>, with the parser's callbacks of the worker.\<close>

definition SSEDM_FeedBody ::
  "'e sse_api \<Rightarrow> bool \<Rightarrow> SSEDMChunkDecoder \<Rightarrow> string \<Rightarrow> 'a desktop_scheme \<times> 'e
     \<Rightarrow> SSEDMChunkDecoder \<times> ('a desktop_scheme \<times> 'e) \<times> string option" where
  "SSEDM_FeedBody api chunked decoder data c =
     (if data = [] then (decoder, c, None)
      else if chunked then
        (case SSEDM_FeedChunkedBody (Some (desktop_callbacks api)) data decoder (dk_Parser (fst c), c) of
           (decoder1, (p, d, e), err) \<Rightarrow> (decoder1, (d\<lparr>dk_Parser := p\<rparr>, e), err))
      else (decoder, FeedParser api data c, None))"

text \<open>A turn of the loop: the look at the stop flag, what \<open>SSEDM_ReceiveRaw\<close> returned, the wait
  when it would block, the second look when it failed.\<close>

record read_turn =
  rt_Stop :: bool
  rt_Result :: sock_result
  rt_Bytes :: string
  rt_Waits :: "(bool \<times> sock_result) list"
  rt_StopAfter :: bool

text \<open>The loop's variables.\<close>

record reader =
  rd_HeaderBuffer :: string
  rd_HeadersDone :: bool
  rd_Chunked :: bool
  rd_Decoder :: SSEDMChunkDecoder

definition reader_new :: reader where
  "reader_new = \<lparr>rd_HeaderBuffer = [], rd_HeadersDone = False, rd_Chunked = False,
     rd_Decoder = SSEDMChunkDecoder_new\<rparr>"

datatype 'c read_step = Return "string option" 'c | Again reader 'c

text \<open>A body arrived: the end of the last chunk ends the response.\<close>

definition TakeBody ::
  "'e sse_api \<Rightarrow> string \<Rightarrow> reader \<Rightarrow> 'a desktop_scheme \<times> 'e \<Rightarrow> ('a desktop_scheme \<times> 'e) read_step" where
  "TakeBody api data r c =
     (case SSEDM_FeedBody api (rd_Chunked r) (rd_Decoder r) data c of
        (_, c1, Some err) \<Rightarrow> Return (Some err) c1
      | (decoder, c1, None) \<Rightarrow>
          if rd_Chunked r \<and> ck_State decoder = STATE_DONE then Return None c1
          else Again (r\<lparr>rd_Decoder := decoder\<rparr>) c1)"

text \<open>Bytes arrived, before or behind the headers.\<close>

definition TakeBytes ::
  "'e sse_api \<Rightarrow> string \<Rightarrow> reader \<Rightarrow> 'a desktop_scheme \<times> 'e \<Rightarrow> ('a desktop_scheme \<times> 'e) read_step" where
  "TakeBytes api data r c =
     (if rd_HeadersDone r then TakeBody api data r c
      else let buffer = rd_HeaderBuffer r @ data in
        if length buffer > 65536 then Return (Some ''HTTP response headers are too large'') c
        else case SSEDM_FindHeaderEnd buffer of
          None \<Rightarrow> Again (r\<lparr>rd_HeaderBuffer := buffer\<rparr>) c
        | Some (header_end, delimiter_size) \<Rightarrow>
            (case c of (d, e) \<Rightarrow>
              (case SSEDM_ParseResponseHeaders (take header_end buffer) of
                 Inl err \<Rightarrow> Return (Some err) (d\<lparr>dk_Status := 0\<rparr>, e)
               | Inr (status, chunked) \<Rightarrow>
                   if status < 200 \<or> status \<ge> 300 then
                     Return (Some (status_error status)) (d\<lparr>dk_Status := status\<rparr>, e)
                   else let
                     c1 = (d\<lparr>dk_Status := status, dk_Opened := True\<rparr>,
                           api_EnqueueOpen api (dk_Handle d) status e);
                     r1 = r\<lparr>rd_HeaderBuffer := [], rd_HeadersDone := True, rd_Chunked := chunked\<rparr>;
                     body_start = header_end + delimiter_size
                   in if body_start < length buffer then TakeBody api (drop body_start buffer) r1 c1
                      else Again r1 c1)))"

fun ReadLoop ::
  "'e sse_api \<Rightarrow> read_turn list \<Rightarrow> reader \<Rightarrow> 'a desktop_scheme \<times> 'e
     \<Rightarrow> (string option, 'a desktop_scheme \<times> 'e) progress" where
  "ReadLoop api [] r c = Running c"
| "ReadLoop api (t # turns) r c =
     (if rt_Stop t then Finished None c
      else if again (rt_Result t) then
        (case SSEDM_WaitForSocket (rt_Waits t) of None \<Rightarrow> Running c
         | Some w \<Rightarrow>
             if w \<noteq> RESULT_OK then Finished (Some (''socket read wait failed: '' @ ResultToString w)) c
             else ReadLoop api turns r c)
      else if rt_Result t \<noteq> RESULT_OK then
        (if rt_StopAfter t then Finished None c
         else Finished (Some (''socket receive failed: '' @ ResultToString (rt_Result t))) c)
      else if rt_Bytes t = [] then Finished None c
      else case TakeBytes api (rt_Bytes t) r c of
          Return err c1 \<Rightarrow> Finished err c1
        | Again r1 c1 \<Rightarrow> ReadLoop api turns r1 c1)"

definition SSEDM_ReadResponse ::
  "'e sse_api \<Rightarrow> read_turn list \<Rightarrow> 'a desktop_scheme \<times> 'e
     \<Rightarrow> (string option, 'a desktop_scheme \<times> 'e) progress" where
  "SSEDM_ReadResponse api turns c = ReadLoop api turns reader_new c"

section \<open>One attempt\<close>

text \<open>
  Where in an attempt the disconnecting main thread can run its \<open>SSEDM_CloseActiveConnection\<close>, which takes the connection
  in one step under the mutex: before the worker stores what it dialed, before and between its two look-ups of
  the sockets, during the exchange, and behind the worker's own close. During the exchange the worker makes no call on the pool,
  so the moment makes no difference to it; that the sockets are closed shows in the results of the socket calls.
\<close>

datatype main_point = Before_Store | Before_Sockets | Between_Sockets | In_Exchange | After_Close

text \<open>
  The inputs of an attempt: whether the pool exists, the result of \<open>Dial\<close> (the connection,
  its socket and its SSL socket, or the socket's result), the looks at the stop flag, the turns
  of the two loops, and where the main thread disconnects.
\<close>

record attempt =
  at_Pool :: bool
  at_Dial :: "sock_result + nat \<times> nat \<times> nat"
  at_StopDialed :: bool
  at_Sends :: "send_turn list"
  at_Reads :: "read_turn list"
  at_StopEnd :: bool
  at_Main :: "main_point \<Rightarrow> bool"

text \<open>What an attempt did on the network.\<close>

record trace =
  tr_Dialed :: "(string \<times> int \<times> bool) option"
  tr_Sent :: string

definition no_trace :: trace where
  "no_trace = \<lparr>tr_Dialed = None, tr_Sent = []\<rparr>"

text \<open>The main thread's steps on the worker's object, where they happen.\<close>

definition MainClose :: "attempt \<Rightarrow> main_point \<Rightarrow> SSEDesktopConnection \<Rightarrow> SSEDesktopConnection" where
  "MainClose a p d = (if at_Main a p then snd (StopAndClose (at_Pool a) d) else d)"

text \<open>From the dial's return to the connection with its sockets.\<close>

definition StoreConnection :: "attempt \<Rightarrow> nat \<Rightarrow> nat \<Rightarrow> nat \<Rightarrow> SSEDesktopConnection \<Rightarrow> SSEDesktopConnection" where
  "StoreConnection a h socket ssl d =
     (let d = SSEDM_SetConnection h (MainClose a Before_Store (pool_log (PDial h) d));
          d = (pool_log (PSocket h) (MainClose a Before_Sockets d))\<lparr>dc_Socket := socket\<rparr>
      in (pool_log (PSSLSocket h) (MainClose a Between_Sockets d))\<lparr>dc_SSLSocket := ssl\<rparr>)"

text \<open>The worker's close, then return.\<close>

definition CloseAndReturn ::
  "attempt \<Rightarrow> string option \<Rightarrow> trace \<Rightarrow> SSEDesktopConnection \<times> 'e
     \<Rightarrow> (string option \<times> trace, SSEDesktopConnection \<times> 'e) progress" where
  "CloseAndReturn a err tr c =
     (case SSEDM_CloseActiveConnection (at_Pool a) (MainClose a In_Exchange (fst c)) of (closed, d) \<Rightarrow>
        Finished (err, tr) (MainClose a After_Close d, snd c))"

text \<open>The attempt's members are reset before the dial.\<close>

definition ResetAttempt :: "SSEDMUrl \<Rightarrow> SSEDesktopConnection \<Rightarrow> SSEDesktopConnection" where
  "ResetAttempt u d = d\<lparr>dk_Parser := Reset (dk_Parser d), dk_Status := 0, dk_Opened := False,
     dc_Secure := du_Secure u, dc_CancelFlag := False\<rparr>"

definition SSEDM_PerformOnce ::
  "'e sse_api \<Rightarrow> attempt \<Rightarrow> SSEDesktopConnection \<times> 'e
     \<Rightarrow> (string option \<times> trace, SSEDesktopConnection \<times> 'e) progress" where
  "SSEDM_PerformOnce api a c = (case c of (d, e) \<Rightarrow>
     if \<not> at_Pool a then Finished (Some ''Defold connection pool is not initialized'', no_trace) (d, e)
     else case SSEDM_ParseUrl (dk_Url d) of Inl err \<Rightarrow> Finished (Some err, no_trace) (d, e)
     | Inr u \<Rightarrow>
       (let d1 = ResetAttempt u d;
            tr = no_trace\<lparr>tr_Dialed := Some (du_Host u, du_Port u, du_Secure u)\<rparr>
        in case at_Dial a of
             Inl r \<Rightarrow> Finished (Some (''failed to open SSE connection: '' @ ResultToString r), tr) (d1, e)
           | Inr (h, socket, ssl) \<Rightarrow>
             (let d2 = StoreConnection a h socket ssl d1
              in if at_StopDialed a then CloseAndReturn a None tr (d2, e)
                 else case SSEDM_BuildRequest d2 u of
                   Inl err \<Rightarrow> CloseAndReturn a (Some err) tr (d2, e)
                 | Inr request \<Rightarrow>
                   (case SSEDM_SendAll (at_Sends a) request of
                      Running out \<Rightarrow> Running (d2, e)
                    | Finished (Some err) out \<Rightarrow> CloseAndReturn a (Some err) (tr\<lparr>tr_Sent := out\<rparr>) (d2, e)
                    | Finished None out \<Rightarrow>
                        (case SSEDM_ReadResponse api (at_Reads a) (d2, e) of
                           Running c3 \<Rightarrow> Running c3
                         | Finished err c3 \<Rightarrow>
                             CloseAndReturn a (if at_StopEnd a then None else err)
                               (tr\<lparr>tr_Sent := out\<rparr>) c3)))))"

section \<open>The worker\<close>

text \<open>A round of the worker's loop: the look at the stop flag, the attempt, the look behind it,
  the looks during the sleep, and the look at the end when this round ends the loop.\<close>

record round =
  ro_Stop :: bool
  ro_Attempt :: attempt
  ro_StopAfter :: bool
  ro_Sleep :: "bool list"
  ro_StopEnd :: bool

definition SSEDM_SleepRetry :: "'a desktop_scheme \<Rightarrow> bool list \<Rightarrow> (int list \<times> bool list) option" where
  "SSEDM_SleepRetry d stops = SleepLoop (dk_RetryMS d) stops"

lemma SSEDM_SleepRetry_eq [simp]: "SSEDM_SleepRetry d stops = SSEDesktop_SleepRetry (dk_RetryMS d) stops"
  by (simp add: SSEDM_SleepRetry_def SSEDesktop_SleepRetry_def)

fun SSEDM_Worker ::
  "'e sse_api \<Rightarrow> round list \<Rightarrow> SSEDesktopConnection \<times> 'e \<Rightarrow> (unit, SSEDesktopConnection \<times> 'e) progress" where
  "SSEDM_Worker api [] c = Running c"
| "SSEDM_Worker api (r # rounds) c =
     (if ro_Stop r then Finished () (WorkerEnd api (ro_StopEnd r) c)
      else case SSEDM_PerformOnce api (ro_Attempt r) c of
        Running c1 \<Rightarrow> Running c1
      | Finished (err, _) (d, e) \<Rightarrow>
        (let e1 = api_SetConnected api (dk_Handle d) False e
         in if ro_StopAfter r then Finished () (WorkerEnd api (ro_StopEnd r) (d, e1))
            else let e2 = (case err of None \<Rightarrow> e1
                   | Some m \<Rightarrow> api_EnqueueError api (dk_Handle d) (Some (take 255 m)) (dk_Status d)
                       (dk_Reconnect d) (dk_RetryMS d) e1)
              in if \<not> dk_Reconnect d then Finished () (WorkerEnd api (ro_StopEnd r) (d, e2))
                 else case SSEDM_SleepRetry d (ro_Sleep r) of
                     None \<Rightarrow> Running (d, e2)
                   | Some _ \<Rightarrow> SSEDM_Worker api rounds (d, e2)))"

end
