(* ===== verification/WorkerLog.thy ===== *)
theory WorkerLog
  imports DesktopProps
begin

text \<open>
  What a transport's worker may say to the core: a log of its calls, and the protocol of a
  connection as an automaton over them. Every transport's worker is run on the log.
\<close>

section \<open>The log\<close>

datatype api_call =
    AOpen int int
  | AMessage int "string option" "string option" "string option" bool
  | AError int "string option" int bool int
  | AClosed int
  | AConnected int bool
  | ALastEventId int "string option"

text \<open>The queue answers as \<open>reply\<close> says, which may depend on all earlier calls.\<close>

definition log_api :: "(api_call list \<Rightarrow> bool) \<Rightarrow> api_call list sse_api" where
  "log_api reply = \<lparr>api_EnqueueOpen = (\<lambda>h st log. log @ [AOpen h st]),
     api_EnqueueMessage = (\<lambda>h n d i log. (reply log, log @ [AMessage h n d i (reply log)])),
     api_EnqueueError = (\<lambda>h m st r ms log. log @ [AError h m st r ms]),
     api_EnqueueClosed = (\<lambda>h log. log @ [AClosed h]),
     api_SetConnected = (\<lambda>h b log. log @ [AConnected h b]),
     api_SetLastEventId = (\<lambda>h v log. log @ [ALastEventId h v])\<rparr>"

lemma log_api_sel [simp]:
  "api_EnqueueOpen (log_api reply) h st log = log @ [AOpen h st]"
  "api_EnqueueMessage (log_api reply) h n d i log = (reply log, log @ [AMessage h n d i (reply log)])"
  "api_EnqueueError (log_api reply) h m st r ms log = log @ [AError h m st r ms]"
  "api_EnqueueClosed (log_api reply) h log = log @ [AClosed h]"
  "api_SetConnected (log_api reply) h b log = log @ [AConnected h b]"
  "api_SetLastEventId (log_api reply) h v log = log @ [ALastEventId h v]"
  by (simp_all add: log_api_def)

section \<open>The protocol\<close>

text \<open>
  Between two streams nothing but a connection attempt's outcome is reported; a stream begins with the
  open event of a successful response and ends when the connection is marked disconnected; a
  closed event is the last call. The lax protocol also lets messages come outside a stream and a
  stream be opened again.
\<close>

datatype phase = Waiting | Streaming | Over

fun proto_step :: "bool \<Rightarrow> int \<Rightarrow> phase \<Rightarrow> api_call \<Rightarrow> phase option" where
  "proto_step strict h Waiting (AOpen i st) = (if i = h \<and> 200 \<le> st \<and> st < 300 then Some Streaming else None)"
| "proto_step strict h Waiting (AError i m st r ms) = (if i = h then Some Waiting else None)"
| "proto_step strict h Waiting (AClosed i) = (if i = h then Some Over else None)"
| "proto_step strict h Waiting (AConnected i b) = (if i = h \<and> \<not> b then Some Waiting else None)"
| "proto_step strict h Waiting (AMessage i n d x b) = (if i = h \<and> \<not> strict then Some Waiting else None)"
| "proto_step strict h Waiting (ALastEventId i v) = (if i = h \<and> \<not> strict then Some Waiting else None)"
| "proto_step strict h Streaming (AMessage i n d x b) = (if i = h then Some Streaming else None)"
| "proto_step strict h Streaming (ALastEventId i v) = (if i = h then Some Streaming else None)"
| "proto_step strict h Streaming (AError i m st r ms) = (if i = h \<and> st = 0 then Some Streaming else None)"
| "proto_step strict h Streaming (AConnected i b) = (if i = h \<and> \<not> b then Some Waiting else None)"
| "proto_step strict h Streaming (AOpen i st) =
     (if i = h \<and> 200 \<le> st \<and> st < 300 \<and> \<not> strict then Some Streaming else None)"
| "proto_step strict h Streaming (AClosed i) = None"
| "proto_step strict h Over k = None"

fun proto :: "bool \<Rightarrow> int \<Rightarrow> phase \<Rightarrow> api_call list \<Rightarrow> phase option" where
  "proto strict h ph [] = Some ph"
| "proto strict h ph (k # ks) =
     (case proto_step strict h ph k of None \<Rightarrow> None | Some ph1 \<Rightarrow> proto strict h ph1 ks)"

lemma proto_append:
  "proto strict h ph (ks @ ls) =
     (case proto strict h ph ks of None \<Rightarrow> None | Some ph1 \<Rightarrow> proto strict h ph1 ls)"
  by (induction ks arbitrary: ph) (auto split: option.split)

text \<open>The phase a connection is in.\<close>

definition in_phase :: "bool \<Rightarrow> int \<Rightarrow> phase \<Rightarrow> 'a desktop_scheme \<times> api_call list \<Rightarrow> bool" where
  "in_phase strict h ph c \<longleftrightarrow> dk_Handle (fst c) = h \<and> proto strict h Waiting (snd c) = Some ph"

definition live :: "bool \<Rightarrow> int \<Rightarrow> 'a desktop_scheme \<times> api_call list \<Rightarrow> bool" where
  "live strict h c \<longleftrightarrow> in_phase strict h Waiting c \<or> in_phase strict h Streaming c"

definition settled :: "bool \<Rightarrow> int \<Rightarrow> 'a desktop_scheme \<times> api_call list \<Rightarrow> bool" where
  "settled strict h c \<longleftrightarrow> in_phase strict h Waiting c \<or> in_phase strict h Over c"

lemma in_phase_irrelevant [simp]:
  "in_phase strict h ph (d\<lparr>dk_Parser := p\<rparr>, e) = in_phase strict h ph (d, e)"
  "in_phase strict h ph (d\<lparr>dk_Status := st\<rparr>, e) = in_phase strict h ph (d, e)"
  "in_phase strict h ph (d\<lparr>dk_Opened := b\<rparr>, e) = in_phase strict h ph (d, e)"
  by (simp_all add: in_phase_def)

lemma live_irrelevant [simp]:
  "live strict h (d\<lparr>dk_Parser := p\<rparr>, e) = live strict h (d, e)"
  "live strict h (d\<lparr>dk_Status := st\<rparr>, e) = live strict h (d, e)"
  "live strict h (d\<lparr>dk_Opened := b\<rparr>, e) = live strict h (d, e)"
  by (simp_all add: live_def)

lemma live_same_handle: "dk_Handle d1 = dk_Handle d \<Longrightarrow> live strict h (d1, e) = live strict h (d, e)"
  by (simp add: live_def in_phase_def)

lemma open_phase:
  assumes "in_phase strict h ph (d, log)" and "ph = Waiting \<or> ph = Streaming \<and> \<not> strict"
    and "200 \<le> status" and "status < 300"
  shows "in_phase strict h Streaming (d, log @ [AOpen (dk_Handle d) status])"
  using assms by (auto simp: in_phase_def proto_append)

lemma WorkerEnd_settled:
  "in_phase strict h Waiting c \<Longrightarrow> settled strict h (WorkerEnd (log_api reply) stop c)"
  by (cases c) (simp add: WorkerEnd_def settled_def in_phase_def proto_append)

lemma live_SetConnected:
  "live strict h (d, e) \<Longrightarrow> in_phase strict h Waiting (d, e @ [AConnected (dk_Handle d) False])"
  by (auto simp: live_def in_phase_def proto_append)

lemma Waiting_error:
  "in_phase strict h Waiting (d, e) \<Longrightarrow> in_phase strict h Waiting (d, e @ [AError (dk_Handle d) m st r ms])"
  by (simp add: in_phase_def proto_append)

text \<open>The parser's callbacks stay within the stream.\<close>

interpretation stream: parser_client "desktop_callbacks (log_api reply)"
    "\<lambda>_ c. in_phase strict h ph c \<and> (ph = Streaming \<or> ph = Waiting \<and> \<not> strict)"
  for reply strict h ph
  by unfold_locales
    (auto simp: in_phase_def proto_append desktop_on split: prod.splits option.splits if_splits)

lemma FeedParser_phase:
  assumes "in_phase strict h ph c" and "ph = Streaming \<or> ph = Waiting \<and> \<not> strict"
  shows "in_phase strict h ph (FeedParser (log_api reply) bytes c)"
proof -
  obtain d e where c: "c = (d, e)" by fastforce
  obtain p d' e' where F: "Feed (Some (desktop_callbacks (log_api reply))) bytes (dk_Parser d, d, e) = (p, d', e')"
    by (metis prod_cases3)
  from stream.Feed_client [OF _ F] assms c have "in_phase strict h ph (d', e')" by blast
  with FeedParser_eq [OF F] c show ?thesis by (simp add: in_phase_def)
qed

section \<open>Feeding in pieces\<close>

text \<open>No callback touches the parser member.\<close>

interpretation aside: parser_pair "desktop_callbacks api" "desktop_callbacks api"
    "\<lambda>c c'. c' = ((fst c)\<lparr>dk_Parser := q\<rparr>, snd c)" for api q
  by unfold_locales (auto simp: desktop_on split: prod.splits option.splits if_splits)

lemma Feed_aside:
  assumes "Feed (Some (desktop_callbacks api)) bs (p, d, e) = (p1, d1, e1)"
  shows "Feed (Some (desktop_callbacks api)) bs (p, d\<lparr>dk_Parser := q\<rparr>, e) = (p1, d1\<lparr>dk_Parser := q\<rparr>, e1)"
proof -
  obtain p2 c2 where 2: "Feed (Some (desktop_callbacks api)) bs (p, d\<lparr>dk_Parser := q\<rparr>, e) = (p2, c2)"
    by (meson surj_pair)
  from aside.Feed_pair [OF _ assms 2] show ?thesis using 2 by simp
qed

lemma FeedParser_append: "FeedParser api (xs @ ys) c = FeedParser api ys (FeedParser api xs c)"
proof -
  obtain d e where c: "c = (d, e)" by fastforce
  obtain p d1 e1 where 1: "Feed (Some (desktop_callbacks api)) xs (dk_Parser d, d, e) = (p, d1, e1)"
    by (metis prod_cases3)
  obtain p' d2 e2 where 2: "Feed (Some (desktop_callbacks api)) ys (p, d1, e1) = (p', d2, e2)"
    by (metis prod_cases3)
  show ?thesis
    using 1 2 c by (simp add: FeedParser_def Feed_append Feed_aside [OF 2])
qed

end
