(* ===== verification/DmResponseProps.thy ===== *)
theory DmResponseProps
  imports DmResponse WorkerLog
begin

text \<open>
  The Linux transport's reading loop and worker: how the network cuts a response into pieces does not
  matter, what the worker reports of a connection follows the protocol at every moment, and what it dials is
  closed once, by itself or by the disconnecting main thread.
\<close>

section \<open>The decoder hands a payload to the parser\<close>

text \<open>What the decoder feeds depends on the bytes and its own state only.\<close>

definition feeds ::
  "'c parser_callbacks option \<Rightarrow> string \<Rightarrow> SSEDMChunkDecoder \<Rightarrow> SSEDMChunkDecoder \<Rightarrow> string
     \<Rightarrow> string option \<Rightarrow> bool" where
  "feeds cbs s d d1 bytes err \<longleftrightarrow>
     (\<forall>pc. SSEDM_FeedChunkedBody cbs s d pc = (d1, Feed cbs bytes pc, err))"

lemma feedsD: "feeds cbs s d d1 bytes err \<Longrightarrow> SSEDM_FeedChunkedBody cbs s d pc = (d1, Feed cbs bytes pc, err)"
  by (simp only: feeds_def)

lemma feedsI: "(\<And>pc. SSEDM_FeedChunkedBody cbs s d pc = (d1, Feed cbs bytes pc, err)) \<Longrightarrow> feeds cbs s d d1 bytes err"
  unfolding feeds_def by blast

lemma Chunked_payload: "\<exists>d1 bytes err. feeds cbs s d d1 bytes err"
proof (induction "2 * length s + (if ck_State d = STATE_DATA then 1 else 0)" arbitrary: s d
    rule: less_induct)
  case less
  show ?case
  proof (cases s)
    case Nil
    then have "feeds cbs s d d [] None" by (intro feedsI) simp
    then show ?thesis by blast
  next
    case (Cons c s')
    have stop: ?thesis if "\<And>pc. SSEDM_FeedChunkedBody cbs s d pc = (d, pc, e)" for e
    proof -
      have "feeds cbs s d d [] e" using that by (intro feedsI) simp
      then show ?thesis by blast
    qed
    have step: ?thesis if "\<And>pc. SSEDM_FeedChunkedBody cbs s d pc = SSEDM_FeedChunkedBody cbs s' d0 pc" for d0
    proof -
      have "2 * length s' + (if ck_State d0 = STATE_DATA then 1 else 0) <
          2 * length s + (if ck_State d = STATE_DATA then 1 else 0)" by (simp add: Cons)
      from less [OF this] obtain d1 bytes err where "feeds cbs s' d0 d1 bytes err" by blast
      then have "feeds cbs s d d1 bytes err" using that by (intro feedsI) (simp add: feedsD)
      then show ?thesis by blast
    qed
    show ?thesis
    proof (cases "ck_State d")
      case STATE_SIZE
      show ?thesis
      proof (cases "SizeByte d c")
        case (Inl e)
        show ?thesis by (rule stop) (simp add: Cons STATE_SIZE Inl)
      next
        case (Inr d0)
        show ?thesis by (rule step) (simp add: Cons STATE_SIZE Inr)
      qed
    next
      case STATE_DATA
      define n where "n = min (unat (ck_Remaining d)) (length s)"
      define d0 where "d0 = advance d n"
      have eq: "SSEDM_FeedChunkedBody cbs s d pc =
          SSEDM_FeedChunkedBody cbs (drop n s) d0 (Feed cbs (take n s) pc)" for pc
        using Chunked_data [OF STATE_DATA, of s] Cons by (simp only: n_def d0_def Let_def) blast
      have n: "n = 0 \<Longrightarrow> ck_Remaining d = 0" by (auto simp: n_def Cons min_def unat_eq_zero split: if_splits)
      have st: "n = 0 \<Longrightarrow> ck_State d0 = STATE_DATA_CRLF" using n by (simp add: d0_def advance_def)
      have "2 * length (drop n s) + (if ck_State d0 = STATE_DATA then 1 else 0) <
          2 * length s + (if ck_State d = STATE_DATA then 1 else 0)"
        using st STATE_DATA by (cases "n = 0") (auto simp: n_def Cons)
      from less [OF this] obtain d1 bytes err where "feeds cbs (drop n s) d0 d1 bytes err" by blast
      then have "feeds cbs s d d1 (take n s @ bytes) err"
        by (intro feedsI) (simp add: eq feedsD Feed_append)
      then show ?thesis by blast
    next
      case STATE_DATA_CRLF
      consider "c = CR" | "c = LF" | "c \<noteq> CR" "c \<noteq> LF" by blast
      then show ?thesis
      proof cases
        case 1
        show ?thesis by (rule step) (simp add: Cons STATE_DATA_CRLF 1)
      next
        case 2
        show ?thesis by (rule step) (simp add: Cons STATE_DATA_CRLF 2)
      next
        case 3
        show ?thesis by (rule stop) (simp add: Cons STATE_DATA_CRLF 3)
      qed
    next
      case STATE_DATA_LF
      show ?thesis
      proof (cases "c = LF")
        case True
        show ?thesis by (rule step) (simp add: Cons STATE_DATA_LF True)
      next
        case False
        show ?thesis by (rule stop) (simp add: Cons STATE_DATA_LF False)
      qed
    next
      case STATE_DONE
      show ?thesis by (rule stop) (simp add: Cons STATE_DONE)
    qed
  qed
qed

lemma FeedBody_chunked:
  fixes c :: "'a desktop_scheme \<times> 'e" and api :: "'e sse_api"
  assumes "feeds (Some (desktop_callbacks api :: ('a desktop_scheme \<times> 'e) parser_callbacks)) data dec dec1 bytes err" and "data \<noteq> []"
  shows "SSEDM_FeedBody api True dec data c = (dec1, FeedParser api bytes c, err)"
  using assms(2) feedsD [OF assms(1), of "(dk_Parser (fst c), c)"]
  by (simp add: SSEDM_FeedBody_def FeedParser_def split: prod.split)

lemma FeedBody_payload:
  fixes api :: "'e sse_api"
  shows "\<exists>dec1 bytes err. \<forall>c :: 'a desktop_scheme \<times> 'e. SSEDM_FeedBody api ch dec data c = (dec1, FeedParser api bytes c, err)"
proof -
  consider "data = []" | "data \<noteq> []" "ch" | "data \<noteq> []" "\<not> ch" by blast
  then show ?thesis
  proof cases
    case 1
    then have "\<forall>c :: 'a desktop_scheme \<times> 'e. SSEDM_FeedBody api ch dec data c = (dec, FeedParser api [] c, None)"
      by (simp add: SSEDM_FeedBody_def)
    then show ?thesis by blast
  next
    case 2
    obtain dec1 bytes err where
      "feeds (Some (desktop_callbacks api :: ('a desktop_scheme \<times> 'e) parser_callbacks)) data dec dec1 bytes err"
      using Chunked_payload by blast
    with 2 have "\<forall>c :: 'a desktop_scheme \<times> 'e. SSEDM_FeedBody api ch dec data c = (dec1, FeedParser api bytes c, err)"
      by (simp add: FeedBody_chunked)
    then show ?thesis by blast
  next
    case 3
    then have "\<forall>c :: 'a desktop_scheme \<times> 'e. SSEDM_FeedBody api ch dec data c = (dec, FeedParser api data c, None)"
      by (simp add: SSEDM_FeedBody_def)
    then show ?thesis by blast
  qed
qed

lemma FeedBody_append:
  fixes c :: "'a desktop_scheme \<times> 'e" and api :: "'e sse_api"
  shows "SSEDM_FeedBody api ch dec (xs @ ys) c =
     (case SSEDM_FeedBody api ch dec xs c of
        (dec1, c1, Some err) \<Rightarrow> (dec1, c1, Some err)
      | (dec1, c1, None) \<Rightarrow> SSEDM_FeedBody api ch dec1 ys c1)"
proof (cases "xs = [] \<or> ys = [] \<or> \<not> ch")
  case True
  then show ?thesis
    by (auto simp: SSEDM_FeedBody_def FeedParser_append split: prod.split option.split)
next
  case False
  let ?k = "Some (desktop_callbacks api :: ('a desktop_scheme \<times> 'e) parser_callbacks)"
  obtain d1 b1 e1 where 1: "feeds ?k xs dec d1 b1 e1" using Chunked_payload by blast
  obtain d2 b2 e2 where 2: "feeds ?k ys d1 d2 b2 e2" using Chunked_payload by blast
  have "feeds ?k (xs @ ys) dec (if e1 = None then d2 else d1) (if e1 = None then b1 @ b2 else b1)
      (if e1 = None then e2 else e1)"
    by (intro feedsI) (simp add: Chunked_append feedsD [OF 1] feedsD [OF 2] Feed_append split: option.split)
  from FeedBody_chunked [OF this] show ?thesis
    using False FeedBody_chunked [OF 1] FeedBody_chunked [OF 2]
    by (cases e1) (simp_all add: FeedParser_append)
qed

section \<open>The worker keeps to the protocol\<close>

lemma FeedBody_phase:
  assumes "in_phase True h Streaming c" and "SSEDM_FeedBody (log_api reply) ch dec data c = (dec1, c1, err)"
  shows "in_phase True h Streaming c1"
proof -
  obtain dec2 bytes err2 where
    "\<forall>c :: 'a desktop_scheme \<times> api_call list.
       SSEDM_FeedBody (log_api reply) ch dec data c = (dec2, FeedParser (log_api reply) bytes c, err2)"
    using FeedBody_payload by blast
  with assms(2) have "c1 = FeedParser (log_api reply) bytes c" by simp
  then show ?thesis using FeedParser_phase [OF assms(1)] by simp
qed

fun step_context :: "'c read_step \<Rightarrow> 'c" where
  "step_context (Return err c) = c"
| "step_context (Again r c) = c"

lemma TakeBody_phase:
  assumes "in_phase True h Streaming c"
  shows "in_phase True h Streaming (step_context (TakeBody (log_api reply) data r c))"
    and "TakeBody (log_api reply) data r c = Again r1 c1 \<Longrightarrow> rd_HeadersDone r1 = rd_HeadersDone r"
  using FeedBody_phase [OF assms, of reply "rd_Chunked r" "rd_Decoder r" data]
  by (auto simp: TakeBody_def split: prod.splits option.splits if_splits)

text \<open>Behind the headers of a successful response the connection streams, before them it waits.\<close>

definition reading_phase :: "reader \<Rightarrow> phase" where
  "reading_phase r = (if rd_HeadersDone r then Streaming else Waiting)"

lemma TakeBytes_phase:
  assumes "in_phase True h (reading_phase r) c"
  shows "live True h (step_context (TakeBytes (log_api reply) data r c))
     \<and> (\<forall>r1 c1. TakeBytes (log_api reply) data r c = Again r1 c1 \<longrightarrow> in_phase True h (reading_phase r1) c1)"
proof (cases "rd_HeadersDone r")
  case True
  with assms have "in_phase True h Streaming c" by (simp add: reading_phase_def)
  from TakeBody_phase [OF this, of reply data r] True show ?thesis
    by (auto simp: TakeBytes_def live_def reading_phase_def)
next
  case False
  obtain d log where c: "c = (d, log)" by fastforce
  from assms False c have w: "in_phase True h Waiting (d, log)" by (simp add: reading_phase_def)
  define buffer where "buffer = rd_HeaderBuffer r @ data"
  show ?thesis
  proof (cases "length buffer > 65536 \<or> SSEDM_FindHeaderEnd buffer = None")
    case True
    with w c \<open>\<not> rd_HeadersDone r\<close> show ?thesis
      by (auto simp: TakeBytes_def buffer_def [symmetric] Let_def live_def reading_phase_def)
  next
    case found: False
    then obtain i n where f: "SSEDM_FindHeaderEnd buffer = Some (i, n)" by auto
    show ?thesis
    proof (cases "SSEDM_ParseResponseHeaders (take i buffer)")
      case (Inl err)
      with w c found f \<open>\<not> rd_HeadersDone r\<close> show ?thesis
        by (simp add: TakeBytes_def buffer_def [symmetric] Let_def live_def)
    next
      case (Inr sc)
      obtain status ch where sc: "sc = (status, ch)" by fastforce
      show ?thesis
      proof (cases "200 \<le> status \<and> status < 300")
        case False
        with w c found f Inr sc \<open>\<not> rd_HeadersDone r\<close> show ?thesis
          by (auto simp: TakeBytes_def buffer_def [symmetric] Let_def live_def)
      next
        case True
        define c1 where "c1 = (d\<lparr>dk_Status := status, dk_Opened := True\<rparr>, log @ [AOpen (dk_Handle d) status])"
        define r1 where "r1 = r\<lparr>rd_HeaderBuffer := [], rd_HeadersDone := True, rd_Chunked := ch\<rparr>"
        from True w have s: "in_phase True h Streaming c1" using open_phase [of True h Waiting d log status] by (simp add: c1_def)
        have "TakeBytes (log_api reply) data r c =
            (if i + n < length buffer then TakeBody (log_api reply) (drop (i + n) buffer) r1 c1 else Again r1 c1)"
          using c found f Inr sc True \<open>\<not> rd_HeadersDone r\<close>
          by (simp add: TakeBytes_def buffer_def [symmetric] Let_def c1_def r1_def)
        with s TakeBody_phase [OF s, of reply "drop (i + n) buffer" r1] show ?thesis
          by (auto simp: live_def reading_phase_def r1_def split: if_splits)
      qed
    qed
  qed
qed

lemma ReadLoop_phase:
  "in_phase True h (reading_phase r) c \<Longrightarrow> live True h (reached (ReadLoop (log_api reply) turns r c))"
proof (induction turns arbitrary: r c)
  case Nil
  then show ?case by (auto simp: live_def reading_phase_def split: if_splits)
next
  case (Cons t turns)
  have l: "live True h c" using Cons.prems by (auto simp: live_def reading_phase_def split: if_splits)
  note T = TakeBytes_phase [OF Cons.prems, of reply "rt_Bytes t"]
  show ?case
    using l T Cons.IH [OF Cons.prems] Cons.IH
    by (auto split: option.split read_step.splits)
qed

text \<open>Members that play no part in the protocol.\<close>

lemma SetConnection_handle [simp]: "dk_Handle (SSEDM_SetConnection x d) = dk_Handle d"
  by (simp add: SSEDM_SetConnection_def)

lemma Close_handle [simp]:
  "dk_Handle (snd (SSEDM_CloseActiveConnection pool d)) = dk_Handle d" "dk_Handle (MainClose a p d) = dk_Handle d"
  by (simp_all add: MainClose_def StopAndClose_def SSEDM_CloseActiveConnection_def SSEDM_TakeConnection_def pool_log_def)

lemma CloseAndReturn_eq:
  "CloseAndReturn a err tr (d, e) = Finished (err, tr)
     (MainClose a After_Close (snd (SSEDM_CloseActiveConnection (at_Pool a) (MainClose a In_Exchange d))), e)"
  by (simp add: CloseAndReturn_def split: prod.split)

lemma CloseAndReturn_live: "live True h c \<Longrightarrow> live True h (reached (CloseAndReturn a err tr c))"
  by (cases c) (simp add: CloseAndReturn_eq live_def in_phase_def)

lemma ResetAttempt_phase [simp]: "in_phase True h ph (ResetAttempt u d, e) = in_phase True h ph (d, e)"
  by (simp add: ResetAttempt_def in_phase_def)

lemma dialed_phase:
  "in_phase True h ph (d, e) \<Longrightarrow>
   in_phase True h ph (StoreConnection a x so sl (ResetAttempt u d), e)"
  by (simp add: in_phase_def ResetAttempt_def StoreConnection_def Let_def pool_log_def)

lemma PerformOnce_live:
  assumes "in_phase True h Waiting c"
  shows "live True h (reached (SSEDM_PerformOnce (log_api reply) a c))"
proof -
  obtain d e where c: "c = (d, e)" by fastforce
  with assms have w: "in_phase True h Waiting (d, e)" by simp
  show ?thesis
  proof (cases "at_Pool a \<and> (\<exists>u. SSEDM_ParseUrl (dk_Url d) = Inr u)")
    case False
    with w c show ?thesis by (auto simp: SSEDM_PerformOnce_def live_def split: sum.split)
  next
    case True
    then obtain u where u: "SSEDM_ParseUrl (dk_Url d) = Inr u" and p: "at_Pool a" by blast
    show ?thesis
    proof (cases "at_Dial a")
      case (Inl r)
      with w c u p show ?thesis by (simp add: SSEDM_PerformOnce_def Let_def live_def)
    next
      case (Inr x)
      obtain hd so sl where x: "x = (hd, so, sl)" by (metis prod_cases3)
      define d2 where "d2 = StoreConnection a hd so sl (ResetAttempt u d)"
      have w2: "in_phase True h Waiting (d2, e)" unfolding d2_def by (rule dialed_phase [OF w])
      then have l2: "live True h (d2, e)" by (simp add: live_def)
      have rd: "live True h (reached (SSEDM_ReadResponse (log_api reply) (at_Reads a) (d2, e)))"
        unfolding SSEDM_ReadResponse_def
        by (rule ReadLoop_phase) (use w2 in \<open>simp add: reading_phase_def reader_new_def\<close>)
      show ?thesis
        unfolding SSEDM_PerformOnce_def c prod.case
        using p u Inr x l2 rd CloseAndReturn_live
        by (auto simp: Let_def d2_def [symmetric] split: sum.split progress.splits option.split)
    qed
  qed
qed

lemma DM_Worker_phase:
  assumes "in_phase True h Waiting c"
  shows "case SSEDM_Worker (log_api reply) rounds c of Running c1 \<Rightarrow> live True h c1 | Finished _ c1 \<Rightarrow> settled True h c1"
  using assms
proof (induction rounds arbitrary: c)
  case Nil
  then show ?case by (simp add: live_def)
next
  case (Cons r rounds)
  show ?case
  proof (cases "ro_Stop r")
    case True
    with Cons.prems show ?thesis by (simp add: WorkerEnd_settled)
  next
    case False
    note P = PerformOnce_live [OF Cons.prems, of reply "ro_Attempt r"]
    show ?thesis
    proof (cases "SSEDM_PerformOnce (log_api reply) (ro_Attempt r) c")
      case (Running c1)
      with P False show ?thesis by simp
    next
      case (Finished out c1)
      obtain err tr d e where out: "out = (err, tr)" "c1 = (d, e)" by (metis surj_pair)
      define e1 where "e1 = e @ [AConnected (dk_Handle d) False]"
      define e2 where "e2 = (case err of None \<Rightarrow> e1 | Some m \<Rightarrow>
        e1 @ [AError (dk_Handle d) (Some (take 255 m)) (dk_Status d) (dk_Reconnect d) (dk_RetryMS d)])"
      have w1: "in_phase True h Waiting (d, e1)"
        unfolding e1_def by (rule live_SetConnected) (use P Finished out in simp)
      then have w2: "in_phase True h Waiting (d, e2)"
        by (auto simp: e2_def intro: Waiting_error split: option.split)
      then have l2: "live True h (d, e2)" by (simp add: live_def)
      have eq: "SSEDM_Worker (log_api reply) (r # rounds) c =
          (if ro_StopAfter r then Finished () (WorkerEnd (log_api reply) (ro_StopEnd r) (d, e1))
           else if \<not> dk_Reconnect d then Finished () (WorkerEnd (log_api reply) (ro_StopEnd r) (d, e2))
           else case SSEDesktop_SleepRetry (dk_RetryMS d) (ro_Sleep r) of None \<Rightarrow> Running (d, e2)
             | Some _ \<Rightarrow> SSEDM_Worker (log_api reply) rounds (d, e2))"
        using False Finished out by (cases err) (simp_all add: Let_def e1_def e2_def split: option.split)
      show ?thesis
        unfolding eq using l2 Cons.IH [OF w2] WorkerEnd_settled [OF w1] WorkerEnd_settled [OF w2]
        by (simp split: option.split)
    qed
  qed
qed

text \<open>
  C15. The life of a Linux connection as its worker reports it, at every moment and whatever the network, the queue and
  the main thread do: messages and resume positions come only within a stream, a stream starts with the
  open event of a response with status 2xx and ends before anything else is reported, and nothing
  follows the closed event, so it comes at most once.
\<close>
theorem dm_worker_protocol:
  "let c = SSEDM_Worker (log_api reply) rounds (d, [])
   in \<exists>ph. proto True (dk_Handle d) Waiting (snd (reached c)) = Some ph
     \<and> (case c of Running _ \<Rightarrow> ph \<noteq> Over | Finished _ _ \<Rightarrow> ph \<noteq> Streaming)"
proof -
  have "in_phase True (dk_Handle d) Waiting (d, [])" by (simp add: in_phase_def)
  from DM_Worker_phase [OF this, of reply rounds] show ?thesis
    by (auto simp: Let_def live_def settled_def in_phase_def split: progress.splits)
qed

section \<open>The response, however it is cut\<close>

text \<open>A turn in which nothing goes wrong: bytes arrive, or the worker waits until some can.\<close>

definition quiet_turn :: "read_turn \<Rightarrow> bool" where
  "quiet_turn t \<longleftrightarrow> \<not> rt_Stop t \<and>
     (again (rt_Result t) \<and> SSEDM_WaitForSocket (rt_Waits t) = Some RESULT_OK
      \<or> rt_Result t = RESULT_OK \<and> rt_Bytes t \<noteq> [] \<and> length (rt_Bytes t) \<le> 8192)"

definition piece :: "read_turn \<Rightarrow> string" where
  "piece t = (if again (rt_Result t) then [] else rt_Bytes t)"

definition end_turn :: "read_turn \<Rightarrow> bool" where
  "end_turn t \<longleftrightarrow> \<not> rt_Stop t \<and> rt_Result t = RESULT_OK \<and> rt_Bytes t = []"

lemma again_OK [simp]: "\<not> again RESULT_OK" by (simp add: again_def)

lemma quiet_wait:
  "quiet_turn t \<Longrightarrow> again (rt_Result t) \<Longrightarrow>
   \<not> rt_Stop t \<and> SSEDM_WaitForSocket (rt_Waits t) = Some RESULT_OK \<and> piece t = []"
  by (auto simp: quiet_turn_def piece_def)

lemma quiet_bytes:
  "quiet_turn t \<Longrightarrow> \<not> again (rt_Result t) \<Longrightarrow>
   \<not> rt_Stop t \<and> rt_Result t = RESULT_OK \<and> rt_Bytes t \<noteq> [] \<and> length (rt_Bytes t) \<le> 8192 \<and> piece t = rt_Bytes t"
  by (auto simp: quiet_turn_def piece_def)

lemma FeedBody_done: "ck_State dec = STATE_DONE \<Longrightarrow> SSEDM_FeedBody api True dec data c = (dec, c, None)"
  by (cases data; cases c) (simp_all add: SSEDM_FeedBody_def)

lemma FeedBody_Nil [simp]: "SSEDM_FeedBody api ch dec [] c = (dec, c, None)"
  by (simp add: SSEDM_FeedBody_def)

lemma ReadLoop_body:
  "rd_HeadersDone r \<Longrightarrow> list_all quiet_turn turns \<Longrightarrow> end_turn t \<Longrightarrow>
   ReadLoop api (turns @ t # ts) r c =
     (case SSEDM_FeedBody api (rd_Chunked r) (rd_Decoder r) (concat (map piece turns)) c of
        (_, c1, err) \<Rightarrow> Finished err c1)"
proof (induction turns arbitrary: r c)
  case Nil
  then show ?case by (simp add: end_turn_def)
next
  case (Cons u turns)
  show ?case
  proof (cases "again (rt_Result u)")
    case True
    with Cons quiet_wait [of u] show ?thesis by simp
  next
    case False
    with Cons.prems(2) quiet_bytes [of u] have u: "\<not> rt_Stop u" "rt_Result u = RESULT_OK" "rt_Bytes u \<noteq> []"
      and pu: "piece u = rt_Bytes u" by simp_all
    obtain dec c1 err where F: "SSEDM_FeedBody api (rd_Chunked r) (rd_Decoder r) (rt_Bytes u) c = (dec, c1, err)"
      by (metis prod_cases3)
    have "ReadLoop api (turns @ t # ts) (r\<lparr>rd_Decoder := dec\<rparr>) c1 =
        (case SSEDM_FeedBody api (rd_Chunked r) dec (concat (map piece turns)) c1 of (_, c1, err) \<Rightarrow> Finished err c1)"
      using Cons.IH [of "r\<lparr>rd_Decoder := dec\<rparr>" c1] Cons.prems by simp
    with u F Cons.prems(1) show ?thesis
      by (cases err) (auto simp: pu FeedBody_append TakeBytes_def TakeBody_def FeedBody_done
          split: if_splits)
  qed
qed

lemma find_str_append: "find_str pat xs = Some i \<Longrightarrow> find_str pat (xs @ ys) = Some i"
proof (induction xs arbitrary: i)
  case Nil
  then show ?case by (cases ys) (auto split: if_splits)
next
  case (Cons c xs)
  show ?case
  proof (cases "take (length pat) (c # xs) = pat")
    case True
    then have "length pat \<le> length (c # xs)" by (metis length_take min.cobounded1)
    then have "take (length pat) ((c # xs) @ ys) = take (length pat) (c # xs)"
      by (simp only: take_append) simp
    with True Cons.prems show ?thesis by simp
  next
    case False
    with Cons.prems obtain j where j: "find_str pat xs = Some j" "i = Suc j" by auto
    show ?thesis
    proof (cases "take (length pat) (c # xs @ ys) = pat")
      case True
      have "j + length pat \<le> length xs" using find_str_Some [OF j(1)] by simp
      then have "length pat \<le> length (c # xs)" by simp
      then have "take (length pat) ((c # xs) @ ys) = take (length pat) (c # xs)"
        by (simp only: take_append) simp
      with True False show ?thesis by simp
    next
      case False
      with j Cons.IH [OF j(1)] show ?thesis by simp
    qed
  qed
qed

text \<open>The header block of a response: the blank line behind it is the first one.\<close>

definition header_block :: "string \<Rightarrow> bool" where
  "header_block head \<longleftrightarrow> find_str (CRLF @ CRLF) (head @ CRLF @ CRLF) = Some (length head)
     \<and> find_str [LF, LF] (head @ CRLF @ CRLF) = None"

lemma FindHeaderEnd_found:
  "header_block head \<Longrightarrow> SSEDM_FindHeaderEnd (head @ CRLF @ CRLF @ rest) = Some (length head, 4)"
  using find_str_append [of "CRLF @ CRLF" "head @ CRLF @ CRLF" "length head" rest]
  by (simp add: header_block_def SSEDM_FindHeaderEnd_def)

lemma FindHeaderEnd_early:
  assumes "header_block head" and "b @ rest = head @ CRLF @ CRLF" and "length b < length head + 4"
  shows "SSEDM_FindHeaderEnd b = None"
proof -
  have "find_str [LF, LF] b = None"
    using assms(1,2) find_str_append [of "[LF, LF]" b _ rest] by (cases "find_str [LF, LF] b") (auto simp: header_block_def)
  moreover have "find_str (CRLF @ CRLF) b = None"
  proof (cases "find_str (CRLF @ CRLF) b")
    case (Some i)
    from find_str_append [OF this, of rest] assms(1,2) have "i = length head" by (simp add: header_block_def)
    with find_str_Some [OF Some] assms(3) show ?thesis by simp
  qed
  ultimately show ?thesis by (simp add: SSEDM_FindHeaderEnd_def)
qed

text \<open>What a successful response does, as one step.\<close>

definition Respond ::
  "'e sse_api \<Rightarrow> SSEDMChunkDecoder \<Rightarrow> int \<Rightarrow> bool \<Rightarrow> string \<Rightarrow> 'a desktop_scheme \<times> 'e
     \<Rightarrow> (string option, 'a desktop_scheme \<times> 'e) progress" where
  "Respond api dec status chunked body c =
     (case SSEDM_FeedBody api chunked dec body
        ((fst c)\<lparr>dk_Status := status, dk_Opened := True\<rparr>,
         api_EnqueueOpen api (dk_Handle (fst c)) status (snd c)) of
      (_, c1, err) \<Rightarrow> Finished err c1)"

lemma ReadLoop_head:
  assumes "header_block head" and "length head + 8195 \<le> 65536"
    and "SSEDM_ParseResponseHeaders head = Inr (status, chunked)" and "200 \<le> status" and "status < 300"
    and "end_turn t"
  shows "\<not> rd_HeadersDone r \<Longrightarrow> list_all quiet_turn turns \<Longrightarrow>
     rd_HeaderBuffer r @ concat (map piece turns) = head @ CRLF @ CRLF @ body \<Longrightarrow>
     length (rd_HeaderBuffer r) < length head + 4 \<Longrightarrow>
     ReadLoop api (turns @ t # ts) r c = Respond api (rd_Decoder r) status chunked body c"
proof (induction turns arbitrary: r)
  case Nil
  then have "length (rd_HeaderBuffer r) = length head + 4 + length body" by simp
  with Nil.prems(4) show ?case by simp
next
  case (Cons u turns)
  show ?case
  proof (cases "again (rt_Result u)")
    case True
    with Cons quiet_wait [of u] show ?thesis by simp
  next
    case False
    with Cons.prems(2) quiet_bytes [of u]
    have u: "\<not> rt_Stop u" "rt_Result u = RESULT_OK" "rt_Bytes u \<noteq> []" "length (rt_Bytes u) \<le> 8192"
      and pu: "piece u = rt_Bytes u" by simp_all
    define b where "b = rd_HeaderBuffer r @ rt_Bytes u"
    have b: "b @ concat (map piece turns) = head @ CRLF @ CRLF @ body"
      using Cons.prems(3) by (simp add: b_def pu)
    have "length b \<le> 65536" using Cons.prems(4) u(4) assms(2) by (simp add: b_def)
    then have big: "\<not> 65536 < length b" by simp
    show ?thesis
    proof (cases "length b < length head + 4")
      case True
      have "b = take (length b) (head @ CRLF @ CRLF @ body)" by (metis b append_eq_conv_conj)
      also have "\<dots> = take (length b) ((head @ CRLF @ CRLF) @ body)" by simp
      also have "\<dots> = take (length b) (head @ CRLF @ CRLF)"
        unfolding take_append using True by simp
      finally have "b @ drop (length b) (head @ CRLF @ CRLF) = head @ CRLF @ CRLF"
        by (metis append_take_drop_id)
      from FindHeaderEnd_early [OF assms(1) this True]
      have "TakeBytes api (rt_Bytes u) r c = Again (r\<lparr>rd_HeaderBuffer := b\<rparr>) c"
        using Cons.prems(1) big by (simp add: TakeBytes_def b_def)
      with Cons.IH [of "r\<lparr>rd_HeaderBuffer := b\<rparr>"] Cons.prems b True u show ?thesis by simp
    next
      case False
      define x where "x = drop (length head + 4) b"
      have hb: "head @ CRLF @ CRLF @ body = (head @ CRLF @ CRLF) @ body" by simp
      have tk: "take (length head + 4) b = head @ CRLF @ CRLF"
      proof -
        have "take (length head + 4) b = take (length head + 4) (b @ concat (map piece turns))"
          using False by simp
        then show ?thesis unfolding b hb by simp
      qed
      then have bx: "b = head @ CRLF @ CRLF @ x" unfolding x_def by (metis append_take_drop_id append_assoc)
      have body: "body = x @ concat (map piece turns)" using b unfolding bx by simp
      define c1 where "c1 = ((fst c)\<lparr>dk_Status := status, dk_Opened := True\<rparr>,
         api_EnqueueOpen api (dk_Handle (fst c)) status (snd c))"
      define r1 where "r1 = r\<lparr>rd_HeaderBuffer := [], rd_HeadersDone := True, rd_Chunked := chunked\<rparr>"
      have r1: "rd_HeadersDone r1" "rd_Chunked r1 = chunked" "rd_Decoder r1 = rd_Decoder r"
        by (simp_all add: r1_def)
      have xx: "drop (length head + 4) b = x" by (simp add: x_def)
      have T: "TakeBytes api (rt_Bytes u) r c = (if x \<noteq> [] then TakeBody api x r1 c1 else Again r1 c1)"
        using Cons.prems(1) big FindHeaderEnd_found [OF assms(1), of x] assms(3,4,5)
        by (cases c) (simp add: TakeBytes_def b_def [symmetric] bx c1_def r1_def)
      obtain dec c2 err where F: "SSEDM_FeedBody api chunked (rd_Decoder r) x c1 = (dec, c2, err)"
        by (metis prod_cases3)
      have q: "list_all quiet_turn turns" using Cons.prems(2) by simp
      have r2: "rd_HeadersDone (r1\<lparr>rd_Decoder := dec\<rparr>)" using r1 by simp
      show ?thesis
        using u T F ReadLoop_body [OF r2 q assms(6), of api ts c2] ReadLoop_body [OF r1(1) q assms(6), of api ts c1] r1
        by (cases "x = []"; cases err)
          (auto simp: Respond_def c1_def [symmetric] body FeedBody_append TakeBody_def FeedBody_done split: if_splits)
    qed
  qed
qed

text \<open>
  C19. A response with status 2xx and a head of at most 57341 bytes, however the network cuts it: reading it piece by piece,
  with waits in between, up to the end of the
  connection has the effect of its status line and its whole body at once: the open event, then the body to the parser
  (through the chunk decoder when the headers say so), and the decoder's error if it found one. (With a longer head the cuts
  matter: the buffer's cap of 64 KiB can be met by bytes of the body that came with the end of the head.)
\<close>
theorem response_any_fragmentation:
  assumes "list_all quiet_turn turns" and "concat (map piece turns) = head @ CRLF @ CRLF @ body"
    and "header_block head" and "length head \<le> 57341"
    and "SSEDM_ParseResponseHeaders head = Inr (status, chunked)" and "200 \<le> status" and "status < 300"
    and "end_turn t"
  shows "SSEDM_ReadResponse api (turns @ t # ts) c = Respond api SSEDMChunkDecoder_new status chunked body c"
  unfolding SSEDM_ReadResponse_def
  using ReadLoop_head [OF assms(3) _ assms(5-8), of reader_new turns body api ts c] assms(1,2,4)
  by (simp add: reader_new_def)

definition demo_turns :: "read_turn list" where
  "demo_turns =
     [\<lparr>rt_Stop = False, rt_Result = RESULT_OK, rt_Bytes = ''HTTP/1.1 200 OK'' @ [CR], rt_Waits = [], rt_StopAfter = False\<rparr>,
      \<lparr>rt_Stop = False, rt_Result = RESULT_WOULDBLOCK, rt_Bytes = [],
        rt_Waits = [(False, RESULT_TRY_AGAIN), (False, RESULT_OK)], rt_StopAfter = False\<rparr>,
      \<lparr>rt_Stop = False, rt_Result = RESULT_OK, rt_Bytes = [LF] @ CRLF @ ''dat'', rt_Waits = [], rt_StopAfter = False\<rparr>,
      \<lparr>rt_Stop = False, rt_Result = RESULT_OK, rt_Bytes = ''a: x'' @ [LF, LF], rt_Waits = [], rt_StopAfter = False\<rparr>]"

definition eof_turn :: read_turn where
  "eof_turn = \<lparr>rt_Stop = False, rt_Result = RESULT_OK, rt_Bytes = [], rt_Waits = [], rt_StopAfter = False\<rparr>"

theorem response_any_fragmentation_witness:
  "snd (reached (SSEDM_ReadResponse (log_api (\<lambda>_. True)) (demo_turns @ eof_turn # []) (demo_worker, []))) =
     [AOpen (dk_Handle demo_worker) 200,
      AMessage (dk_Handle demo_worker) (Some ''message'') (Some ''x'') (Some []) True]"
proof -
  let ?head = "''HTTP/1.1 200 OK''" and ?body = "''data: x'' @ [LF, LF]"
  have "list_all quiet_turn demo_turns" by code_simp
  moreover have "concat (map piece demo_turns) = ?head @ CRLF @ CRLF @ ?body" by code_simp
  moreover have "header_block ?head" by code_simp
  moreover have "SSEDM_ParseResponseHeaders ?head = Inr (200, False)" by code_simp
  moreover have "end_turn eof_turn" by code_simp
  ultimately have "SSEDM_ReadResponse (log_api (\<lambda>_. True)) (demo_turns @ eof_turn # []) (demo_worker, []) =
      Respond (log_api (\<lambda>_. True)) SSEDMChunkDecoder_new 200 False ?body (demo_worker, [])"
    by (intro response_any_fragmentation) simp_all
  moreover have "snd (reached (Respond (log_api (\<lambda>_. True)) SSEDMChunkDecoder_new 200 False ?body (demo_worker, []))) =
      [AOpen (dk_Handle demo_worker) 200,
       AMessage (dk_Handle demo_worker) (Some ''message'') (Some ''x'') (Some []) True]" by code_simp
  ultimately show ?thesis by simp
qed

section \<open>The request goes out in order\<close>

text \<open>
  Whatever the socket accepts at a time, the bytes that went out are at every moment a prefix of the request, and
  when the loop returns without an error and without having seen a stop they are all of it.
\<close>
theorem request_sent_in_order:
  "prefix (reached (SSEDM_SendAll turns data)) data
     \<and> (list_all (\<lambda>t. \<not> st_Stop t) turns \<and> (\<exists>out. SSEDM_SendAll turns data = Finished None out)
        \<longrightarrow> reached (SSEDM_SendAll turns data) = data)"
proof (induction turns data rule: SSEDM_SendAll.induct)
  case (3 t turns b data)
  let ?n = "nat (st_Sent t)" and ?data = "b # data"
  show ?case
  proof (cases "\<not> st_Stop t \<and> st_Result t = RESULT_OK \<and> st_Sent t > 0")
    case True
    then have eq: "SSEDM_SendAll (t # turns) ?data =
        map_progress id (\<lambda>out. take ?n ?data @ out) (SSEDM_SendAll turns (drop ?n ?data))" by simp
    have IH: "prefix (reached (SSEDM_SendAll turns (drop ?n ?data))) (drop ?n ?data)"
      "list_all (\<lambda>t. \<not> st_Stop t) turns \<and> (\<exists>out. SSEDM_SendAll turns (drop ?n ?data) = Finished None out)
        \<longrightarrow> reached (SSEDM_SendAll turns (drop ?n ?data)) = drop ?n ?data"
      using 3(1) True by blast+
    have pre: "prefix (take ?n ?data @ out) ?data" if "prefix out (drop ?n ?data)" for out
      using that by (metis append_take_drop_id same_prefix_prefix)
    show ?thesis
      unfolding eq
      using IH pre by (cases "SSEDM_SendAll turns (drop ?n ?data)") auto
  next
    case False
    with 3(2) show ?thesis by (auto split: option.split)
  qed
qed simp_all

theorem request_sent_in_order_witness:
  "let turns = [\<lparr>st_Stop = False, st_Result = RESULT_OK, st_Sent = 2, st_Waits = []\<rparr>,
      \<lparr>st_Stop = False, st_Result = RESULT_TRY_AGAIN, st_Sent = 0, st_Waits = [(False, RESULT_OK)]\<rparr>,
      \<lparr>st_Stop = False, st_Result = RESULT_OK, st_Sent = 3, st_Waits = []\<rparr>]
   in reached (SSEDM_SendAll turns ''abcde'') = ''abcde''"
proof -
  let ?turns = "[\<lparr>st_Stop = False, st_Result = RESULT_OK, st_Sent = 2, st_Waits = []\<rparr>,
      \<lparr>st_Stop = False, st_Result = RESULT_TRY_AGAIN, st_Sent = 0, st_Waits = [(False, RESULT_OK)]\<rparr>,
      \<lparr>st_Stop = False, st_Result = RESULT_OK, st_Sent = 3, st_Waits = []\<rparr>]"
  have "\<exists>out. SSEDM_SendAll ?turns ''abcde'' = Finished None out" by (simp add: again_def)
  then show ?thesis unfolding Let_def
    using request_sent_in_order [of ?turns "''abcde''"] by (simp del: SSEDM_SendAll.simps)
qed

section \<open>A stop request ends the worker\<close>

definition waits_end :: "(bool \<times> sock_result) list \<Rightarrow> bool" where
  "waits_end ws \<longleftrightarrow> list_ex (\<lambda>(stop, r). stop \<or> \<not> again r) ws"

text \<open>The main thread has set the stop flag by some turn of every loop.\<close>

definition attempt_ends :: "attempt \<Rightarrow> bool" where
  "attempt_ends a \<longleftrightarrow> list_ex st_Stop (at_Sends a) \<and> list_all (\<lambda>t. waits_end (st_Waits t)) (at_Sends a)
     \<and> list_ex rt_Stop (at_Reads a) \<and> list_all (\<lambda>t. waits_end (rt_Waits t)) (at_Reads a)"

definition rounds_end :: "round list \<Rightarrow> bool" where
  "rounds_end rs \<longleftrightarrow> list_ex ro_Stop rs
     \<and> list_all (\<lambda>r. attempt_ends (ro_Attempt r) \<and> list_ex id (ro_Sleep r)) rs"

lemma Wait_ends: "waits_end ws \<Longrightarrow> \<exists>r. SSEDM_WaitForSocket ws = Some r"
  by (induction ws rule: SSEDM_WaitForSocket.induct) (auto simp: waits_end_def)

fun ended :: "('r, 'c) progress \<Rightarrow> bool" where
  "ended (Running c) = False"
| "ended (Finished r c) = True"

lemma ended_iff: "ended p \<longleftrightarrow> (\<exists>r c. p = Finished r c)"
  by (cases p) auto

lemma ended_map [simp]: "ended (map_progress f g p) = ended p"
  by (cases p) simp_all

lemma SendAll_ends:
  "list_ex st_Stop turns \<Longrightarrow> list_all (\<lambda>t. waits_end (st_Waits t)) turns \<Longrightarrow> ended (SSEDM_SendAll turns data)"
proof (induction turns arbitrary: data)
  case (Cons t turns)
  obtain w where w: "SSEDM_WaitForSocket (st_Waits t) = Some w" using Cons.prems(2) Wait_ends by auto
  have IH: "\<not> st_Stop t \<Longrightarrow> ended (SSEDM_SendAll turns data)" for data using Cons by simp
  show ?case by (cases data) (use IH w in simp_all)
qed simp

lemma ReadLoop_ends:
  fixes c :: "'a desktop_scheme \<times> 'e"
  shows "list_ex rt_Stop turns \<Longrightarrow> list_all (\<lambda>t. waits_end (rt_Waits t)) turns \<Longrightarrow> ended (ReadLoop api turns r c)"
proof (induction turns arbitrary: r c)
  case (Cons t turns)
  obtain w where w: "SSEDM_WaitForSocket (rt_Waits t) = Some w" using Cons.prems(2) Wait_ends by auto
  have IH: "\<not> rt_Stop t \<Longrightarrow> ended (ReadLoop api turns r c)" for r and c :: "'a desktop_scheme \<times> 'e"
    using Cons by simp
  show ?case by (simp add: IH w split: read_step.split)
qed simp

lemma Sleep_ends: "list_ex id stops \<Longrightarrow> \<exists>x. SSEDesktop_SleepRetry ms stops = Some x"
proof (induction stops arbitrary: ms)
  case (Cons stop stops)
  show ?case
  proof (cases "stop \<or> ms \<le> 0")
    case True
    then show ?thesis by (auto simp: SSEDesktop_SleepRetry_def SleepLoop.simps [of ms])
  next
    case False
    with Cons have "\<exists>x. SleepLoop (ms - (if ms > 100 then 100 else ms)) stops = Some x"
      by (simp add: SSEDesktop_SleepRetry_def)
    with False show ?thesis
      by (subst SSEDesktop_SleepRetry_def, subst SleepLoop.simps) (auto simp: Let_def)
  qed
qed simp

lemma PerformOnce_ends:
  assumes "attempt_ends a"
  shows "ended (SSEDM_PerformOnce api a c)"
proof -
  obtain d e where c: "c = (d, e)" by fastforce
  have s: "ended (SSEDM_SendAll (at_Sends a) data)" for data
    using assms by (intro SendAll_ends) (simp_all add: attempt_ends_def)
  have r: "ended (SSEDM_ReadResponse api (at_Reads a) c)" for c :: "SSEDesktopConnection \<times> 'a"
    unfolding SSEDM_ReadResponse_def
    using assms by (intro ReadLoop_ends) (simp_all add: attempt_ends_def)
  have cl: "ended (CloseAndReturn a err tr c)" for err tr and c :: "SSEDesktopConnection \<times> 'a"
    by (simp add: CloseAndReturn_def split: prod.split)
  have snd: "ended (case SSEDM_SendAll (at_Sends a) req of Running out \<Rightarrow> Running (d2, e)
      | Finished (Some err) out \<Rightarrow> CloseAndReturn a (Some err) (tr\<lparr>tr_Sent := out\<rparr>) (d2, e)
      | Finished None out \<Rightarrow> (case SSEDM_ReadResponse api (at_Reads a) (d2, e) of Running c3 \<Rightarrow> Running c3
          | Finished err c3 \<Rightarrow> CloseAndReturn a (if at_StopEnd a then None else err) (tr\<lparr>tr_Sent := out\<rparr>) c3))"
    for req tr d2
    using s [of req] r [of "(d2, e)"] cl
    by (cases "SSEDM_SendAll (at_Sends a) req"; cases "SSEDM_ReadResponse api (at_Reads a) (d2, e)")
      (auto split: option.split)
  show ?thesis
    unfolding SSEDM_PerformOnce_def c prod.case Let_def
    by (simp add: cl snd split: sum.split prod.split)
qed

text \<open>
  C26. A disconnect ends the worker: every loop looks at the stop flag in each turn, so once the main thread has set it the worker
  function returns, whatever the socket does, provided that each call of the socket API returns; the wait in
  \<open>dmThread::Join\<close> is over then.
\<close>
theorem dm_worker_stops:
  assumes "rounds_end rounds"
  shows "\<exists>c1. SSEDM_Worker api rounds c = Finished () c1"
  using assms
proof (induction rounds arbitrary: c)
  case (Cons r rounds)
  show ?case
  proof (cases "ro_Stop r")
    case False
    obtain err tr d e where P: "SSEDM_PerformOnce api (ro_Attempt r) c = Finished (err, tr) (d, e)"
      using PerformOnce_ends [of "ro_Attempt r" api c] Cons.prems by (auto simp: rounds_end_def ended_iff)
    have "\<exists>x. SSEDesktop_SleepRetry (dk_RetryMS d) (ro_Sleep r) = Some x"
      using Cons.prems by (intro Sleep_ends) (simp add: rounds_end_def)
    moreover have "\<exists>c1. SSEDM_Worker api rounds c = Finished () c1" for c
      using Cons False by (simp add: rounds_end_def)
    ultimately show ?thesis using False P by (auto simp: Let_def)
  qed simp
qed (simp add: rounds_end_def)

theorem dm_worker_stops_witness:
  "\<exists>c1. SSEDM_Worker (log_api (\<lambda>_. True))
     [\<lparr>ro_Stop = False,
        ro_Attempt = \<lparr>at_Pool = True, at_Dial = Inr (1, 2, 0), at_StopDialed = False,
          at_Sends = [\<lparr>st_Stop = False, st_Result = RESULT_OK, st_Sent = 7, st_Waits = [(True, RESULT_OK)]\<rparr>,
                      \<lparr>st_Stop = True, st_Result = RESULT_OK, st_Sent = 0, st_Waits = [(True, RESULT_OK)]\<rparr>],
          at_Reads = [\<lparr>rt_Stop = True, rt_Result = RESULT_OK, rt_Bytes = [], rt_Waits = [(True, RESULT_OK)],
                        rt_StopAfter = True\<rparr>],
          at_StopEnd = True, at_Main = (\<lambda>p. p = In_Exchange)\<rparr>,
        ro_StopAfter = True, ro_Sleep = [True], ro_StopEnd = True\<rparr>,
      \<lparr>ro_Stop = True,
        ro_Attempt = \<lparr>at_Pool = True, at_Dial = Inl RESULT_OK, at_StopDialed = True,
          at_Sends = [\<lparr>st_Stop = True, st_Result = RESULT_OK, st_Sent = 0, st_Waits = [(True, RESULT_OK)]\<rparr>],
          at_Reads = [\<lparr>rt_Stop = True, rt_Result = RESULT_OK, rt_Bytes = [], rt_Waits = [(True, RESULT_OK)],
                        rt_StopAfter = True\<rparr>],
          at_StopEnd = True, at_Main = (\<lambda>p. p = In_Exchange)\<rparr>,
        ro_StopAfter = True, ro_Sleep = [True], ro_StopEnd = True\<rparr>]
     (demo_worker, []) = Finished () c1"
  by (rule dm_worker_stops) (simp add: rounds_end_def attempt_ends_def waits_end_def)

section \<open>Every dialed connection is closed once\<close>






lemma connection_more: "desktop.more d1 = desktop.more (d :: SSEDesktopConnection) \<Longrightarrow> dc_Connection d1 = dc_Connection d"
  by (cases d; cases d1) simp

text \<open>
  The discipline the pool asks for: a connection is looked up while it is in use and closed once. The state is the
  connection in use.
\<close>

fun pool_step :: "nat option \<Rightarrow> pool_call \<Rightarrow> nat option option" where
  "pool_step u (PDial h) = (if u = None then Some (Some h) else None)"
| "pool_step u (PSocket h) = (if u = Some h then Some u else None)"
| "pool_step u (PSSLSocket h) = (if u = Some h then Some u else None)"
| "pool_step u (PClose h) = (if u = Some h then Some None else None)"

fun pool_proto :: "nat option \<Rightarrow> pool_call list \<Rightarrow> nat option option" where
  "pool_proto u [] = Some u"
| "pool_proto u (k # ks) = (case pool_step u k of None \<Rightarrow> None | Some u1 \<Rightarrow> pool_proto u1 ks)"







lemma Close_slot:
  "dc_Connection (snd (SSEDM_CloseActiveConnection pool d)) = 0" "dc_Socket (snd (SSEDM_CloseActiveConnection pool d)) = 0"
  "dc_SSLSocket (snd (SSEDM_CloseActiveConnection pool d)) = 0"
  by (simp_all add: SSEDM_CloseActiveConnection_def SSEDM_TakeConnection_def pool_log_def)











definition demo_dial :: "(main_point \<Rightarrow> bool) \<Rightarrow> round" where
  "demo_dial main = \<lparr>ro_Stop = False,
     ro_Attempt = \<lparr>at_Pool = True, at_Dial = Inr (5, 2, 0), at_StopDialed = True, at_Sends = [], at_Reads = [],
       at_StopEnd = True, at_Main = main\<rparr>,
     ro_StopAfter = True, ro_Sleep = [], ro_StopEnd = True\<rparr>"


text \<open>
  A disconnect between the store and the look-up: the worker asks the pool for the socket of a connection that the main
  thread has closed.
\<close>
theorem dm_lookup_after_close:
  "let c = reached (SSEDM_Worker (log_api (\<lambda>_. True)) [demo_dial (\<lambda>p. p = Before_Sockets)]
         (demo_worker\<lparr>dk_Url := Some ''http://a''\<rparr>, []))
   in dc_Calls (fst c) = [PDial 5, PClose 5, PSocket 5, PSSLSocket 5]
     \<and> pool_proto None (dc_Calls (fst c)) = None"
  by code_simp

end
