(* ===== verification/ExtensionDemo.thy ===== *)
theory ExtensionDemo
  imports ExtensionMain
begin

text \<open>
  A run in the concrete environment: the script opens a connection, its worker enqueues an open
  event and two messages, and the script's callback disconnects. The hypotheses of the
  extension's properties hold here.
\<close>

definition demo_world :: dm_world where
  "demo_world = \<lparr>dw_Pool = False, dw_InUse = [], dw_Heap = (\<lambda>_. None), dw_Next = 1, dw_Threads = {}\<rparr>"

definition demo_env :: "dm_world env" where
  "demo_env = dm_env demo_script"

definition demo_start :: "dm_world sse" where
  "demo_start = started demo_env (\<lambda>_. True) demo_world"

definition demo_open :: "dm_world main_step list" where
  "demo_open = [Act (DoConnect [LString ''http://a/'', LFunction 0]), Act (EnqueueOpen 1 200),
     Act (EnqueueMessage 1 None (Some ''x'') None), Act (EnqueueMessage 1 None (Some ''y'') None)]"

definition demo_opened :: "dm_world sse" where
  "demo_opened = the (run demo_env demo_open demo_start)"

lemma demo_env_ok: "sse_env demo_env"
  unfolding demo_env_def by (rule dmx.sse_env_axioms)

lemma demo_run: "run demo_env demo_open demo_start = Some demo_opened"
proof -
  have "\<not> Option.is_none (run demo_env demo_open demo_start)" by code_simp
  then show ?thesis by (simp add: demo_opened_def Option.is_none_def)
qed

lemma demo_run': "run demo_env demo_open (started demo_env (\<lambda>_. True) demo_world) = Some demo_opened"
  using demo_run by (simp add: demo_start_def)

lemma demo_opened_idle: "idle demo_opened"
  using sse_env.run_ok [OF demo_env_ok started_idle, of demo_open demo_env "\<lambda>_. True" demo_world]
    demo_run' by auto

lemma demo_opened_ok: "sse_ok {} demo_opened"
  using demo_opened_idle by (simp add: idle_def)

theorem extension_safe_witness:
  "\<exists>t. run demo_env demo_open (started demo_env (\<lambda>_. True) demo_world) = Some t
     \<and> distinct (g_Connections t) \<and> set (g_Connections t) = dom (g_Heap t)"
  using extension_safe [OF demo_env_ok, of demo_open "\<lambda>_. True" demo_world] by blast


definition demo_args :: "lua_value list" where
  "demo_args = [LNumber 1 ''1'']"

definition demo_closed :: "dm_world sse" where
  "demo_closed = snd (the (SSE_Disconnect demo_env demo_args demo_opened))"

lemma demo_disconnect:
  "SSE_Disconnect demo_env demo_args demo_opened = Some (LuaReturn [], demo_closed)"
proof -
  have "\<not> Option.is_none (SSE_Disconnect demo_env demo_args demo_opened)"
    and "fst (the (SSE_Disconnect demo_env demo_args demo_opened)) = LuaReturn []" by code_simp+
  then show ?thesis by (cases "SSE_Disconnect demo_env demo_args demo_opened") (auto simp: demo_closed_def)
qed

lemma demo_number: "Option.bind (lua_arg demo_args 1) (lua_number_of demo_env) = Some 1"
  by code_simp

definition demo_end :: "dm_world sse" where
  "demo_end = the (run demo_env [Act (EnqueueMessage 1 None (Some ''z'') None), Update] demo_closed)"

text \<open>Three events of the connection are queued when it is closed, and one comes later.\<close>

theorem closed_connection_is_silent_witness:
  "length (g_Events demo_closed) = 3
   \<and> (\<exists>x. g_Delivered demo_end = g_Delivered demo_opened @ x \<and> (\<forall>d \<in> set x. et_handle (snd d) \<noteq> 1))"
proof
  show "length (g_Events demo_closed) = 3" by code_simp
  have "\<not> Option.is_none (run demo_env [Act (EnqueueMessage 1 None (Some ''z'') None), Update] demo_closed)"
    by code_simp
  then have r: "run demo_env [Act (EnqueueMessage 1 None (Some ''z'') None), Update] demo_closed = Some demo_end"
    by (simp add: demo_end_def Option.is_none_def)
  have n: "to_int32 1 < g_NextHandle demo_opened" and one: "to_int32 1 = 1"
    and few: "g_Issued demo_end < 2147483647" by code_simp+
  from closed_connection_is_silent [OF demo_env_ok demo_run' demo_number n demo_disconnect r few]
  show "\<exists>x. g_Delivered demo_end = g_Delivered demo_opened @ x \<and> (\<forall>d \<in> set x. et_handle (snd d) \<noteq> 1)"
    by (simp only: one)
qed

theorem connect_all_or_nothing_witness:
  "\<exists>r t. SSE_Connect demo_env [LString ''http://b/'', LFunction 1] demo_opened = Some (r, t)
     \<and> connect_outcome demo_opened r t"
  using connect_all_or_nothing [OF demo_env_ok demo_opened_ok] by blast

theorem disconnect_twice_witness:
  "SSE_Disconnect demo_env demo_args demo_closed = Some (LuaReturn [], demo_closed)"
proof (rule disconnect_twice [OF demo_env_ok demo_opened_ok demo_disconnect])
  show "g_Issued demo_closed < 2147483647" by code_simp
qed

theorem flush_in_order_witness:
  "\<exists>t x. UpdateSSE demo_env demo_opened = Some t \<and> g_Delivered t = g_Delivered demo_opened @ x
     \<and> subseq (map snd x) (map SSE_PushEventTable (g_Events demo_opened)
          @ map (SSE_PushEventTable \<circ> overflow_event) (g_OverflowHandles demo_opened))"
  using flush_in_order [OF demo_env_ok demo_opened_idle] by blast

text \<open>The callback disconnects its own connection; it is destroyed when the callback is over.\<close>

theorem dispatch_routes_witness:
  "\<exists>t x. SSE_DispatchEvent demo_env (hd (g_Events demo_opened)) demo_opened = Some t
     \<and> g_Delivered t = g_Delivered demo_opened @ x
     \<and> routed demo_opened (hd (g_Events demo_opened)) x"
  using dispatch_routes [OF demo_env_ok demo_opened_ok] by blast

text \<open>A script that only looks on, and enqueues while it does.\<close>

definition quiet_env :: "dm_world env" where
  "quiet_env = dm_env (\<lambda>k tbl s. [EnqueueMessage 1 None (Some ''w'') None, DoSetDebug (LBool True)])"

lemma quiet_env_ok: "sse_env quiet_env"
  unfolding quiet_env_def by (rule dmx.sse_env_axioms)

lemma quiet_looks: "list_all looks_on (x_Script quiet_env k tbl u)"
  by (simp add: quiet_env_def dm_env_def)

lemma demo_deliverable: "ev_Handle ev = 1 \<Longrightarrow> deliverable quiet_env demo_opened ev"
proof -
  assume e: "ev_Handle ev = 1"
  have c: "map_option face (g_Heap demo_opened 1) = Some (1, Some 0, False, False)"
    and v: "g_CallbackValid demo_opened 0" by code_simp+
  then obtain d where d: "g_Heap demo_opened 1 = Some d" "face d = (1, Some 0, False, False)" by auto
  have x: "x_SetupCallback quiet_env 0" by (simp add: quiet_env_def dm_env_def)
  have f: "cn_Callback d = Some 0" "\<not> cn_UserClosed d" using d(2) by (simp_all add: face_def)
  have "cn_Handle d = ev_Handle ev" using d(2) e by (simp add: face_def)
  then show ?thesis unfolding deliverable_def using d(1) f v x by blast
qed

lemma demo_queue_handles:
  "\<forall>ev \<in> set (g_Events demo_opened @ map overflow_event (g_OverflowHandles demo_opened)). ev_Handle ev = 1"
proof -
  have "list_all (\<lambda>ev. ev_Handle ev = 1) (g_Events demo_opened @ map overflow_event (g_OverflowHandles demo_opened))"
    by code_simp
  then show ?thesis unfolding list_all_iff .
qed

lemma demo_filter: "filter (deliverable quiet_env demo_opened) (g_Events demo_opened) = g_Events demo_opened"
proof (rule filter_True, rule ballI)
  fix ev
  assume "ev \<in> set (g_Events demo_opened)"
  then have "ev_Handle ev = 1" using demo_queue_handles unfolding set_append by blast
  then show "deliverable quiet_env demo_opened ev" by (rule demo_deliverable)
qed

text \<open>A second connection's closing leaves the events of the first to be delivered.\<close>

definition demo_two :: "dm_world main_step list" where
  "demo_two = demo_open @ [Act (DoConnect [LString ''http://b/'', LFunction 1]),
     Act (EnqueueMessage 2 None (Some ''lost'') None), Act (EnqueueMessage 1 None (Some ''z'') None),
     Act (DoDisconnect [LNumber 2 ''2''])]"

definition demo_mixed :: "dm_world sse" where
  "demo_mixed = the (run demo_env demo_two demo_start)"

lemma demo_mixed_idle: "idle demo_mixed"
proof -
  have "\<not> Option.is_none (run demo_env demo_two demo_start)" by code_simp
  then have "run demo_env demo_two demo_start = Some demo_mixed"
    by (simp add: demo_mixed_def Option.is_none_def)
  then show ?thesis
    using sse_env.run_ok [OF demo_env_ok started_idle, of demo_two demo_env "\<lambda>_. True" demo_world]
    by (auto simp: demo_start_def)
qed

lemma demo_mixed_deliverable: "deliverable quiet_env demo_mixed ev \<longleftrightarrow> ev_Handle ev = 1"
proof -
  have c: "map_option face (g_Heap demo_mixed 1) = Some (1, Some 0, False, False)"
    and v: "g_CallbackValid demo_mixed 0" and only: "g_Connections demo_mixed = [1]" by code_simp+
  have "dom (g_Heap demo_mixed) = {1}"
    using struct_okD(2) [of demo_mixed] demo_mixed_idle only by (simp add: idle_def sse_ok_def)
  then have one: "g_Heap demo_mixed a = Some d \<Longrightarrow> a = 1" for a d by blast
  from c obtain d where d: "g_Heap demo_mixed 1 = Some d" "face d = (1, Some 0, False, False)" by auto
  have x: "x_SetupCallback quiet_env 0" by (simp add: quiet_env_def dm_env_def)
  have f: "cn_Callback d = Some 0" "\<not> cn_UserClosed d" "cn_Handle d = 1" using d(2) by (simp_all add: face_def)
  show ?thesis
  proof
    assume "deliverable quiet_env demo_mixed ev"
    then obtain a e where e: "g_Heap demo_mixed a = Some e" "cn_Handle e = ev_Handle ev"
      unfolding deliverable_def by blast
    with one d(1) have "e = d" by simp
    with e(2) f(3) show "ev_Handle ev = 1" by simp
  next
    assume "ev_Handle ev = 1"
    then have "cn_Handle d = ev_Handle ev" using f(3) by simp
    then show "deliverable quiet_env demo_mixed ev" unfolding deliverable_def using d(1) f v x by blast
  qed
qed

theorem flush_delivers_all_witness:
  "map (\<lambda>ev. (ev_Handle ev, ev_Data ev)) (g_Events demo_mixed)
     = [(1, None), (1, Some ''x''), (1, Some ''y''), (2, Some ''lost''), (1, Some ''z'')]
   \<and> (\<exists>t x. UpdateSSE quiet_env demo_mixed = Some t \<and> g_Delivered t = g_Delivered demo_mixed @ x
     \<and> map (et_data \<circ> snd) x = [None, Some ''x'', Some ''y'', Some ''z''])"
proof
  show "map (\<lambda>ev. (ev_Handle ev, ev_Data ev)) (g_Events demo_mixed)
     = [(1, None), (1, Some ''x''), (1, Some ''y''), (2, Some ''lost''), (1, Some ''z'')]" by code_simp
  let ?evs = "g_Events demo_mixed @ map overflow_event (g_OverflowHandles demo_mixed)"
  have few: "g_Issued demo_mixed < 2147483647" by code_simp
  from flush_delivers_all [OF quiet_env_ok demo_mixed_idle quiet_looks few]
  obtain t x where t: "UpdateSSE quiet_env demo_mixed = Some t" "g_Delivered t = g_Delivered demo_mixed @ x"
    "map snd x = map SSE_PushEventTable (filter (deliverable quiet_env demo_mixed) ?evs)" by blast
  have "filter (deliverable quiet_env demo_mixed) ?evs = filter (\<lambda>ev. ev_Handle ev = 1) ?evs"
    by (rule filter_cong) (simp_all add: demo_mixed_deliverable)
  moreover have "map (et_data \<circ> SSE_PushEventTable) (filter (\<lambda>ev. ev_Handle ev = 1) ?evs)
      = [None, Some ''x'', Some ''y'', Some ''z'']" by code_simp
  ultimately have "map (et_data \<circ> snd) x = [None, Some ''x'', Some ''y'', Some ''z'']"
    using t(3) by (metis map_map)
  with t(1,2) show "\<exists>t x. UpdateSSE quiet_env demo_mixed = Some t \<and> g_Delivered t = g_Delivered demo_mixed @ x
     \<and> map (et_data \<circ> snd) x = [None, Some ''x'', Some ''y'', Some ''z'']" by (intro exI conjI)
qed

definition demo_small :: "dm_world sse" where
  "demo_small = demo_opened\<lparr>g_Capacity := 4\<rparr>"

definition demo_event :: SSEEvent where
  "demo_event = message_event 1 None None None"

theorem queue_burst_witness:
  "g_Events (push_all [demo_event, demo_event, demo_event] demo_small) = g_Events demo_small @ [demo_event]
   \<and> set (g_OverflowHandles (push_all [demo_event, demo_event, demo_event] demo_small)) = {1}"
proof -
  have l: "length (g_Events demo_small) = 3" "g_OverflowHandles demo_small = []"
    "g_Capacity demo_small = 4" "ev_Handle demo_event = 1" "g_Active demo_small" by code_simp+
  then have "queue_ok demo_small" by (simp add: queue_ok_def)
  from queue_burst [OF l(5) this, of "[demo_event, demo_event, demo_event]"]
  show ?thesis unfolding l(1-3) by (auto simp: l(4) simp del: push_all.simps)
qed

end
