(* ===== verification/EndToEnd.thy ===== *)
theory EndToEnd
  imports CoreRefinement DmResponseProps ExtensionDemo
begin

text \<open>
  From the server to Lua: the Linux worker reads a response from the network, the parser splits it, the
  queue takes the events, and the next update hands them to the script.
\<close>

section \<open>Room in the queue\<close>

lemma push_all_room:
  "g_Active s \<Longrightarrow> length (g_Events s) + length es \<le> g_Capacity s \<Longrightarrow>
   push_all es s = s\<lparr>g_Events := g_Events s @ es\<rparr>"
  by (induction es arbitrary: s) (simp_all add: queue_defs)

lemma offers_length: "length (offers h rc ms ks) \<le> length ks"
  by (induction h rc ms ks rule: offers.induct) auto

lemma core_reply_room:
  assumes "g_Active s" and "length (g_Events s) + length ks < g_Capacity s"
  shows "core_reply d s ks ev"
proof -
  let ?es = "offers (dk_Handle d) (dk_Reconnect d) (dk_RetryMS d) ks"
  have "length (g_Events s) + length ?es < g_Capacity s"
    using offers_length [of "dk_Handle d" "dk_Reconnect d" "dk_RetryMS d" ks] assms(2) by simp
  then show ?thesis
    using push_all_room [OF assms(1), of ?es] assms(1)
    by (simp add: core_reply_def SSE_EnqueueMessage_def queue_defs)
qed

text \<open>Storing a flag or an id in a connection changes nothing else.\<close>

definition heap_only :: "'w sse \<Rightarrow> 'w sse \<Rightarrow> bool" where
  "heap_only s t \<longleftrightarrow> same_faces s t \<and> (\<exists>hp. t = s\<lparr>g_Heap := hp\<rparr>)"

lemma modify_heap: "modify a f s = Some t \<Longrightarrow> \<exists>hp. t = s\<lparr>g_Heap := hp\<rparr>"
  by (auto simp: modify_def bind_eq_Some_conv)

lemma heap_same [simp]: "s\<lparr>g_Heap := g_Heap s\<rparr> = s"
  by simp

lemma SetConnected_heap: "SSE_SetConnected h b s = Some t \<Longrightarrow> heap_only s t"
proof -
  assume a: "SSE_SetConnected h b s = Some t"
  then have "t = s \<or> (\<exists>a f. modify a f s = Some t)"
    by (auto simp: SSE_SetConnected_def bind_eq_Some_conv split: if_splits option.splits)
  then have "\<exists>hp. t = s\<lparr>g_Heap := hp\<rparr>" using modify_heap heap_same by metis
  then show ?thesis using same_faces_SetConnected [OF a] by (simp add: heap_only_def)
qed

lemma settle_heap: "settle h i s = Some t \<Longrightarrow> heap_only s t"
proof -
  assume a: "settle h i s = Some t"
  then have "t = s \<or> (\<exists>j. SSE_SetLastEventId h (Some j) s = Some t)"
    by (auto simp: settle_def split: option.splits)
  then have "(\<exists>hp. t = s\<lparr>g_Heap := hp\<rparr>) \<and> same_faces s t"
  proof
    assume "t = s"
    then show ?thesis using heap_same [of s] same_faces_refl by metis
  next
    assume "\<exists>j. SSE_SetLastEventId h (Some j) s = Some t"
    then obtain j where j: "SSE_SetLastEventId h (Some j) s = Some t" by blast
    then have "t = s \<or> (\<exists>a f. modify a f s = Some t)"
      by (auto simp: SSE_SetLastEventId_def bind_eq_Some_conv split: if_splits option.splits)
    then have "\<exists>hp. t = s\<lparr>g_Heap := hp\<rparr>" using modify_heap heap_same by metis
    then show ?thesis using same_faces_SetLastEventId [OF j] by simp
  qed
  then show ?thesis by (simp add: heap_only_def)
qed

section \<open>Messages as Lua sees them\<close>

definition message_table :: "int \<Rightarrow> message \<Rightarrow> event_table" where
  "message_table h m = SSE_PushEventTable (message_event h
     (Some (if msg_Name m = [] then ''message'' else msg_Name m)) (Some (join_lf (msg_Data m)))
     (Some (case msg_Id m of None \<Rightarrow> [] | Some i \<Rightarrow> i)))"

definition open_event :: "int \<Rightarrow> int \<Rightarrow> SSEEvent" where
  "open_event h st = SSEEvent_new\<lparr>ev_Handle := h, ev_Type := event_type_code SSE_EVENT_OPEN, ev_Status := st\<rparr>"

lemma offers_expected:
  "map SSE_PushEventTable (offers h rc r (expected l ms)) = map (message_table h) ms"
  by (induction ms arbitrary: l) (simp_all add: message_table_def)

lemma offers_handles: "ev \<in> set (offers h rc r ks) \<Longrightarrow> ev_Handle ev = h"
  by (induction h rc r ks rule: offers.induct) (auto simp: message_event_def error_event_def)

lemma expected_length [simp]: "length (expected l ms) = length ms"
  by (induction ms arbitrary: l) simp_all

section \<open>The stream into the queue\<close>

lemma stream_into_queue:
  assumes i: "idle s" and a: "g_Active s" and room: "length (g_Events s) + 1 + length ms \<le> g_Capacity s"
    and p: "dk_Parser d = SSEParser_new" and ms: "list_all msg_ok ms"
  shows "\<exists>d1 s1 es. FeedParser core_api (text_of_lines (concat (map message_lines ms)))
        (d, SSE_EnqueueOpen (dk_Handle d) st s) = (d1, Some s1)
     \<and> g_Events s1 = g_Events s @ open_event (dk_Handle d) st # es
     \<and> map SSE_PushEventTable es = map (message_table (dk_Handle d)) ms
     \<and> (\<forall>ev \<in> set es. ev_Handle ev = dk_Handle d) \<and> g_OverflowHandles s1 = g_OverflowHandles s
     \<and> g_Delivered s1 = g_Delivered s \<and> same_faces s s1 \<and> idle s1"
proof -
  let ?h = "dk_Handle d" and ?bytes = "text_of_lines (concat (map message_lines ms))"
  have ok: "sse_ok {} s" using i by (simp add: idle_def)
  obtain u where u: "SSE_SetConnected ?h True s = Some u" "sse_ok {} u" using SetConnected_wf [OF ok] by blast
  obtain hp where hp: "u = s\<lparr>g_Heap := hp\<rparr>" and f1: "same_faces s u"
    using SetConnected_heap [OF u(1)] by (auto simp: heap_only_def)
  define v where "v = u\<lparr>g_Events := g_Events s @ [open_event ?h st]\<rparr>"
  have v: "SSE_EnqueueOpen ?h st s = Some v"
    using u(1) hp a room by (simp add: SSE_EnqueueOpen_def v_def open_event_def queue_defs)
  have vq: "v = snd (SSE_QueuePush (open_event ?h st) u)" using hp a room by (simp add: v_def queue_defs)
  then have okv: "sse_ok {} v" using u(2) wf_push by simp
  have f2: "same_faces u v" by (simp add: v_def same_faces_def)
  have va: "g_Active v" "g_Capacity v = g_Capacity s" "length (g_Events v) = length (g_Events s) + 1"
    using a hp by (simp_all add: v_def)
  let ?ks = "Transcript (core_reply d v) ?bytes"
  have ks: "?ks = expected None ms"
    by (rule messages_transcript [OF ms]) (use va room in \<open>auto intro: core_reply_room\<close>)
  define es where "es = offers ?h (dk_Reconnect d) (dk_RetryMS d) ?ks"
  have push: "push_all es v = v\<lparr>g_Events := g_Events v @ es\<rparr>"
    using offers_length [of ?h "dk_Reconnect d" "dk_RetryMS d" ?ks] va room
    by (intro push_all_room) (auto simp: es_def ks)
  have tables: "map SSE_PushEventTable es = map (message_table ?h) ms"
    unfolding es_def ks by (rule offers_expected)
  have handles: "\<forall>ev \<in> set es. ev_Handle ev = ?h" unfolding es_def by (auto dest: offers_handles)
  from core_refines [OF okv p, of ?bytes] obtain q d1 s1 where
    F: "FeedParser core_api ?bytes (d, Some v) = (d1\<lparr>dk_Parser := q\<rparr>, Some s1)"
    and A: "(d1, Some s1) = after d v ?ks" by blast
  then have st1: "settle ?h (commits ?ks) (v\<lparr>g_Events := g_Events v @ es\<rparr>) = Some s1"
    by (simp add: after_def push [symmetric] es_def [symmetric])
  obtain hp1 where s1: "s1 = v\<lparr>g_Events := g_Events v @ es, g_Heap := hp1\<rparr>"
    and f3: "same_faces (v\<lparr>g_Events := g_Events v @ es\<rparr>) s1"
    using settle_heap [OF st1] by (auto simp: heap_only_def)
  have "same_faces v (v\<lparr>g_Events := g_Events v @ es\<rparr>)" by (simp add: same_faces_def)
  then have faces: "same_faces s s1" using f1 f2 f3 by (meson same_faces_trans)
  have "sse_ok {} s1" using settle_wf [OF push_all_wf [OF okv, of es], of ?h "commits ?ks"] st1 push by auto
  then have idle1: "idle s1" using i hp by (simp add: idle_def s1 v_def)
  show ?thesis
    unfolding v F using hp faces idle1 tables handles
    by (intro exI [of _ "d1\<lparr>dk_Parser := q\<rparr>"] exI [of _ s1] exI [of _ es]) (auto simp: s1 v_def)
qed

section \<open>The queue to the script\<close>

text \<open>What the update after a stream calls: the old events that can be delivered, the open event and the messages,
  and the overflow notices of the old state.\<close>

definition update_calls :: "'w env \<Rightarrow> 'w sse \<Rightarrow> int \<Rightarrow> int \<Rightarrow> message list \<Rightarrow> event_table list" where
  "update_calls env s h status ms =
     map SSE_PushEventTable (filter (deliverable env s) (g_Events s))
     @ SSE_PushEventTable (open_event h status) # map (message_table h) ms
     @ map SSE_PushEventTable (filter (deliverable env s) (map overflow_event (g_OverflowHandles s)))"

lemma queued_stream_reaches_lua:
  assumes "sse_env env" and "\<And>k tbl u. list_all looks_on (x_Script env k tbl u)"
    and few: "g_Issued s < 2147483647" and d: "deliverable env s (open_event h status)"
    and q: "g_Events s1 = g_Events s @ open_event h status # es" "map SSE_PushEventTable es = map (message_table h) ms"
      "\<forall>ev \<in> set es. ev_Handle ev = h" "g_OverflowHandles s1 = g_OverflowHandles s"
      "g_Delivered s1 = g_Delivered s" "same_faces s s1" "idle s1"
  shows "\<exists>t x. UpdateSSE env s1 = Some t \<and> g_Delivered t = g_Delivered s @ x
     \<and> map snd x = update_calls env s h status ms"
proof -
  have v: "same_view env s s1" using q(6) by (rule same_view_faces)
  then have n: "no_wrap s1" and ds: "deliverable env s1 = deliverable env s"
    using few by (simp_all add: same_view_def no_wrap_def)
  have "deliverable env s ev" if "ev_Handle ev = h" for ev
    using d that by (simp add: deliverable_def open_event_def)
  then have "filter (deliverable env s) es = es" using q(3) by (simp add: filter_id_conv)
  with d have "map SSE_PushEventTable (filter (deliverable env s1) (g_Events s1 @ map overflow_event (g_OverflowHandles s1)))
      = update_calls env s h status ms"
    by (simp add: update_calls_def q(1,4) ds q(2) [symmetric])
  with sse_env.UpdateSSE_delivers [OF assms(1,2) q(7) n] q(5) show ?thesis by simp
qed

section \<open>The response body\<close>

definition carries :: "bool \<Rightarrow> (string \<times> string) list \<Rightarrow> string \<Rightarrow> string \<Rightarrow> string \<Rightarrow> bool" where
  "carries chunked chs rest payload body \<longleftrightarrow>
     (if chunked then list_all chunk_ok chs \<and> concat (map snd chs) = payload \<and> body = encode_body chs @ rest
      else body = payload)"

lemma FeedBody_carries:
  assumes "carries chunked chs rest payload body"
  shows "\<exists>dec. SSEDM_FeedBody api chunked SSEDMChunkDecoder_new body c = (dec, FeedParser api payload c, None)"
proof (cases chunked)
  case True
  obtain dec p d e where
    "SSEDM_FeedChunkedBody (Some (desktop_callbacks api)) body SSEDMChunkDecoder_new (dk_Parser (fst c), c) =
      (dec, Feed (Some (desktop_callbacks api)) payload (dk_Parser (fst c), c), None)"
    and "Feed (Some (desktop_callbacks api)) payload (dk_Parser (fst c), c) = (p, d, e)"
    using encode_body_decoded [of chs "Some (desktop_callbacks api)" rest "(dk_Parser (fst c), c)"] assms True
    by (metis carries_def prod_cases3)
  moreover have "body \<noteq> []" using assms True by (simp add: carries_def encode_body_def size_line_def)
  ultimately show ?thesis using True by (simp add: SSEDM_FeedBody_def FeedParser_def)
next
  case False
  with assms show ?thesis by (cases "body = []") (simp_all add: carries_def SSEDM_FeedBody_def)
qed

text \<open>
  C1. From the server to Lua: a server answers with status 2xx, a head of at most 57341 bytes and a body that carries
  any list of messages, plain or chunk-encoded, in whatever pieces it arrives. If the connection is open and its script
  alive, the queue has room for all of it, the callbacks neither open nor close connections and fewer than
  \<open>2\<^sup>3\<^sup>1 - 1\<close> handles have been given out, the next
  update calls the connection's callback with the open event, then once for every message, in order, with its name,
  its payload and its id; before that it delivers the events that were queued before, and after it the overflow
  notices, each without those whose connection is closed or whose script is gone.
\<close>
theorem stream_reaches_lua:
  assumes "sse_env env" and "\<And>k tbl u. list_all looks_on (x_Script env k tbl u)"
    and "idle s" and "g_Active s" and "g_Issued s < 2147483647"
    and "length (g_Events s) + 1 + length ms \<le> g_Capacity s"
    and "deliverable env s (open_event (dk_Handle d) status)"
    and "dk_Parser d = SSEParser_new"
    and "list_all quiet_turn turns" and "end_turn e" and "concat (map piece turns) = head @ CRLF @ CRLF @ body"
    and "header_block head" and "length head \<le> 57341"
    and "SSEDM_ParseResponseHeaders head = Inr (status, chunked)" and "200 \<le> status" and "status < 300"
    and "list_all msg_ok ms" and "carries chunked chs rest (text_of_lines (concat (map message_lines ms))) body"
  shows "\<exists>d1 s1 t x. SSEDM_ReadResponse core_api (turns @ e # ts) (d, Some s) = Finished None (d1, Some s1)
     \<and> UpdateSSE env s1 = Some t \<and> g_Delivered t = g_Delivered s @ x
     \<and> map snd x = update_calls env s (dk_Handle d) status ms"
proof -
  let ?d0 = "d\<lparr>dk_Status := status, dk_Opened := True\<rparr>"
  from stream_into_queue [OF assms(3,4,6) _ assms(17), of ?d0 status] assms(8) obtain d1 s1 es where
    F: "FeedParser core_api (text_of_lines (concat (map message_lines ms)))
        (?d0, SSE_EnqueueOpen (dk_Handle d) status s) = (d1, Some s1)"
    and q: "g_Events s1 = g_Events s @ open_event (dk_Handle d) status # es"
      "map SSE_PushEventTable es = map (message_table (dk_Handle d)) ms"
      "\<forall>ev \<in> set es. ev_Handle ev = dk_Handle d" "g_OverflowHandles s1 = g_OverflowHandles s"
      "g_Delivered s1 = g_Delivered s" "same_faces s s1" "idle s1" by auto
  have "SSEDM_ReadResponse core_api (turns @ e # ts) (d, Some s) =
      Respond core_api SSEDMChunkDecoder_new status chunked body (d, Some s)"
    unfolding SSEDM_ReadResponse_def
    using ReadLoop_head [OF assms(12) _ assms(14-16,10), of reader_new turns body core_api ts "(d, Some s)"]
      assms(9,11,13) by (simp add: reader_new_def)
  also have "\<dots> = Finished None (d1, Some s1)"
    using FeedBody_carries [OF assms(18), of core_api "(?d0, SSE_EnqueueOpen (dk_Handle d) status s)"] F
    by (auto simp: Respond_def)
  finally have R: "SSEDM_ReadResponse core_api (turns @ e # ts) (d, Some s) = Finished None (d1, Some s1)" .
  from queued_stream_reaches_lua [OF assms(1,2,5,7) q] R show ?thesis by blast
qed

section \<open>A concrete stream\<close>

definition stream_worker :: SSEDesktopConnection where
  "stream_worker = SSEDesktopConnection_new\<lparr>dk_Handle := 1\<rparr>"

lemma stream_worker_parser: "dk_Parser stream_worker = SSEParser_new" "dk_Handle stream_worker = 1"
  by (simp_all add: stream_worker_def SSEDesktopConnection_new_def)

theorem core_refines_transcript_witness:
  "\<exists>p d' s'. FeedParser core_api (''data: x'' @ [LF, LF]) (stream_worker, Some demo_opened) =
       (d'\<lparr>dk_Parser := p\<rparr>, Some s')
     \<and> (d', Some s') = after stream_worker demo_opened
         (Transcript (core_reply stream_worker demo_opened) (''data: x'' @ [LF, LF]))"
  using core_refines_transcript [OF demo_opened_ok stream_worker_parser(1)] by blast

definition demo_messages :: "message list" where
  "demo_messages = [\<lparr>msg_Name = [], msg_Id = None, msg_Data = [''x'']\<rparr>]"

theorem stream_reaches_lua_witness:
  "\<exists>d1 s1 t x. SSEDM_ReadResponse core_api (demo_turns @ eof_turn # []) (stream_worker, Some demo_opened) =
       Finished None (d1, Some s1)
     \<and> UpdateSSE quiet_env s1 = Some t \<and> g_Delivered t = g_Delivered demo_opened @ x
     \<and> map snd x = map SSE_PushEventTable (g_Events demo_opened)
         @ SSE_PushEventTable (open_event 1 200) # map (message_table 1) demo_messages"
proof -
  let ?body = "''data: x'' @ [LF, LF]"
  have s: "g_Active demo_opened" "g_Issued demo_opened < 2147483647"
    "length (g_Events demo_opened) + 1 + length demo_messages \<le> g_Capacity demo_opened" by code_simp+
  have d: "deliverable quiet_env demo_opened (open_event (dk_Handle stream_worker) 200)"
    by (rule demo_deliverable) (simp add: open_event_def stream_worker_parser)
  have o: "g_OverflowHandles demo_opened = []" by code_simp
  have t: "list_all quiet_turn demo_turns" "end_turn eof_turn"
    "concat (map piece demo_turns) = ''HTTP/1.1 200 OK'' @ CRLF @ CRLF @ ?body"
    "header_block ''HTTP/1.1 200 OK''" "length ''HTTP/1.1 200 OK'' \<le> 57341"
    "SSEDM_ParseResponseHeaders ''HTTP/1.1 200 OK'' = Inr (200, False)" by code_simp+
  have m: "list_all msg_ok demo_messages"
    by (simp add: demo_messages_def msg_ok_def clean_def SSE_PARSER_MAX_BUFFER_def)
  have "text_of_lines (concat (map message_lines demo_messages)) = ?body" by code_simp
  then have c: "carries False [] [] (text_of_lines (concat (map message_lines demo_messages))) ?body"
    by (simp add: carries_def)
  from stream_reaches_lua [OF quiet_env_ok quiet_looks demo_opened_idle s d stream_worker_parser(1) t _ _ m c]
  show ?thesis by (simp add: stream_worker_parser update_calls_def demo_filter o)
qed

end
