(* ===== verification/ParserProps.thy ===== *)
theory ParserProps
  imports ParserSpec
begin

text \<open>
  The properties of the native parser: it implements the reference, its buffers are bounded,
  the resume position never passes a dropped event, oversized blocks are dropped as a
  whole, and what a server encodes is what the callback gets.
\<close>

section \<open>Equivalence with the reference\<close>

lemma Feed_short_line_state:
  "short_line t \<Longrightarrow> line_ready p \<Longrightarrow> snd (Feed cbs t (p, c)) = c"
  by (simp add: Feed_within_line short_line_def line_ready_def)

lemma fold_ProcessLine_ready:
  "line_ready p \<Longrightarrow> fold (ProcessLine cbs) ls (p, c) = (p', c') \<Longrightarrow> line_ready p'"
proof (induction ls arbitrary: p c)
  case (Cons l ls)
  obtain p1 c1 where P: "ProcessLine cbs l (p, c) = (p1, c1)" by fastforce
  have "line_ready p1" using ProcessLine_ready [OF Cons.prems(1) P] .
  from Cons.IH [OF this] Cons.prems(2) P show ?case by simp
qed simp

lemma line_ready_new [simp]: "line_ready SSEParser_new"
  by (simp add: line_ready_def SSEParser_new_def)

text \<open>
  C3. Equivalence: for every stream whose lines and blocks respect the 1 MiB caps, the calls the
  byte-at-a-time parser makes are those of the line-and-block reference, whatever the queue
  answers; an unterminated last line makes no call.
\<close>
theorem parser_implements_reference:
  assumes "list_all short_line raw" and "within_cap [] (normalise raw)" and "short_line tail"
  shows "Transcript reply (text_of_lines raw @ tail) =
         ss_Log (SpecStream reply [] (normalise raw) spec_init)"
proof -
  let ?r = "\<lparr>rec_log = [], rec_reply = reply\<rparr>" and ?q = "SSEParser_new\<lparr>sp_FirstLine := False\<rparr>"
  obtain p c where F: "fold (ProcessLine (Some rec_callbacks)) raw (SSEParser_new, ?r) = (p, c)"
    by fastforce
  have "line_ready p" using fold_ProcessLine_ready [OF line_ready_new F] .
  then have T: "Transcript reply (text_of_lines raw @ tail) = rec_log c"
    using assms(1,3) F
    by (simp add: Transcript_def Feed_append Feed_lines Feed_short_line_state)
  show ?thesis
  proof (cases "raw = []")
    case True
    with F have "c = ?r" by simp
    with T True show ?thesis by (simp add: spec_init_def)
  next
    case False
    with F have H: "fold (HandleLine (Some rec_callbacks)) (normalise raw) (?q, ?r) = (p, c)"
      by (simp add: fold_ProcessLine_new)
    show ?thesis using T sim_stream [OF sim_init assms(2) H] by simp
  qed
qed

theorem parser_implements_reference_witness:
  "Transcript (\<lambda>_ _. True) (text_of_lines [''id: 7'', ''data: x'' @ [CR], ''data:y'', []] @ ''da'') =
     [CallEvent \<lparr>pe_Event = ''message'', pe_Data = ''x'' @ [LF] @ ''y'', pe_Id = ''7'',
        pe_LastEventId = Some ''7''\<rparr> True]"
proof -
  let ?raw = "[''id: 7'', ''data: x'' @ [CR], ''data:y'', []]"
  have 1: "list_all short_line ?raw" "short_line ''da''"
    by (simp_all add: short_line_def SSE_PARSER_MAX_BUFFER_def)
  have 2: "within_cap [] (normalise ?raw)" by code_simp
  have "ss_Log (SpecStream (\<lambda>_ _. True) [] (normalise ?raw) spec_init) =
      [CallEvent \<lparr>pe_Event = ''message'', pe_Data = ''x'' @ [LF] @ ''y'', pe_Id = ''7'',
        pe_LastEventId = Some ''7''\<rparr> True]" by code_simp
  then show ?thesis by (simp only: parser_implements_reference [OF 1(1) 2 1(2)])
qed

section \<open>Resume position and reconnect delay\<close>

text \<open>
  C8. Resume safety: within one stream attempt, after the queue has dropped an event no call
  commits a resume position any more, for every byte stream and every behaviour of the queue.
\<close>
theorem resume_position_frozen_after_drop: "no_commit_after_drop (Transcript reply bytes)"
  using Transcript_ok [of reply bytes] by (auto simp: recorder_ok_def)

text \<open>
  Every reconnect delay a stream sets lies between one second and five minutes.
\<close>
theorem retry_delay_in_range: "list_all retry_ok (Transcript reply bytes)"
  using Transcript_ok [of reply bytes] by (auto simp: recorder_ok_def)

text \<open>
  The clamped delay of a valid \<open>retry:\<close> value is its decimal value, limited to one second
  and five minutes, and does not depend on the width of \<open>long\<close> (64 bits on macOS
  and Linux, 32 on Windows): overflow saturates.
\<close>
theorem retry_delay_value:
  assumes "v \<noteq> []" and "list_all isdigit v"
  shows "ClampRetry LONG_MAX v = max 1000 (min 300000 (int (digits_val v))) \<and>
         ClampRetry LONG_MAX_LLP64 v = ClampRetry LONG_MAX v"
  using assms by (simp add: ClampRetry_digits LONG_MAX_def LONG_MAX_LLP64_def)

theorem retry_delay_value_witness:
  "ClampRetry LONG_MAX ''99999999999999999999'' = 300000 \<and>
   ClampRetry LONG_MAX_LLP64 ''99999999999999999999'' = 300000"
proof -
  have v: "''99999999999999999999'' \<noteq> []" "list_all isdigit ''99999999999999999999''"
    by (simp_all add: isdigit_def)
  have "max 1000 (min 300000 (int (digits_val ''99999999999999999999''))) = 300000"
    by (simp add: digits_val_def digit_val_def)
  then show ?thesis using retry_delay_value [OF v] by simp
qed

section \<open>Bounded memory\<close>

definition buffers_bounded :: "sse_parser \<Rightarrow> bool" where
  "buffers_bounded p \<longleftrightarrow> length (sp_Line p) \<le> SSE_PARSER_MAX_BUFFER
     \<and> length (sp_Data p) \<le> SSE_PARSER_MAX_BUFFER
     \<and> length (sp_Event p) \<le> SSE_PARSER_MAX_BUFFER
     \<and> length (sp_Id p) \<le> SSE_PARSER_MAX_BUFFER
     \<and> length (sp_IdAtBlockStart p) \<le> SSE_PARSER_MAX_BUFFER"

lemma StripCR_length: "length (StripCR l) \<le> length l"
  by (simp add: StripCR_def)

lemma StripBOM_length: "length (StripBOM l) \<le> length l"
  by (simp add: StripBOM_def)

lemma spec_value_length: "length (spec_value l) \<le> length l"
proof -
  have "length (dropWhile P l) \<le> length l" for P by (rule length_dropWhile_le)
  then show ?thesis by (auto simp: spec_value_def Let_def intro: le_trans [OF diff_le_self])
qed

lemma HandleLine_bounded:
  assumes b: "buffers_bounded p" and l: "length l \<le> SSE_PARSER_MAX_BUFFER"
  shows "buffers_bounded (fst (HandleLine cbs l (p, c)))"
proof -
  have v: "length (spec_value l) \<le> SSE_PARSER_MAX_BUFFER"
    using le_trans [OF spec_value_length l] .
  have D: "buffers_bounded (fst (Dispatch cbs (p, c)))"
    using b by (auto simp: buffers_bounded_def Dispatch_def EndBlock_def Let_def split_def)
  have F: "buffers_bounded (fst (ProcessField cbs (spec_field l) (spec_value l) (p, c)))"
    using b v by (auto simp: buffers_bounded_def ProcessField_def PoisonEvent_def)
  show ?thesis using b D F by (simp add: HandleLine_def SplitField_spec)
qed

lemma FeedByte_bounded:
  assumes "buffers_bounded p"
  shows "buffers_bounded (fst (FeedByte cbs x (p, c)))"
proof -
  let ?l = "StripCR (if sp_FirstLine p then StripBOM (sp_Line p) else sp_Line p)"
  have "length ?l \<le> SSE_PARSER_MAX_BUFFER"
    using assms le_trans [OF StripCR_length StripBOM_length [of "sp_Line p"]]
      StripCR_length [of "sp_Line p"]
    by (auto simp: buffers_bounded_def intro: le_trans)
  moreover have "buffers_bounded (p\<lparr>sp_FirstLine := False\<rparr>)"
    using assms by (simp add: buffers_bounded_def)
  ultimately have "buffers_bounded (fst (ProcessLine cbs (sp_Line p) (p, c)))"
    unfolding ProcessLine_def prod.case by (intro HandleLine_bounded)
  with assms show ?thesis
    by (auto simp: FeedByte_def buffers_bounded_def PoisonEvent_def Let_def split_def)
qed

lemma Feed_bounded: "buffers_bounded p \<Longrightarrow> buffers_bounded (fst (Feed cbs bs (p, c)))"
proof (induction bs arbitrary: p c)
  case (Cons x bs)
  then show ?case using FeedByte_bounded [OF Cons.prems, of cbs x c]
    by (cases "FeedByte cbs x (p, c)") simp
qed simp

text \<open>
  C25. Bounded memory: whatever a server sends and the callbacks do, no buffer of the parser
  ever holds more than 1 MiB.
\<close>
theorem parser_memory_bounded:
  "buffers_bounded (fst (Feed cbs bytes (SSEParser_new, c)))"
  by (rule Feed_bounded) (simp add: buffers_bounded_def SSEParser_new_def)

section \<open>Oversized blocks\<close>

lemma Feed_oversized:
  assumes "LF \<notin> set l" and "length l = Suc (SSE_PARSER_MAX_BUFFER)" and "line_ready p"
  shows "Feed cbs l (p, c) =
    (PoisonEvent (p\<lparr>sp_DiscardingLine := True\<rparr>),
     fire_error cbs c ''SSE line exceeded maximum buffer size'')"
proof -
  obtain u b where l: "l = u @ [b]" using assms(2) by (cases l rule: rev_cases) auto
  with assms have u: "LF \<notin> set u" "b \<noteq> LF" "length u = SSE_PARSER_MAX_BUFFER" by auto
  with assms(3) have "Feed cbs u (p, c) = (p\<lparr>sp_Line := u\<rparr>, c)"
    by (simp add: Feed_within_line line_ready_def)
  moreover have eq: "p\<lparr>sp_Line := [], sp_DiscardingLine := True\<rparr> = p\<lparr>sp_DiscardingLine := True\<rparr>"
    using assms(3) by (cases p) (simp add: line_ready_def)
  ultimately show ?thesis
    using assms(3) u by (simp add: l eq Feed_append FeedByte_def Let_def line_ready_def)
qed

lemma Feed_discarding:
  "LF \<notin> set l \<Longrightarrow> sp_DiscardingLine p \<Longrightarrow> Feed cbs l (p, c) = (p, c)"
  by (induction l) (auto simp: FeedByte_def)

lemma fold_HandleLine_poisoned:
  "sp_EventPoisoned p \<Longrightarrow> list_all (\<lambda>l. l \<noteq> []) ls \<Longrightarrow> fold (HandleLine cbs) ls (p, c) = (p, c)"
  by (induction ls) (auto simp: HandleLine_def)

lemma Feed_oversized_line:
  assumes "LF \<notin> set l" and "SSE_PARSER_MAX_BUFFER < length l" and "line_ready p"
  shows "Feed cbs (l @ [LF]) (p, c) =
    (PoisonEvent p, fire_error cbs c ''SSE line exceeded maximum buffer size'')"
proof -
  let ?n = "Suc SSE_PARSER_MAX_BUFFER" and ?q = "PoisonEvent (p\<lparr>sp_DiscardingLine := True\<rparr>)"
  have n: "LF \<notin> set (take ?n l)" "LF \<notin> set (drop ?n l)" "length (take ?n l) = ?n"
    using assms by (auto dest: in_set_takeD in_set_dropD)
  have eq: "?q\<lparr>sp_DiscardingLine := False, sp_Line := []\<rparr> = PoisonEvent p"
    using assms(3) by (cases p) (simp add: PoisonEvent_def line_ready_def)
  have d: "sp_DiscardingLine ?q" by (simp add: PoisonEvent_def)
  have "Feed cbs (take ?n l @ drop ?n l) (p, c) =
      (?q, fire_error cbs c ''SSE line exceeded maximum buffer size'')"
    unfolding Feed_append Feed_oversized [OF n(1,3) assms(3)] by (rule Feed_discarding [OF n(2) d])
  then show ?thesis using d by (simp add: Feed_append FeedByte_def eq)
qed

text \<open>
  An oversized line drops its whole block: the lines up to the next blank line make no call
  but the one error report, and afterwards the last event id and the rollback point are those of
  the block's start, so the dropped block's id can never become the resume position.
\<close>
theorem oversized_line_drops_block:
  assumes "LF \<notin> set l" and "SSE_PARSER_MAX_BUFFER < length l" and "line_ready p"
    and "\<not> sp_FirstLine p" and "list_all short_line rest"
    and "list_all (\<lambda>r. StripCR r \<noteq> []) rest"
    and "Feed cbs (l @ [LF] @ text_of_lines rest @ [LF]) (p, c) = (p', c')"
  shows "c' = fire_error cbs c ''SSE line exceeded maximum buffer size'' \<and>
     sp_Id p' = sp_IdAtBlockStart p \<and> sp_IdAtBlockStart p' = sp_IdAtBlockStart p \<and>
     sp_HasIdEver p' = sp_HasIdEverAtBlockStart p \<and> sp_DropObserved p' = sp_DropObserved p \<and>
     \<not> sp_EventPoisoned p' \<and> sp_Data p' = [] \<and> line_ready p'"
proof -
  let ?q = "PoisonEvent p" and ?c = "fire_error cbs c ''SSE line exceeded maximum buffer size''"
  have q: "line_ready ?q" "\<not> sp_FirstLine ?q" "sp_EventPoisoned ?q"
    using assms(3,4) by (simp_all add: line_ready_def PoisonEvent_def)
  have eol: "text_of_lines rest @ [LF] = text_of_lines (rest @ [[]])"
    by (simp add: text_of_lines_append)
  have sl: "list_all short_line (rest @ [[]])" using assms(5) by (simp add: short_line_def)
  have "Feed cbs (text_of_lines rest @ [LF]) (?q, ?c) =
      fold (HandleLine cbs) (map StripCR (rest @ [[]])) (?q, ?c)"
    unfolding eol Feed_lines [OF sl q(1)] by (rule fold_ProcessLine [OF q(2)])
  also have "\<dots> = HandleLine cbs [] (?q, ?c)"
    using q(3) assms(6)
    by (simp add: fold_HandleLine_poisoned list_all_iff StripCR_def [of "[]"])
  finally have "(p', c') = HandleLine cbs [] (?q, ?c)"
    using assms(7) Feed_oversized_line [OF assms(1-3), of cbs c]
    by (simp add: Feed_append del: append.simps flip: append_assoc)
  then have "p' = EndBlock (?q\<lparr>sp_EventPoisoned := False\<rparr>)" "c' = ?c"
    using q(3) by (simp_all add: HandleLine_def Dispatch_def)
  then show ?thesis using assms(3) by (simp add: EndBlock_def PoisonEvent_def line_ready_def)
qed

theorem oversized_line_drops_block_witness:
  "\<exists>p' c'. Feed (Some rec_callbacks)
       (replicate 1048577 (CHR ''a'') @ [LF] @ text_of_lines [''data: x'', ''id: 9''] @ [LF])
       (SSEParser_new\<lparr>sp_FirstLine := False\<rparr>, \<lparr>rec_log = [], rec_reply = \<lambda>_ _. True\<rparr>) = (p', c')
     \<and> c' = record_call \<lparr>rec_log = [], rec_reply = \<lambda>_ _. True\<rparr>
              (CallError ''SSE line exceeded maximum buffer size'') \<and> sp_Id p' = []"
proof -
  let ?p = "SSEParser_new\<lparr>sp_FirstLine := False\<rparr>" and ?r = "\<lparr>rec_log = [], rec_reply = \<lambda>_ _. True\<rparr>"
  let ?l = "replicate 1048577 (CHR ''a'')" and ?rest = "[''data: x'', ''id: 9'']"
  have h: "LF \<notin> set ?l" "SSE_PARSER_MAX_BUFFER < length ?l" "line_ready ?p" "\<not> sp_FirstLine ?p"
    "list_all short_line ?rest" "list_all (\<lambda>r. StripCR r \<noteq> []) ?rest"
    by (simp_all add: SSE_PARSER_MAX_BUFFER_def line_ready_def short_line_def StripCR_def
        SSEParser_new_def)
  obtain p' c' where F: "Feed (Some rec_callbacks) (?l @ [LF] @ text_of_lines ?rest @ [LF]) (?p, ?r) = (p', c')"
    by fastforce
  from oversized_line_drops_block [OF h F] F show ?thesis
    by (intro exI [of _ p'] exI [of _ c']) (simp add: SSEParser_new_def)
qed

end
