(* ===== verification/DesktopWorker.thy ===== *)
theory DesktopWorker
  imports WorkerLog
begin

text \<open>
  The worker of the two transports in \<open>sse_desktop.cpp\<close> (libcurl and WinHTTP). Their
  \<open>SSEDesktop_Worker\<close> is the same text around different \<open>SSEDesktop_PerformOnce\<close>
  functions, so the attempt is a parameter here. The interface between the two is the locale
  \<open>transport\<close>: what an attempt may report.
\<close>

section \<open>The worker\<close>

text \<open>The member both structs add for the reaper.\<close>

record desktop_worker = desktop +
  dk_Finished :: bool

definition SSEDesktop_MarkFinished :: "'a desktop_worker_scheme \<Rightarrow> 'a desktop_worker_scheme" where
  "SSEDesktop_MarkFinished d = d\<lparr>dk_Finished := True\<rparr>"

definition SSEDesktop_IsFinished :: "'a desktop_worker_scheme \<Rightarrow> bool" where
  "SSEDesktop_IsFinished d = dk_Finished d"

text \<open>
  A turn of the loop: the look at the stop flag, the inputs of the attempt, the look behind it, what
  the clock says, the looks during the sleep, and the look at the end when this turn ends the loop.
\<close>

record 'i worker_turn =
  wt_Stop :: bool
  wt_Attempt :: 'i
  wt_StopAfter :: bool
  wt_Time :: nat
  wt_Sleep :: "bool list"
  wt_StopEnd :: bool

type_synonym ('i, 'a, 'e) perform_fn =
  "'i \<Rightarrow> 'a desktop_worker_scheme \<times> 'e \<Rightarrow> (string option, 'a desktop_worker_scheme \<times> 'e) progress"

text \<open>Behind the loop: the closed event unless stopped, and the finished flag as the last access.\<close>

definition WorkerReturn ::
  "'e sse_api \<Rightarrow> bool \<Rightarrow> 'a desktop_worker_scheme \<times> 'e \<Rightarrow> (unit, 'a desktop_worker_scheme \<times> 'e) progress" where
  "WorkerReturn api stop c =
     (case WorkerEnd api stop c of (d, e) \<Rightarrow> Finished () (SSEDesktop_MarkFinished d, e))"

text \<open>The number of failures since the last stream: a \<open>uint32_t\<close>.\<close>

definition count_failure :: "bool \<Rightarrow> bool \<Rightarrow> nat \<Rightarrow> nat" where
  "count_failure opened ok failures =
     (let f = (if opened then 0 else failures) in if ok then f else Suc f mod 4294967296)"

fun SSEDesktop_Worker ::
  "('i, 'a, 'e) perform_fn \<Rightarrow> 'e sse_api \<Rightarrow> 'i worker_turn list \<Rightarrow> nat \<Rightarrow> 'a desktop_worker_scheme \<times> 'e
     \<Rightarrow> (unit, 'a desktop_worker_scheme \<times> 'e) progress" where
  "SSEDesktop_Worker perform api [] failures c = Running c"
| "SSEDesktop_Worker perform api (t # turns) failures c =
     (if wt_Stop t then WorkerReturn api (wt_StopEnd t) c
      else case perform (wt_Attempt t) c of
        Running c1 \<Rightarrow> Running c1
      | Finished err (d, e) \<Rightarrow>
        (let e1 = api_SetConnected api (dk_Handle d) False e
         in if wt_StopAfter t then WorkerReturn api (wt_StopEnd t) (d, e1)
            else let failures1 = count_failure (dk_Opened d) (err = None) failures;
              e2 = (case err of None \<Rightarrow> e1
                   | Some m \<Rightarrow> api_EnqueueError api (dk_Handle d) (Some (take 255 m)) (dk_Status d)
                       (dk_Reconnect d) (dk_RetryMS d) e1)
              in if \<not> dk_Reconnect d then WorkerReturn api (wt_StopEnd t) (d, e2)
                 else let delay_ms = SSEDesktop_ComputeRetryDelayMS (dk_RetryMS d) failures1 (wt_Time t)
                   in case SSEDesktop_SleepRetry delay_ms (wt_Sleep t) of
                     None \<Rightarrow> Running (d, e2)
                   | Some _ \<Rightarrow> SSEDesktop_Worker perform api turns failures1 (d, e2)))"

section \<open>What an attempt may report\<close>

locale transport =
  fixes strict :: bool
    and perform :: "api_call list sse_api \<Rightarrow> ('i, 'a, api_call list) perform_fn"
  assumes attempt_live:
    "in_phase strict h Waiting c \<Longrightarrow> live strict h (reached (perform (log_api reply) i c))"
begin

lemma Return_settled:
  "in_phase strict h Waiting c \<Longrightarrow>
   \<exists>c1. WorkerReturn (log_api reply) stop c = Finished () c1 \<and> settled strict h c1 \<and> dk_Finished (fst c1)"
  using WorkerEnd_settled [of strict h c reply stop]
  by (cases "WorkerEnd (log_api reply) stop c")
    (auto simp: WorkerReturn_def SSEDesktop_MarkFinished_def settled_def in_phase_def)

lemma Worker_phase:
  assumes "in_phase strict h Waiting c"
  shows "case SSEDesktop_Worker (perform (log_api reply)) (log_api reply) turns failures c of
      Running c1 \<Rightarrow> live strict h c1 | Finished _ c1 \<Rightarrow> settled strict h c1 \<and> dk_Finished (fst c1)"
  using assms
proof (induction turns arbitrary: failures c)
  case Nil
  then show ?case by (simp add: live_def)
next
  case (Cons t turns)
  let ?api = "log_api reply"
  show ?case
  proof (cases "wt_Stop t")
    case True
    with Return_settled [OF Cons.prems, of reply "wt_StopEnd t"] show ?thesis by auto
  next
    case False
    note P = attempt_live [OF Cons.prems, of reply "wt_Attempt t"]
    show ?thesis
    proof (cases "perform ?api (wt_Attempt t) c")
      case (Running c1)
      with P False show ?thesis by simp
    next
      case (Finished err c1)
      obtain d e where c1: "c1 = (d, e)" by fastforce
      define e1 where "e1 = e @ [AConnected (dk_Handle d) False]"
      define e2 where "e2 = (case err of None \<Rightarrow> e1 | Some m \<Rightarrow>
        e1 @ [AError (dk_Handle d) (Some (take 255 m)) (dk_Status d) (dk_Reconnect d) (dk_RetryMS d)])"
      define f1 where "f1 = count_failure (dk_Opened d) (err = None) failures"
      have w1: "in_phase strict h Waiting (d, e1)"
        unfolding e1_def by (rule live_SetConnected) (use P Finished c1 in simp)
      then have w2: "in_phase strict h Waiting (d, e2)"
        by (auto simp: e2_def intro: Waiting_error split: option.split)
      then have l2: "live strict h (d, e2)" by (simp add: live_def)
      have eq: "SSEDesktop_Worker (perform ?api) ?api (t # turns) failures c =
          (if wt_StopAfter t then WorkerReturn ?api (wt_StopEnd t) (d, e1)
           else if \<not> dk_Reconnect d then WorkerReturn ?api (wt_StopEnd t) (d, e2)
           else case SSEDesktop_SleepRetry (SSEDesktop_ComputeRetryDelayMS (dk_RetryMS d) f1 (wt_Time t)) (wt_Sleep t)
             of None \<Rightarrow> Running (d, e2)
             | Some _ \<Rightarrow> SSEDesktop_Worker (perform ?api) ?api turns f1 (d, e2))"
        using False Finished c1
        by (cases err) (simp_all add: Let_def e1_def e2_def f1_def split: option.split)
      show ?thesis
        unfolding eq
        using l2 Cons.IH [OF w2, of f1] Return_settled [OF w1, of reply "wt_StopEnd t"]
          Return_settled [OF w2, of reply "wt_StopEnd t"]
        by (auto split: option.split)
    qed
  qed
qed

lemma Worker_protocol:
  "let c = SSEDesktop_Worker (perform (log_api reply)) (log_api reply) turns 0 (d, [])
   in \<exists>ph. proto strict (dk_Handle d) Waiting (snd (reached c)) = Some ph
     \<and> (case c of Running _ \<Rightarrow> ph \<noteq> Over | Finished _ _ \<Rightarrow> ph \<noteq> Streaming)"
proof -
  have "in_phase strict (dk_Handle d) Waiting (d, [])" by (simp add: in_phase_def)
  from Worker_phase [OF this, of reply turns 0] show ?thesis
    by (auto simp: Let_def live_def settled_def in_phase_def split: progress.splits)
qed

end

section \<open>Invariants of the object\<close>

text \<open>What every attempt keeps of the object, and every moment of an attempt implies, holds for the worker.\<close>

lemma Worker_invariant:
  assumes attempt: "\<And>i c. ok i \<Longrightarrow> P (fst c) \<Longrightarrow>
      (case perform i c of Running c1 \<Rightarrow> Q (fst c1) | Finished _ c1 \<Rightarrow> P (fst c1))"
    and weaken: "\<And>d. P d \<Longrightarrow> Q d" and mark: "\<And>d. P d \<Longrightarrow> P (SSEDesktop_MarkFinished d)"
  shows "list_all (\<lambda>t. ok (wt_Attempt t)) turns \<Longrightarrow> P (fst c) \<Longrightarrow>
    (case SSEDesktop_Worker perform api turns failures c of
       Running c1 \<Rightarrow> Q (fst c1) | Finished _ c1 \<Rightarrow> P (fst c1))"
proof (induction turns arbitrary: failures c)
  case Nil
  then show ?case by (simp add: weaken)
next
  case (Cons t turns)
  have R: "P d \<Longrightarrow> (case WorkerReturn api stop (d, e) of Running c1 \<Rightarrow> Q (fst c1) | Finished _ c1 \<Rightarrow> P (fst c1))" for d e stop
    by (simp add: WorkerReturn_def WorkerEnd_def mark)
  show ?case
  proof (cases "wt_Stop t")
    case True
    with Cons.prems R [of "fst c" "wt_StopEnd t" "snd c"] show ?thesis by simp
  next
    case False
    have A: "case perform (wt_Attempt t) c of Running c1 \<Rightarrow> Q (fst c1) | Finished _ c1 \<Rightarrow> P (fst c1)"
      using attempt Cons.prems by simp
    show ?thesis
    proof (cases "perform (wt_Attempt t) c")
      case (Running c1)
      with A False show ?thesis by simp
    next
      case (Finished err c1)
      obtain d e where c1: "c1 = (d, e)" by fastforce
      have P: "P d" using A Finished c1 by simp
      have I: "case SSEDesktop_Worker perform api turns f (d, e2) of
          Running c1 \<Rightarrow> Q (fst c1) | Finished _ c1 \<Rightarrow> P (fst c1)" for f e2
        using Cons.IH [of "(d, e2)" f] Cons.prems P by simp
      from P I R [OF P] weaken [OF P] False Finished c1 show ?thesis
        by (auto simp: Let_def split: option.split)
    qed
  qed
qed

end
