(* ===== verification/CurlTransport.thy ===== *)
theory CurlTransport
  imports DesktopWorker
begin

text \<open>
  The libcurl transport (\<open>sse_desktop.cpp\<close>, the part under \<open>SSE_USE_LIBCURL\<close>): the callbacks
  that libcurl calls during a transfer, and one attempt. libcurl itself is not modelled: a transfer is
  the list of the callbacks it makes, with what each look at the stop flag saw, and a result. What
  the code relies on is documented: a write or header callback that returns another number than it
  was given, and a progress callback that returns non-zero, ends the transfer with an error.
\<close>

section \<open>The connection\<close>

record SSECurlConnection = desktop_worker +
  cu_Curl :: bool
  cu_AttemptStart :: "64 word"
  cu_FirstResponseTimedOut :: bool

definition SSECurlConnection_new :: SSECurlConnection where
  "SSECurlConnection_new = \<lparr>dk_Handle = 0, dk_Url = None, dk_LastEventId = None, dk_Headers = [],
     dk_Parser = SSEParser_new, dk_Thread = False, dk_RetryMS = 3000, dk_Status = 0, dk_Reconnect = False,
     dk_Stop = False, dk_Opened = False, dk_Finished = False, cu_Curl = False, cu_AttemptStart = 0,
     cu_FirstResponseTimedOut = False\<rparr>"

definition SSE_DESKTOP_FIRST_RESPONSE_TIMEOUT_US :: "64 word" where
  "SSE_DESKTOP_FIRST_RESPONSE_TIMEOUT_US = 30 * 1000000"

definition SSEDesktop_SetCurl :: "bool \<Rightarrow> SSECurlConnection \<Rightarrow> SSECurlConnection" where
  "SSEDesktop_SetCurl b d = d\<lparr>cu_Curl := b\<rparr>"

section \<open>The callbacks\<close>

definition success_status :: "int \<Rightarrow> bool" where
  "success_status st \<longleftrightarrow> 200 \<le> st \<and> st < 300"

text \<open>Both data callbacks report the open event at the first sign of a successful response.\<close>

definition OpenIfSuccessful ::
  "'e sse_api \<Rightarrow> SSECurlConnection \<times> 'e \<Rightarrow> SSECurlConnection \<times> 'e" where
  "OpenIfSuccessful api c = (case c of (d, e) \<Rightarrow>
     if \<not> dk_Opened d \<and> success_status (dk_Status d)
     then (d\<lparr>dk_Opened := True\<rparr>, api_EnqueueOpen api (dk_Handle d) (dk_Status d) e)
     else (d, e))"

text \<open>The number each callback returns, and the state; \<open>stop\<close> is the look at the stop flag.\<close>

definition SSEDesktop_WriteCallback ::
  "'e sse_api \<Rightarrow> bool \<Rightarrow> string \<Rightarrow> SSECurlConnection \<times> 'e \<Rightarrow> nat \<times> SSECurlConnection \<times> 'e" where
  "SSEDesktop_WriteCallback api stop data c =
     (if stop then (0, c) else (length data, FeedParser api data (OpenIfSuccessful api c)))"

definition SSEDesktop_HeaderCallback ::
  "'e sse_api \<Rightarrow> bool \<Rightarrow> string \<Rightarrow> SSECurlConnection \<times> 'e \<Rightarrow> nat \<times> SSECurlConnection \<times> 'e" where
  "SSEDesktop_HeaderCallback api stop line c =
     (if stop then (0, c)
      else if take 5 line = ''HTTP/'' then
        (length line,
         (case sscanf_status (take 63 line) of
            Some status \<Rightarrow> ((fst c)\<lparr>dk_Status := status, dk_Opened := False\<rparr>, snd c)
          | None \<Rightarrow> c))
      else if line = [CR, LF] \<or> line = [LF] then (length line, OpenIfSuccessful api c)
      else (length line, c))"

definition SSEDesktop_ProgressCallback ::
  "bool \<Rightarrow> 64 word \<Rightarrow> SSECurlConnection \<times> 'e \<Rightarrow> int \<times> SSECurlConnection \<times> 'e" where
  "SSEDesktop_ProgressCallback stop time c = (case c of (d, e) \<Rightarrow>
     if stop then (1, c)
     else if \<not> dk_Opened d \<and> time - cu_AttemptStart d > SSE_DESKTOP_FIRST_RESPONSE_TIMEOUT_US
     then (1, d\<lparr>cu_FirstResponseTimedOut := True\<rparr>, e)
     else (0, c))"

section \<open>A transfer\<close>

datatype curl_call = WriteData string | HeaderLine string | ProgressAt "64 word"

text \<open>One callback of libcurl: whether the transfer goes on.\<close>

definition curl_callback ::
  "'e sse_api \<Rightarrow> bool \<times> curl_call \<Rightarrow> SSECurlConnection \<times> 'e \<Rightarrow> bool \<times> SSECurlConnection \<times> 'e" where
  "curl_callback api k c =
     (case k of (stop, WriteData data) \<Rightarrow>
        (case SSEDesktop_WriteCallback api stop data c of (n, c1) \<Rightarrow> (n = length data, c1))
      | (stop, HeaderLine line) \<Rightarrow>
        (case SSEDesktop_HeaderCallback api stop line c of (n, c1) \<Rightarrow> (n = length line, c1))
      | (stop, ProgressAt time) \<Rightarrow>
        (case SSEDesktop_ProgressCallback stop time c of (r, c1) \<Rightarrow> (r = 0, c1)))"

text \<open>\<open>curl_easy_perform\<close>: whether it returned \<open>CURLE_OK\<close>; no result yet when the transfer has not ended.\<close>

fun curl_transfer ::
  "'e sse_api \<Rightarrow> (bool \<times> curl_call) list \<Rightarrow> bool option \<Rightarrow> SSECurlConnection \<times> 'e
     \<Rightarrow> (bool, SSECurlConnection \<times> 'e) progress" where
  "curl_transfer api [] result c = (case result of None \<Rightarrow> Running c | Some ok \<Rightarrow> Finished ok c)"
| "curl_transfer api (k # ks) result c =
     (case curl_callback api k c of (on, c1) \<Rightarrow>
        if on then curl_transfer api ks result c1 else Finished False c1)"

section \<open>One attempt\<close>

text \<open>\<open>SSEDesktop_AddHeader\<close> appends a line to the list libcurl will send.\<close>

definition SSEDesktop_AddHeader :: "string option \<Rightarrow> string option \<Rightarrow> string list \<Rightarrow> string list" where
  "SSEDesktop_AddHeader name value headers =
     (case (name, value) of
        (Some n, Some v) \<Rightarrow> headers @ [c_str n @ '': '' @ c_str v]
      | _ \<Rightarrow> headers)"

definition curl_headers :: "'a desktop_scheme \<Rightarrow> string list" where
  "curl_headers d =
     (let headers = foldl (\<lambda>hs h. SSEDesktop_AddHeader (Some (hd_Name h)) (Some (hd_Value h)) hs)
            [''Accept: text/event-stream'', ''Cache-Control: no-cache''] (dk_Headers d)
      in case dk_LastEventId d of
           Some i \<Rightarrow> if c_str i \<noteq> [] then SSEDesktop_AddHeader (Some ''Last-Event-ID'') (Some i) headers
             else headers
         | None \<Rightarrow> headers)"

text \<open>What \<open>curl_easy_setopt\<close> tells libcurl about the request.\<close>

record curl_setup =
  cs_Url :: "string option"
  cs_Headers :: "string list"
  cs_NoProgress :: bool
  cs_ConnectTimeoutMS :: int
  cs_FollowLocation :: bool
  cs_NoSignal :: bool
  cs_KeepAlive :: bool
  cs_UserAgent :: string

definition curl_setup_of :: "'a desktop_scheme \<Rightarrow> curl_setup" where
  "curl_setup_of d = \<lparr>cs_Url = dk_Url d, cs_Headers = curl_headers d, cs_NoProgress = False,
     cs_ConnectTimeoutMS = 15000, cs_FollowLocation = True, cs_NoSignal = True, cs_KeepAlive = True,
     cs_UserAgent = ''defold-extension-sse/0.1''\<rparr>"

text \<open>
  The inputs of an attempt: whether there is a handle, the time, the callbacks libcurl makes for a
  request and the result of the transfer, the response code libcurl reports, its error text, the look at the stop flag behind it.
\<close>

record curl_attempt =
  ca_Init :: bool
  ca_Start :: "64 word"
  ca_Calls :: "curl_setup \<Rightarrow> (bool \<times> curl_call) list"
  ca_Result :: "bool option"
  ca_Code :: int
  ca_Text :: string
  ca_Stop :: bool

definition SSECurl_Reset :: "64 word \<Rightarrow> SSECurlConnection \<Rightarrow> SSECurlConnection" where
  "SSECurl_Reset start d = d\<lparr>dk_Parser := Reset (dk_Parser d), dk_Status := 0, dk_Opened := False,
     cu_FirstResponseTimedOut := False, cu_AttemptStart := start\<rparr>"

definition SSECurl_PerformOnce ::
  "'e sse_api \<Rightarrow> curl_attempt \<Rightarrow> SSECurlConnection \<times> 'e
     \<Rightarrow> (string option, SSECurlConnection \<times> 'e) progress" where
  "SSECurl_PerformOnce api a c = (case c of (d, e) \<Rightarrow>
     if \<not> ca_Init a then Finished (Some ''curl_easy_init failed'') (d, e)
     else case curl_transfer api (ca_Calls a (curl_setup_of d)) (ca_Result a)
            (SSEDesktop_SetCurl True (SSECurl_Reset (ca_Start a) d), e) of
        Running c1 \<Rightarrow> Running c1
      | Finished ok (d1, e1) \<Rightarrow>
        (let d2 = SSEDesktop_SetCurl False
               (if ca_Code a > 0 then d1\<lparr>dk_Status := to_int32 (ca_Code a)\<rparr> else d1)
         in if ca_Stop a then Finished None (d2, e1)
            else if \<not> ok then
              Finished (Some (if cu_FirstResponseTimedOut d2
                 then ''SSE timed out waiting for server response'' else ca_Text a)) (d2, e1)
            else if dk_Status d2 < 200 \<or> dk_Status d2 \<ge> 300
            then Finished (Some (status_error (dk_Status d2))) (d2, e1)
            else Finished None (d2, e1)))"

end
