(* ===== verification/WinHttp.thy ===== *)
theory WinHttp
  imports DesktopWorker
begin

text \<open>
  The WinHTTP transport (\<open>sse_desktop.cpp\<close>, the part under \<open>SSE_USE_WINHTTP\<close>): its three
  handles, which the connection's mutex guards, the reading of a body, and one attempt. The functions of
  WinHTTP are not modelled: their results are inputs. Every call with a handle is logged, so that the use of handles
  can be stated; the shutdown on the engine's thread may close the handles between any two of these calls.
\<close>

section \<open>The connection and its handles\<close>

type_synonym wide = "16 word list"

datatype winhttp_call =
    WOpen nat
  | WTimeouts nat
  | WConnect nat wide "16 word" "nat option"
  | WOpenRequest nat wide bool "nat option"
  | WAddHeader nat wide
  | WSend nat
  | WReceive nat
  | WQueryStatus nat
  | WTimeout nat
  | WQueryData nat
  | WRead nat
  | WClose nat

text \<open>\<open>WinHttpConnect\<close> and \<open>WinHttpOpenRequest\<close> carry the handle they return, or none when they fail. A handle is \<open>None\<close> when it is null; \<open>wh_Calls\<close> is the log.\<close>

record SSEWinHTTPConnection = desktop_worker +
  wh_Session :: "nat option"
  wh_Connect :: "nat option"
  wh_Request :: "nat option"
  wh_Calls :: "winhttp_call list"

definition SSEWinHTTPConnection_new :: SSEWinHTTPConnection where
  "SSEWinHTTPConnection_new = \<lparr>dk_Handle = 0, dk_Url = None, dk_LastEventId = None, dk_Headers = [],
     dk_Parser = SSEParser_new, dk_Thread = False, dk_RetryMS = 3000, dk_Status = 0, dk_Reconnect = False,
     dk_Stop = False, dk_Opened = False, dk_Finished = False, wh_Session = None, wh_Connect = None,
     wh_Request = None, wh_Calls = []\<rparr>"

definition wh_log :: "winhttp_call list \<Rightarrow> SSEWinHTTPConnection \<Rightarrow> SSEWinHTTPConnection" where
  "wh_log ks d = d\<lparr>wh_Calls := wh_Calls d @ ks\<rparr>"

definition SSEWinHTTP_SetHandles ::
  "nat option \<Rightarrow> nat option \<Rightarrow> nat option \<Rightarrow> SSEWinHTTPConnection \<Rightarrow> SSEWinHTTPConnection" where
  "SSEWinHTTP_SetHandles s c r d = d\<lparr>wh_Session := s, wh_Connect := c, wh_Request := r\<rparr>"

definition SSEWinHTTP_TakeHandles ::
  "SSEWinHTTPConnection \<Rightarrow> (nat option \<times> nat option \<times> nat option) \<times> SSEWinHTTPConnection" where
  "SSEWinHTTP_TakeHandles d = ((wh_Session d, wh_Connect d, wh_Request d), SSEWinHTTP_SetHandles None None None d)"

definition close_handle :: "nat option \<Rightarrow> winhttp_call list" where
  "close_handle h = (case h of None \<Rightarrow> [] | Some n \<Rightarrow> [WClose n])"

definition SSEWinHTTP_CloseHandles ::
  "nat option \<times> nat option \<times> nat option \<Rightarrow> SSEWinHTTPConnection \<Rightarrow> SSEWinHTTPConnection" where
  "SSEWinHTTP_CloseHandles hs d = (case hs of (s, c, r) \<Rightarrow>
     wh_log (close_handle r @ close_handle c @ close_handle s) d)"

definition SSEWinHTTP_CloseActiveHandles :: "SSEWinHTTPConnection \<Rightarrow> SSEWinHTTPConnection" where
  "SSEWinHTTP_CloseActiveHandles d =
     (case SSEWinHTTP_TakeHandles d of (hs, d1) \<Rightarrow> SSEWinHTTP_CloseHandles hs d1)"

text \<open>The close by the shutdown, where it happens.\<close>

definition aborted :: "bool \<Rightarrow> SSEWinHTTPConnection \<Rightarrow> SSEWinHTTPConnection" where
  "aborted b d = (if b then SSEWinHTTP_CloseActiveHandles d else d)"

section \<open>Strings and errors\<close>

text \<open>A reader of a wide C string sees the characters before the first zero.\<close>

definition wide_c_str :: "wide \<Rightarrow> wide" where
  "wide_c_str s = takeWhile (\<lambda>c. c \<noteq> 0) s"

text \<open>
  What Windows answers: the conversion of UTF-8 (\<open>MultiByteToWideChar\<close>), the parts of an URL
  (\<open>WinHttpCrackUrl\<close>), whether a header is accepted, whether memory could be had for the parts of
  the URL, and the text and the number of the last error.
\<close>

record url_components =
  uc_Scheme :: nat
  uc_Host :: wide
  uc_Path :: wide
  uc_Extra :: wide
  uc_Port :: "16 word"

record windows =
  wn_Wide :: "string \<Rightarrow> wide option"
  wn_Crack :: "wide \<Rightarrow> url_components option"
  wn_AddHeader :: "wide \<Rightarrow> bool"
  wn_Alloc :: bool
  wn_ErrorText :: string
  wn_ErrorCode :: nat

definition SSEWinHTTP_ToWide :: "windows \<Rightarrow> string option \<Rightarrow> wide option" where
  "SSEWinHTTP_ToWide n value = Option.bind (map_option c_str value) (wn_Wide n)"

definition trim_message :: "string \<Rightarrow> string" where
  "trim_message m = rev (dropWhile (\<lambda>c. c = CR \<or> c = LF \<or> c = CHR '' '') (rev m))"

definition SSEWinHTTP_FormatLastError :: "windows \<Rightarrow> string \<Rightarrow> string" where
  "SSEWinHTTP_FormatLastError n call =
     (let message = trim_message (wn_ErrorText n)
      in call @ '' failed: '' @ (if message \<noteq> [] then message else ''WinHTTP error'')
         @ '' ('' @ dec_string (wn_ErrorCode n) @ '')'')"

section \<open>The URL\<close>

record SSEWinHTTPUrl =
  wu_Host :: wide
  wu_Path :: wide
  wu_Port :: "16 word"
  wu_Secure :: bool

text \<open>\<open>INTERNET_SCHEME_HTTP\<close> is 1, \<open>INTERNET_SCHEME_HTTPS\<close> is 2; 47 is the slash.\<close>

definition SSEWinHTTP_ParseUrl :: "windows \<Rightarrow> string option \<Rightarrow> string + SSEWinHTTPUrl" where
  "SSEWinHTTP_ParseUrl n url =
     (case SSEWinHTTP_ToWide n url of
        None \<Rightarrow> Inl ''failed to convert SSE URL to UTF-16''
      | Some w \<Rightarrow>
        (case wn_Crack n w of
           None \<Rightarrow> Inl (SSEWinHTTP_FormatLastError n ''WinHttpCrackUrl'')
         | Some u \<Rightarrow>
           if uc_Scheme u \<noteq> 1 \<and> uc_Scheme u \<noteq> 2 then Inl ''SSE URL must use http or https''
           else if \<not> wn_Alloc n then Inl ''failed to allocate parsed SSE URL''
           else Inr \<lparr>wu_Host = wide_c_str (uc_Host u),
                  wu_Path = wide_c_str ((if uc_Path u \<noteq> [] then uc_Path u else [47]) @ uc_Extra u),
                  wu_Port = uc_Port u, wu_Secure = (uc_Scheme u = 2)\<rparr>))"

section \<open>The request's headers\<close>

text \<open>The error, or the connection with the header logged.\<close>

definition SSEWinHTTP_AddHeader ::
  "windows \<Rightarrow> nat \<Rightarrow> string option \<Rightarrow> string option \<Rightarrow> SSEWinHTTPConnection
     \<Rightarrow> string option \<times> SSEWinHTTPConnection" where
  "SSEWinHTTP_AddHeader n r name value d =
     (case (name, value) of
        (Some a, Some b) \<Rightarrow>
          (case SSEWinHTTP_ToWide n (Some (c_str a @ '': '' @ c_str b)) of
             None \<Rightarrow> (Some ''failed to convert request header to UTF-16'', d)
           | Some w \<Rightarrow>
               (if wn_AddHeader n w then None else Some (SSEWinHTTP_FormatLastError n ''WinHttpAddRequestHeaders''),
                wh_log [WAddHeader r w] d))
      | _ \<Rightarrow> (None, d))"

text \<open>The chain of \<open>headers_ok\<close>: the first error ends it. \<open>ab i\<close> is the shutdown's close behind the header \<open>i\<close>.\<close>

fun AddHeaders ::
  "windows \<Rightarrow> (nat \<Rightarrow> bool) \<Rightarrow> nat \<Rightarrow> nat \<Rightarrow> (string option \<times> string option) list \<Rightarrow> SSEWinHTTPConnection
     \<Rightarrow> string option \<times> SSEWinHTTPConnection" where
  "AddHeaders n ab i r [] d = (None, d)"
| "AddHeaders n ab i r ((name, value) # hs) d =
     (case SSEWinHTTP_AddHeader n r name value d of
        (Some err, d1) \<Rightarrow> (Some err, aborted (ab i) d1)
      | (None, d1) \<Rightarrow> AddHeaders n ab (Suc i) r hs (aborted (ab i) d1))"

definition request_headers :: "'a desktop_scheme \<Rightarrow> (string option \<times> string option) list" where
  "request_headers d =
     [(Some ''Accept'', Some ''text/event-stream''), (Some ''Cache-Control'', Some ''no-cache'')]
     @ map (\<lambda>h. (Some (hd_Name h), Some (hd_Value h))) (dk_Headers d)
     @ (case dk_LastEventId d of
          Some i \<Rightarrow> if c_str i \<noteq> [] then [(Some ''Last-Event-ID'', Some i)] else []
        | None \<Rightarrow> [])"

section \<open>The body\<close>

text \<open>
  A turn of the outer loop: the look at the stop flag, what \<open>WinHttpQueryDataAvailable\<close> answered
  (\<open>None\<close> when it failed), whether the shutdown closed the handles behind that call, the turns of the inner loop, each a
  look, what \<open>WinHttpReadData\<close> delivered and whether the shutdown closed the handles behind it, and the look behind a failure.
\<close>

record stream_turn =
  st_Stop :: bool
  st_Available :: "nat option"
  st_Abort :: bool
  st_Reads :: "(bool \<times> string option \<times> bool) list"
  st_StopOnError :: bool

datatype read_end = QueryAgain | BodyOver | ReadFailed

text \<open>A logged call on the request \<open>r\<close>, behind which the shutdown may close the handles.\<close>

definition with_handle ::
  "winhttp_call \<Rightarrow> bool \<Rightarrow> SSEWinHTTPConnection \<times> 'e \<Rightarrow> SSEWinHTTPConnection \<times> 'e" where
  "with_handle k ab c = (case c of (d, e) \<Rightarrow> (aborted ab (wh_log [k] d), e))"

text \<open>The inner loop; \<open>available\<close> is a \<open>DWORD\<close>.\<close>

fun ReadAvailable ::
  "'e sse_api \<Rightarrow> nat \<Rightarrow> nat \<Rightarrow> (bool \<times> string option \<times> bool) list \<Rightarrow> SSEWinHTTPConnection \<times> 'e
     \<Rightarrow> (read_end, SSEWinHTTPConnection \<times> 'e) progress" where
  "ReadAvailable api r available [] c = (if available = 0 then Finished QueryAgain c else Running c)"
| "ReadAvailable api r available ((stop, delivered, ab) # rs) c =
     (if available = 0 \<or> stop then Finished QueryAgain c
      else let c1 = with_handle (WRead r) ab c
        in case delivered of
          None \<Rightarrow> Finished ReadFailed c1
        | Some data \<Rightarrow>
            if data = [] then Finished BodyOver c1
            else ReadAvailable api r ((available + 4294967296 - length data) mod 4294967296) rs
              (FeedParser api data c1))"

fun SSEWinHTTP_ReadStream ::
  "'e sse_api \<Rightarrow> windows \<Rightarrow> nat \<Rightarrow> stream_turn list \<Rightarrow> SSEWinHTTPConnection \<times> 'e
     \<Rightarrow> (string option, SSEWinHTTPConnection \<times> 'e) progress" where
  "SSEWinHTTP_ReadStream api n r [] c = Running c"
| "SSEWinHTTP_ReadStream api n r (t # ts) c =
     (if st_Stop t then Finished None c
      else let c1 = with_handle (WQueryData r) (st_Abort t) c
        in case st_Available t of
          None \<Rightarrow> Finished (if st_StopOnError t then None
            else Some (SSEWinHTTP_FormatLastError n ''WinHttpQueryDataAvailable'')) c1
        | Some available \<Rightarrow>
            if available = 0 then Finished None c1
            else (case ReadAvailable api r available (st_Reads t) c1 of
              Running c2 \<Rightarrow> Running c2
            | Finished QueryAgain c2 \<Rightarrow> SSEWinHTTP_ReadStream api n r ts c2
            | Finished BodyOver c2 \<Rightarrow> Finished None c2
            | Finished ReadFailed c2 \<Rightarrow> Finished (if st_StopOnError t then None
                else Some (SSEWinHTTP_FormatLastError n ''WinHttpReadData'')) c2))"

section \<open>One attempt\<close>

text \<open>
  Where in an attempt the shutdown can close the connection's handles: behind each store into the connection (\<open>At_Session\<close>,
  \<open>At_Connection\<close>, \<open>At_Request\<close>), behind or during each call (the header \<open>i\<close> is \<open>At_Header i\<close>), and before the
  attempt closes them itself (\<open>At_End\<close>).
\<close>

datatype abort_point =
    At_Session | At_Timeouts | In_Connect | At_Connection | In_OpenRequest | At_Request | At_Header nat
  | At_Send | At_Receive | At_Status | At_Timeout | At_End

text \<open>
  The inputs of an attempt: what Windows answers, the three handles (\<open>None\<close> when the call
  failed), the looks at the stop flag behind each, the result of the request and of the response
  (the outer \<open>None\<close> while the call has not returned), the status, the turns of the body's loop, the
  last look, and where the shutdown closes the handles.
\<close>

record winhttp_attempt =
  wa_Windows :: windows
  wa_Session :: "nat option"
  wa_Stop1 :: bool
  wa_Connect :: "nat option"
  wa_Stop2 :: bool
  wa_Request :: "nat option"
  wa_Stop3 :: bool
  wa_Send :: "bool option"
  wa_Receive :: "bool option"
  wa_Status :: "int option"
  wa_Body :: "stream_turn list"
  wa_StopEnd :: bool
  wa_Abort :: "abort_point \<Rightarrow> bool"

definition SSEWinHTTP_Reset :: "SSEWinHTTPConnection \<Rightarrow> SSEWinHTTPConnection" where
  "SSEWinHTTP_Reset d = d\<lparr>dk_Parser := Reset (dk_Parser d), dk_Status := 0, dk_Opened := False\<rparr>"

text \<open>An attempt that is over closes its handles; the last case of each step.\<close>

definition close_with ::
  "string option \<Rightarrow> SSEWinHTTPConnection \<times> 'e \<Rightarrow> (string option, SSEWinHTTPConnection \<times> 'e) progress" where
  "close_with err c = (case c of (d, e) \<Rightarrow> Finished err (SSEWinHTTP_CloseActiveHandles d, e))"

definition exchange_over ::
  "winhttp_attempt \<Rightarrow> string option \<Rightarrow> SSEWinHTTPConnection \<times> 'e
     \<Rightarrow> (string option, SSEWinHTTPConnection \<times> 'e) progress" where
  "exchange_over a err c = (case c of (d, e) \<Rightarrow> close_with err (aborted (wa_Abort a At_End) d, e))"

text \<open>From the first look behind the response on: the status, the open event and the body.\<close>

definition WinHTTP_Response ::
  "'e sse_api \<Rightarrow> winhttp_attempt \<Rightarrow> nat \<Rightarrow> SSEWinHTTPConnection \<times> 'e
     \<Rightarrow> (string option, SSEWinHTTPConnection \<times> 'e) progress" where
  "WinHTTP_Response api a r c = (case with_handle (WQueryStatus r) (wa_Abort a At_Status) c of (d1, e) \<Rightarrow>
     (let d2 = (case wa_Status a of None \<Rightarrow> d1 | Some status \<Rightarrow> d1\<lparr>dk_Status := to_int32 status\<rparr>)
      in if dk_Status d2 < 200 \<or> dk_Status d2 \<ge> 300
         then exchange_over a (Some (status_error (dk_Status d2))) (d2, e)
         else case with_handle (WTimeout r) (wa_Abort a At_Timeout) (d2, e) of (d3, e) \<Rightarrow>
           (case SSEWinHTTP_ReadStream api (wa_Windows a) r (wa_Body a)
                (d3\<lparr>dk_Opened := True\<rparr>, api_EnqueueOpen api (dk_Handle d3) (dk_Status d3) e) of
             Running c1 \<Rightarrow> Running c1
           | Finished err (d4, e4) \<Rightarrow>
               exchange_over a (if wa_StopEnd a then None else err) (d4, e4))))"

definition WinHTTP_Exchange ::
  "'e sse_api \<Rightarrow> winhttp_attempt \<Rightarrow> nat \<Rightarrow> SSEWinHTTPConnection \<times> 'e
     \<Rightarrow> (string option, SSEWinHTTPConnection \<times> 'e) progress" where
  "WinHTTP_Exchange api a r c = (case c of (d, e) \<Rightarrow>
     (case AddHeaders (wa_Windows a) (\<lambda>i. wa_Abort a (At_Header i)) 0 r (request_headers d) d of
        (Some err, d1) \<Rightarrow> exchange_over a (Some err) (d1, e)
      | (None, d1) \<Rightarrow>
        (let c2 = with_handle (WSend r) (wa_Abort a At_Send) (d1, e)
         in case wa_Send a of
              None \<Rightarrow> Running c2
            | Some False \<Rightarrow> exchange_over a (Some (SSEWinHTTP_FormatLastError (wa_Windows a) ''WinHttpSendRequest'')) c2
            | Some True \<Rightarrow>
              (let c3 = with_handle (WReceive r) (wa_Abort a At_Receive) c2
               in case wa_Receive a of
                    None \<Rightarrow> Running c3
                  | Some False \<Rightarrow>
                      exchange_over a (Some (SSEWinHTTP_FormatLastError (wa_Windows a) ''WinHttpReceiveResponse'')) c3
                  | Some True \<Rightarrow> WinHTTP_Response api a r c3))))"

definition WinHTTP_Request ::
  "'e sse_api \<Rightarrow> winhttp_attempt \<Rightarrow> SSEWinHTTPUrl \<Rightarrow> nat \<Rightarrow> nat \<Rightarrow> SSEWinHTTPConnection \<times> 'e
     \<Rightarrow> (string option, SSEWinHTTPConnection \<times> 'e) progress" where
  "WinHTTP_Request api a url s cn c =
     (case with_handle (WOpenRequest cn (wu_Path url) (wu_Secure url) (wa_Request a)) (wa_Abort a In_OpenRequest) c of (d, e) \<Rightarrow>
     (case wa_Request a of
        None \<Rightarrow> close_with (Some (SSEWinHTTP_FormatLastError (wa_Windows a) ''WinHttpOpenRequest'')) (d, e)
      | Some r \<Rightarrow>
        (let d1 = aborted (wa_Abort a At_Request) (SSEWinHTTP_SetHandles (Some s) (Some cn) (Some r) d)
         in if wa_Stop3 a then close_with None (d1, e) else WinHTTP_Exchange api a r (d1, e))))"

definition WinHTTP_Connect ::
  "'e sse_api \<Rightarrow> winhttp_attempt \<Rightarrow> SSEWinHTTPUrl \<Rightarrow> nat \<Rightarrow> SSEWinHTTPConnection \<times> 'e
     \<Rightarrow> (string option, SSEWinHTTPConnection \<times> 'e) progress" where
  "WinHTTP_Connect api a url s c =
     (case with_handle (WConnect s (wu_Host url) (wu_Port url) (wa_Connect a)) (wa_Abort a In_Connect) c of (d, e) \<Rightarrow>
     (case wa_Connect a of
        None \<Rightarrow> close_with (Some (SSEWinHTTP_FormatLastError (wa_Windows a) ''WinHttpConnect'')) (d, e)
      | Some cn \<Rightarrow>
        (let d1 = aborted (wa_Abort a At_Connection) (SSEWinHTTP_SetHandles (Some s) (Some cn) None d)
         in if wa_Stop2 a then close_with None (d1, e) else WinHTTP_Request api a url s cn (d1, e))))"

definition SSEWinHTTP_PerformOnce ::
  "'e sse_api \<Rightarrow> winhttp_attempt \<Rightarrow> SSEWinHTTPConnection \<times> 'e
     \<Rightarrow> (string option, SSEWinHTTPConnection \<times> 'e) progress" where
  "SSEWinHTTP_PerformOnce api a c = (case c of (d, e) \<Rightarrow>
     (case SSEWinHTTP_ParseUrl (wa_Windows a) (dk_Url d) of
        Inl err \<Rightarrow> Finished (Some err) (d, e)
      | Inr url \<Rightarrow>
        (let d0 = SSEWinHTTP_Reset d
         in case wa_Session a of
              None \<Rightarrow> Finished (Some (SSEWinHTTP_FormatLastError (wa_Windows a) ''WinHttpOpen'')) (d0, e)
            | Some s \<Rightarrow>
              (let d1 = aborted (wa_Abort a At_Session) (SSEWinHTTP_SetHandles (Some s) None None (wh_log [WOpen s] d0));
                   c2 = with_handle (WTimeouts s) (wa_Abort a At_Timeouts) (d1, e)
               in if wa_Stop1 a then close_with None c2
                  else WinHTTP_Connect api a url s c2))))"

section \<open>The worker\<close>

definition SSEWinHTTP_Worker ::
  "'e sse_api \<Rightarrow> winhttp_attempt worker_turn list \<Rightarrow> SSEWinHTTPConnection \<times> 'e
     \<Rightarrow> (unit, SSEWinHTTPConnection \<times> 'e) progress" where
  "SSEWinHTTP_Worker api turns c = SSEDesktop_Worker (SSEWinHTTP_PerformOnce api) api turns 0 c"

end
