(* ===== verification/WinHttpProps.thy ===== *)
theory WinHttpProps
  imports WinHttp
begin

text \<open>
  The WinHTTP transport: its worker keeps to the strict protocol, and what it does with its handles: every one is used
  only while it is open when the shutdown does not interfere, and closed once also when it does, except while
  another handle is being opened.
\<close>

section \<open>The protocol\<close>

lemma winhttp_handle [simp]:
  "dk_Handle (wh_log ks d) = dk_Handle d" "dk_Handle (SSEWinHTTP_SetHandles s c r d) = dk_Handle d"
  "dk_Handle (SSEWinHTTP_CloseActiveHandles d) = dk_Handle d" "dk_Handle (aborted b d) = dk_Handle d"
  "dk_Handle (SSEWinHTTP_Reset d) = dk_Handle d"
  by (simp_all add: wh_log_def SSEWinHTTP_SetHandles_def SSEWinHTTP_CloseActiveHandles_def
      SSEWinHTTP_TakeHandles_def SSEWinHTTP_CloseHandles_def aborted_def SSEWinHTTP_Reset_def)

lemma AddHeader_handle: "dk_Handle (snd (SSEWinHTTP_AddHeader n r name value d)) = dk_Handle d"
  by (auto simp: SSEWinHTTP_AddHeader_def split: option.split)

lemma AddHeaders_handle: "dk_Handle (snd (AddHeaders n ab i r hs d)) = dk_Handle d"
proof (induction n ab i r hs d rule: AddHeaders.induct)
  case (2 n ab i r nm v hs d)
  obtain err d1 where "SSEWinHTTP_AddHeader n r nm v d = (err, d1)" by fastforce
  with 2 AddHeader_handle [of n r nm v d] show ?case by (cases err) simp_all
qed simp

lemma close_with_simps [simp]:
  "close_with err (d, e) = Finished err (SSEWinHTTP_CloseActiveHandles d, e)"
  "exchange_over a err (d, e) = Finished err (SSEWinHTTP_CloseActiveHandles (aborted (wa_Abort a At_End) d), e)"
  by (simp_all add: close_with_def exchange_over_def)

lemma with_handle_phase [simp]: "in_phase strict h ph (with_handle k ab c) = in_phase strict h ph c"
  by (cases c) (simp add: with_handle_def in_phase_def)

lemma with_handle_eq [simp]: "with_handle k ab (d, e) = (aborted ab (wh_log [k] d), e)"
  by (simp add: with_handle_def)

lemma ReadAvailable_phase:
  "in_phase True h Streaming c \<Longrightarrow> in_phase True h Streaming (reached (ReadAvailable (log_api reply) r available rs c))"
  by (induction "log_api reply" r available rs c rule: ReadAvailable.induct)
    (auto split: option.split simp: FeedParser_phase Let_def)

lemma ReadStream_phase:
  "in_phase True h Streaming c \<Longrightarrow> in_phase True h Streaming (reached (SSEWinHTTP_ReadStream (log_api reply) n r ts c))"
proof (induction ts arbitrary: c)
  case (Cons t ts)
  let ?c = "with_handle (WQueryData r) (st_Abort t) c"
  have "in_phase True h Streaming ?c" using Cons.prems by simp
  note A = ReadAvailable_phase [OF this, of reply r "the (st_Available t)" "st_Reads t"]
  show ?case
    using Cons.prems Cons.IH A
    by (cases "ReadAvailable (log_api reply) r (the (st_Available t)) (st_Reads t) ?c")
      (auto split: option.split read_end.split simp: Let_def)
qed simp

lemma Response_live:
  assumes "in_phase True h Waiting c"
  shows "live True h (reached (WinHTTP_Response (log_api reply) a r c))"
proof -
  obtain d1 e where c1: "with_handle (WQueryStatus r) (wa_Abort a At_Status) c = (d1, e)" by fastforce
  define d2 where "d2 = (case wa_Status a of None \<Rightarrow> d1 | Some status \<Rightarrow> d1\<lparr>dk_Status := to_int32 status\<rparr>)"
  define d3 where "d3 = aborted (wa_Abort a At_Timeout) (wh_log [WTimeout r] d2)"
  have "in_phase True h Waiting (with_handle (WQueryStatus r) (wa_Abort a At_Status) c)" using assms by simp
  then have w: "in_phase True h Waiting (d2, e)"
    by (auto simp: c1 d2_def in_phase_def split: option.split)
  have "dk_Handle d3 = dk_Handle d2" "dk_Status d3 = dk_Status d2"
    by (simp_all add: d3_def wh_log_def aborted_def SSEWinHTTP_CloseActiveHandles_def SSEWinHTTP_TakeHandles_def
        SSEWinHTTP_SetHandles_def SSEWinHTTP_CloseHandles_def)
  then have w3: "in_phase True h Waiting (d3, e)" "dk_Status d3 = dk_Status d2" using w by (simp_all add: in_phase_def)
  show ?thesis
  proof (cases "dk_Status d2 < 200 \<or> dk_Status d2 \<ge> 300")
    case True
    with w c1 show ?thesis
      by (simp add: WinHTTP_Response_def Let_def d2_def [symmetric] live_def in_phase_def)
  next
    case False
    let ?c = "(d3\<lparr>dk_Opened := True\<rparr>, e @ [AOpen (dk_Handle d3) (dk_Status d3)])"
    have "in_phase True h Waiting (d3\<lparr>dk_Opened := True\<rparr>, e)" using w3(1) by (simp add: in_phase_def)
    then have "in_phase True h Streaming ?c"
      using False w3(2) open_phase [of True h Waiting "d3\<lparr>dk_Opened := True\<rparr>" e] by simp
    from ReadStream_phase [OF this, of reply "wa_Windows a" r "wa_Body a"]
    show ?thesis
      using False c1
      by (cases "SSEWinHTTP_ReadStream (log_api reply) (wa_Windows a) r (wa_Body a) ?c")
        (auto simp: WinHTTP_Response_def Let_def d2_def [symmetric] d3_def [symmetric] live_def in_phase_def split: prod.split)
  qed
qed

lemma Exchange_live:
  assumes "in_phase True h Waiting (d, e)"
  shows "live True h (reached (WinHTTP_Exchange (log_api reply) a r (d, e)))"
proof -
  obtain err d1 where A: "AddHeaders (wa_Windows a) (\<lambda>i. wa_Abort a (At_Header i)) 0 r (request_headers d) d = (err, d1)"
    by fastforce
  then have "dk_Handle d1 = dk_Handle d"
    using AddHeaders_handle [of "wa_Windows a" "\<lambda>i. wa_Abort a (At_Header i)" 0 r "request_headers d" d] by simp
  then have w: "in_phase True h Waiting (d2, e)" if "dk_Handle d2 = dk_Handle d1" for d2 :: SSEWinHTTPConnection
    using assms that by (simp add: in_phase_def)
  then have l: "live True h (d2, e)" if "dk_Handle d2 = dk_Handle d1" for d2 :: SSEWinHTTPConnection
    using that by (simp add: live_def)
  have "live True h (reached (WinHTTP_Response (log_api reply) a r (d2, e)))" if "dk_Handle d2 = dk_Handle d1" for d2
    using w [OF that] by (rule Response_live)
  with l A show ?thesis
    by (simp add: WinHTTP_Exchange_def Let_def split: option.split bool.split)
qed

lemma WinHTTP_live:
  assumes "in_phase True h Waiting c"
  shows "live True h (reached (SSEWinHTTP_PerformOnce (log_api reply) a c))"
proof -
  obtain d e where c: "c = (d, e)" by fastforce
  have same: "live True h (d1, e)" if "dk_Handle d1 = dk_Handle d" for d1 :: SSEWinHTTPConnection
    using assms c that by (simp add: live_def in_phase_def)
  have exchange: "live True h (reached (WinHTTP_Exchange (log_api reply) a r (d1, e)))"
    if "dk_Handle d1 = dk_Handle d" for d1 r
    using assms c that by (intro Exchange_live) (simp add: in_phase_def)
  have request: "live True h (reached (WinHTTP_Request (log_api reply) a url s cn (d1, e)))"
    if "dk_Handle d1 = dk_Handle d" for d1 url s cn
    using that by (auto simp: WinHTTP_Request_def Let_def same exchange split: option.split)
  have connect: "live True h (reached (WinHTTP_Connect (log_api reply) a url s (d1, e)))"
    if "dk_Handle d1 = dk_Handle d" for d1 url s
    using that by (auto simp: WinHTTP_Connect_def Let_def same request split: option.split)
  show ?thesis
    by (auto simp: SSEWinHTTP_PerformOnce_def c Let_def same connect split: sum.split option.split)
qed

interpretation winhttp: transport True SSEWinHTTP_PerformOnce
  by unfold_locales (rule WinHTTP_live)

text \<open>
  The life of a WinHTTP connection as its worker reports it, at every moment and for any answers of
  Windows: all calls carry its handle, an attempt reports at most one open event, with a status 2xx, messages come
  only between it and the end of the attempt, and nothing follows the closed event.
\<close>
theorem winhttp_worker_protocol:
  "let c = SSEWinHTTP_Worker (log_api reply) turns (d, [])
   in \<exists>ph. proto True (dk_Handle d) Waiting (snd (reached c)) = Some ph
     \<and> (case c of Running _ \<Rightarrow> ph \<noteq> Over | Finished _ _ \<Rightarrow> ph \<noteq> Streaming)"
  unfolding SSEWinHTTP_Worker_def by (rule winhttp.Worker_protocol)

section \<open>The handles\<close>

text \<open>
  The discipline WinHTTP asks for: a request is opened on an open connection and that on an open session, a
  handle is used while it is open, and each is closed once, in the reverse order. The state is what is open.
\<close>

type_synonym open_handles = "nat option \<times> nat option \<times> nat option"

fun request_used :: "nat \<Rightarrow> open_handles \<Rightarrow> open_handles option" where
  "request_used r (Some s, Some cn, Some r') = (if r' = r then Some (Some s, Some cn, Some r') else None)"
| "request_used r _ = None"

fun handle_closed :: "nat \<Rightarrow> open_handles \<Rightarrow> open_handles option" where
  "handle_closed h (Some s, Some cn, Some r) = (if h = r then Some (Some s, Some cn, None) else None)"
| "handle_closed h (Some s, Some cn, None) = (if h = cn then Some (Some s, None, None) else None)"
| "handle_closed h (Some s, None, None) = (if h = s then Some (None, None, None) else None)"
| "handle_closed h _ = None"

fun request_opened :: "nat \<Rightarrow> nat option \<Rightarrow> open_handles \<Rightarrow> open_handles option" where
  "request_opened cn res (Some s, Some cn', None) = (if cn' = cn then Some (Some s, Some cn', res) else None)"
| "request_opened cn res _ = None"

fun handle_step :: "open_handles \<Rightarrow> winhttp_call \<Rightarrow> open_handles option" where
  "handle_step hs (WOpen s) = (if hs = (None, None, None) then Some (Some s, None, None) else None)"
| "handle_step hs (WTimeouts s) = (if hs = (Some s, None, None) then Some hs else None)"
| "handle_step hs (WConnect s host port res) = (if hs = (Some s, None, None) then Some (Some s, res, None) else None)"
| "handle_step hs (WOpenRequest cn path secure res) = request_opened cn res hs"
| "handle_step hs (WAddHeader r line) = request_used r hs"
| "handle_step hs (WSend r) = request_used r hs"
| "handle_step hs (WReceive r) = request_used r hs"
| "handle_step hs (WQueryStatus r) = request_used r hs"
| "handle_step hs (WTimeout r) = request_used r hs"
| "handle_step hs (WQueryData r) = request_used r hs"
| "handle_step hs (WRead r) = request_used r hs"
| "handle_step hs (WClose h) = handle_closed h hs"

fun handle_proto :: "open_handles \<Rightarrow> winhttp_call list \<Rightarrow> open_handles option" where
  "handle_proto hs [] = Some hs"
| "handle_proto hs (k # ks) =
     (case handle_step hs k of None \<Rightarrow> None | Some hs1 \<Rightarrow> handle_proto hs1 ks)"

lemma handle_proto_append:
  "handle_proto hs (ks @ ls) =
     (case handle_proto hs ks of None \<Rightarrow> None | Some hs1 \<Rightarrow> handle_proto hs1 ls)"
  by (induction ks arbitrary: hs) (auto split: option.split)

text \<open>The calls that open or close a handle.\<close>

fun moves_handle :: "winhttp_call \<Rightarrow> bool" where
  "moves_handle (WOpen s) = True"
| "moves_handle (WConnect s host port res) = (res \<noteq> None)"
| "moves_handle (WOpenRequest cn path secure res) = (res \<noteq> None)"
| "moves_handle (WClose h) = True"
| "moves_handle _ = False"

text \<open>
  The fields hold exactly what the log says is open; when the discipline is not strict, only the calls that
  open or close count.
\<close>

definition heeded :: "bool \<Rightarrow> winhttp_call \<Rightarrow> bool" where
  "heeded strict k \<longleftrightarrow> strict \<or> moves_handle k"

definition tracked :: "bool \<Rightarrow> SSEWinHTTPConnection \<Rightarrow> open_handles \<Rightarrow> bool" where
  "tracked strict d hs \<longleftrightarrow> handle_proto (None, None, None) (filter (heeded strict) (wh_Calls d)) = Some hs
     \<and> (wh_Session d, wh_Connect d, wh_Request d) = hs"

definition nested :: "open_handles \<Rightarrow> bool" where
  "nested hs \<longleftrightarrow> hs = (None, None, None) \<or> (\<exists>s. hs = (Some s, None, None))
     \<or> (\<exists>s cn. hs = (Some s, Some cn, None)) \<or> (\<exists>s cn r. hs = (Some s, Some cn, Some r))"

lemma nested_open [simp]:
  "nested (None, None, None)" "nested (Some s, None, None)" "nested (Some s, Some cn, None)"
  "nested (Some s, Some cn, Some r)"
  by (simp_all add: nested_def)

text \<open>What is still open may have been taken and closed by the shutdown, when that is allowed.\<close>

definition held :: "bool \<Rightarrow> open_handles \<Rightarrow> SSEWinHTTPConnection \<Rightarrow> bool" where
  "held strict hs d \<longleftrightarrow> nested hs \<and> (tracked strict d hs \<or> \<not> strict \<and> tracked strict d (None, None, None))"

lemma tracked_irrelevant [simp]:
  "tracked strict (d\<lparr>dk_Status := st\<rparr>) hs = tracked strict d hs"
  "tracked strict (d\<lparr>dk_Opened := b\<rparr>) hs = tracked strict d hs"
  "tracked strict (SSEWinHTTP_Reset d) hs = tracked strict d hs"
  "tracked strict (SSEDesktop_MarkFinished d) hs = tracked strict d hs"
  by (simp_all add: tracked_def SSEWinHTTP_Reset_def SSEDesktop_MarkFinished_def)

lemma held_irrelevant [simp]:
  "held strict hs (d\<lparr>dk_Status := st\<rparr>) = held strict hs d" "held strict hs (d\<lparr>dk_Opened := b\<rparr>) = held strict hs d"
  by (simp_all add: held_def)

lemma tracked_open:
  "tracked strict d (None, None, None) \<Longrightarrow>
     tracked strict (SSEWinHTTP_SetHandles (Some s) None None (wh_log [WOpen s] d)) (Some s, None, None)"
  "tracked strict d (Some s, None, None) \<Longrightarrow>
     tracked strict (SSEWinHTTP_SetHandles (Some s) (Some cn) None (wh_log [WConnect s host port (Some cn)] d)) (Some s, Some cn, None)"
  "tracked strict d (Some s, Some cn, None) \<Longrightarrow>
     tracked strict (SSEWinHTTP_SetHandles (Some s) (Some cn) (Some r) (wh_log [WOpenRequest cn path secure (Some r)] d))
       (Some s, Some cn, Some r)"
  by (simp_all add: tracked_def wh_log_def SSEWinHTTP_SetHandles_def handle_proto_append heeded_def)

text \<open>Closing what is open leaves nothing open.\<close>

lemma tracked_close:
  assumes "tracked strict d hs" and "nested hs"
  shows "tracked strict (SSEWinHTTP_CloseActiveHandles d) (None, None, None)"
  using assms
  by (auto simp: tracked_def nested_def SSEWinHTTP_CloseActiveHandles_def SSEWinHTTP_TakeHandles_def
      SSEWinHTTP_CloseHandles_def SSEWinHTTP_SetHandles_def wh_log_def close_handle_def handle_proto_append heeded_def)

lemma held_close: "held strict hs d \<Longrightarrow> tracked strict (SSEWinHTTP_CloseActiveHandles d) (None, None, None)"
  unfolding held_def using tracked_close nested_open(1) by blast

lemma held_abort: "held strict hs d \<Longrightarrow> (strict \<Longrightarrow> \<not> b) \<Longrightarrow> held strict hs (aborted b d)"
  using held_close [of strict hs d] by (auto simp: aborted_def held_def)

lemma held_over: "held strict hs d \<Longrightarrow> tracked strict (SSEWinHTTP_CloseActiveHandles (aborted b d)) (None, None, None)"
  using held_close [of strict hs d] held_close [of strict "(None, None, None)" "SSEWinHTTP_CloseActiveHandles d"]
  by (auto simp: aborted_def held_def)

lemma held_use:
  assumes "held strict hs d" and "handle_step hs k = Some hs" and "\<not> moves_handle k" and "strict \<Longrightarrow> \<not> b"
  shows "held strict hs (aborted b (wh_log [k] d))"
proof -
  have "held strict hs (wh_log [k] d)"
    using assms(1-3) by (auto simp: held_def tracked_def wh_log_def handle_proto_append heeded_def)
  from held_abort [OF this] assms(4) show ?thesis by blast
qed

lemma held_open: "tracked strict d hs \<Longrightarrow> nested hs \<Longrightarrow> held strict hs d"
  by (simp add: held_def)

section \<open>The handles in an attempt\<close>

lemma tracked_more:
  assumes "desktop.more d1 = desktop.more d"
  shows "tracked strict d1 hs = tracked strict d hs"
proof -
  have "wh_Session d1 = wh_Session d \<and> wh_Connect d1 = wh_Connect d \<and> wh_Request d1 = wh_Request d
      \<and> wh_Calls d1 = wh_Calls d"
    using assms by (cases d; cases d1) simp
  then show ?thesis by (simp add: tracked_def)
qed

lemma FeedParser_held: "held strict hs (fst (FeedParser api bytes c)) = held strict hs (fst c)"
proof -
  have "desktop.more (fst (FeedParser api bytes c)) = desktop.more (fst c)"
    using FeedParser_frame(8) [of api bytes "fst c" "snd c" "fst (FeedParser api bytes c)" "snd (FeedParser api bytes c)"] by simp
  from tracked_more [OF this] show ?thesis by (simp add: held_def)
qed

text \<open>
  An attempt that the shutdown leaves alone; and one whose \<open>WinHttpConnect\<close> fails when the shutdown closes the handles after
  the session was stored and before the connection is, and whose \<open>WinHttpOpenRequest\<close> fails when it
  closes them after that and before the request is stored. WinHTTP itself refuses a call on a closed handle, so this leaves out just
  the close while one of the two calls is on its way.
\<close>

definition turn_alone :: "stream_turn \<Rightarrow> bool" where
  "turn_alone t \<longleftrightarrow> \<not> st_Abort t \<and> list_all (\<lambda>(stop, delivered, ab). \<not> ab) (st_Reads t)"

definition left_alone :: "winhttp_attempt \<Rightarrow> bool" where
  "left_alone a \<longleftrightarrow> (\<forall>p. \<not> wa_Abort a p) \<and> list_all turn_alone (wa_Body a)"

definition spares_opening :: "winhttp_attempt \<Rightarrow> bool" where
  "spares_opening a \<longleftrightarrow>
     (wa_Connect a \<noteq> None \<longrightarrow> \<not> wa_Abort a At_Session \<and> \<not> wa_Abort a At_Timeouts \<and> \<not> wa_Abort a In_Connect)
     \<and> (wa_Request a \<noteq> None \<longrightarrow> \<not> wa_Abort a At_Connection \<and> \<not> wa_Abort a In_OpenRequest)"

definition spared :: "bool \<Rightarrow> winhttp_attempt \<Rightarrow> bool" where
  "spared strict a \<longleftrightarrow> (if strict then left_alone a else spares_opening a)"

lemma spared_alone: "spared strict a \<Longrightarrow> strict \<Longrightarrow> \<not> wa_Abort a p"
  by (simp add: spared_def left_alone_def)

lemma spared_body: "spared strict a \<Longrightarrow> strict \<Longrightarrow> list_all turn_alone (wa_Body a)"
  by (simp add: spared_def left_alone_def)

lemma spared_opening: "spared strict a \<Longrightarrow> spares_opening a"
  by (auto simp: spared_def left_alone_def spares_opening_def split: if_splits)

text \<open>An exchange only uses the request.\<close>

lemma ReadAvailable_held:
  "held strict (Some s, Some cn, Some r) (fst c) \<Longrightarrow> (strict \<Longrightarrow> list_all (\<lambda>(stop, delivered, ab). \<not> ab) rs) \<Longrightarrow>
   held strict (Some s, Some cn, Some r) (fst (reached (ReadAvailable api r available rs c)))"
proof (induction rs arbitrary: available c)
  case (Cons t rs)
  obtain stop delivered ab where t: "t = (stop, delivered, ab)" by (cases t)
  obtain d e where c: "c = (d, e)" by fastforce
  have "held strict (Some s, Some cn, Some r) (aborted ab (wh_log [WRead r] d))"
    using Cons.prems t c by (intro held_use) auto
  then show ?case
    using Cons t c by (auto simp: Let_def FeedParser_held split: option.split)
qed simp

lemma ReadStream_held:
  "held strict (Some s, Some cn, Some r) (fst c) \<Longrightarrow> (strict \<Longrightarrow> list_all turn_alone ts) \<Longrightarrow>
   held strict (Some s, Some cn, Some r) (fst (reached (SSEWinHTTP_ReadStream api n r ts c)))"
proof (induction ts arbitrary: c)
  case (Cons t ts)
  obtain d e where c: "c = (d, e)" by fastforce
  let ?c = "(aborted (st_Abort t) (wh_log [WQueryData r] d), e)"
  have Q: "held strict (Some s, Some cn, Some r) (fst ?c)"
    using Cons.prems c by (auto intro!: held_use simp: turn_alone_def)
  have "strict \<Longrightarrow> list_all (\<lambda>(stop, delivered, ab). \<not> ab) (st_Reads t)" using Cons.prems(2) by (simp add: turn_alone_def)
  note A = ReadAvailable_held [OF Q this, of api "the (st_Available t)"]
  show ?case
    using Cons.prems Cons.IH A Q c
    by (cases "ReadAvailable api r (the (st_Available t)) (st_Reads t) ?c") (auto simp: Let_def split: option.split read_end.split)
qed simp

lemma AddHeaders_held:
  "held strict (Some s, Some cn, Some r) d \<Longrightarrow> (\<And>j. strict \<Longrightarrow> \<not> ab j) \<Longrightarrow>
   held strict (Some s, Some cn, Some r) (snd (AddHeaders n ab i r hs d))"
proof (induction n ab i r hs d rule: AddHeaders.induct)
  case (2 n ab i r nm v hs d)
  obtain err d1 where 1: "SSEWinHTTP_AddHeader n r nm v d = (err, d1)" by fastforce
  then have "d1 = d \<or> (\<exists>w. d1 = wh_log [WAddHeader r w] d)"
    by (auto simp: SSEWinHTTP_AddHeader_def split: option.splits if_splits)
  then have "held strict (Some s, Some cn, Some r) (aborted (ab i) d1)"
    using 2(2,3) by (auto intro: held_use held_abort)
  with 1 2 show ?case by (cases err) simp_all
qed simp

text \<open>At every moment of an attempt the fields are right; when it is over, nothing is open.\<close>

definition tidy :: "bool \<Rightarrow> (string option, SSEWinHTTPConnection \<times> 'e) progress \<Rightarrow> bool" where
  "tidy strict p \<longleftrightarrow> (case p of Running c \<Rightarrow> \<exists>hs. tracked strict (fst c) hs
     | Finished _ c \<Rightarrow> tracked strict (fst c) (None, None, None))"

lemma tidy_simps [simp]:
  "tidy strict (Running c) = (\<exists>hs. tracked strict (fst c) hs)"
  "tidy strict (Finished err c) = tracked strict (fst c) (None, None, None)"
  by (simp_all add: tidy_def)

lemma held_running: "held strict hs d \<Longrightarrow> \<exists>hs. tracked strict d hs"
  unfolding held_def by blast

abbreviation held_all :: "bool \<Rightarrow> nat \<Rightarrow> nat \<Rightarrow> nat \<Rightarrow> SSEWinHTTPConnection \<Rightarrow> bool" where
  "held_all strict s cn r d \<equiv> held strict (Some s, Some cn, Some r) d"

lemma over_tidy: "held strict hs d \<Longrightarrow> tidy strict (exchange_over a err (d, e))"
  by (simp add: held_over)

lemma Response_tidy:
  assumes "held_all strict s cn r d" and ok: "spared strict a"
  shows "tidy strict (WinHTTP_Response api a r (d, e))"
proof -
  define d1 where "d1 = aborted (wa_Abort a At_Status) (wh_log [WQueryStatus r] d)"
  define d2 where "d2 = (case wa_Status a of None \<Rightarrow> d1 | Some status \<Rightarrow> d1\<lparr>dk_Status := to_int32 status\<rparr>)"
  define d3 where "d3 = aborted (wa_Abort a At_Timeout) (wh_log [WTimeout r] d2)"
  define c4 where "c4 = (d3\<lparr>dk_Opened := True\<rparr>, api_EnqueueOpen api (dk_Handle d3) (dk_Status d3) e)"
  have "held_all strict s cn r d1" unfolding d1_def by (rule held_use [OF assms(1)]) (simp_all add: spared_alone [OF ok])
  then have 2: "held_all strict s cn r d2" by (auto simp: d2_def split: option.split)
  then have "held_all strict s cn r d3" unfolding d3_def by (rule held_use) (simp_all add: spared_alone [OF ok])
  then have "held_all strict s cn r (fst c4)" by (simp add: c4_def)
  note R = ReadStream_held [OF this spared_body [OF ok], of api "wa_Windows a"]
  have eq: "WinHTTP_Response api a r (d, e) =
      (if dk_Status d2 < 200 \<or> dk_Status d2 \<ge> 300 then exchange_over a (Some (status_error (dk_Status d2))) (d2, e)
       else case SSEWinHTTP_ReadStream api (wa_Windows a) r (wa_Body a) c4 of
           Running c1 \<Rightarrow> Running c1
         | Finished err (d4, e4) \<Rightarrow> exchange_over a (if wa_StopEnd a then None else err) (d4, e4))"
    by (simp add: WinHTTP_Response_def Let_def d1_def [symmetric] d2_def [symmetric] d3_def [symmetric] c4_def [symmetric])
  show ?thesis
  proof (cases "SSEWinHTTP_ReadStream api (wa_Windows a) r (wa_Body a) c4")
    case (Running c1)
    with R held_running [of strict] over_tidy [OF 2] show ?thesis unfolding eq by simp
  next
    case (Finished err c1)
    obtain d4 e4 where c1: "c1 = (d4, e4)" by fastforce
    with R Finished have "held_all strict s cn r d4" by simp
    with Finished c1 over_tidy [OF 2] show ?thesis unfolding eq by (simp add: held_over)
  qed
qed

lemma Exchange_tidy:
  assumes "held_all strict s cn r d" and ok: "spared strict a"
  shows "tidy strict (WinHTTP_Exchange api a r (d, e))"
proof -
  obtain err d1 where A: "AddHeaders (wa_Windows a) (\<lambda>i. wa_Abort a (At_Header i)) 0 r (request_headers d) d = (err, d1)"
    by fastforce
  with AddHeaders_held [OF assms(1), of "\<lambda>i. wa_Abort a (At_Header i)" "wa_Windows a" 0 "request_headers d"] spared_alone [OF ok]
  have 1: "held_all strict s cn r d1" by simp
  define d2 where "d2 = aborted (wa_Abort a At_Send) (wh_log [WSend r] d1)"
  define d3 where "d3 = aborted (wa_Abort a At_Receive) (wh_log [WReceive r] d2)"
  have 2: "held_all strict s cn r d2" unfolding d2_def by (rule held_use [OF 1]) (simp_all add: spared_alone [OF ok])
  then have 3: "held_all strict s cn r d3" unfolding d3_def by (rule held_use) (simp_all add: spared_alone [OF ok])
  show ?thesis
    using A 1 2 3 held_over held_running [OF 2] held_running [OF 3] Response_tidy [OF 3 ok]
    by (auto simp: WinHTTP_Exchange_def Let_def d2_def [symmetric] d3_def [symmetric] split: option.split bool.split)
qed

lemma Request_tidy:
  assumes held: "held strict (Some s, Some cn, None) d" and ok: "spared strict a"
    and opened: "wa_Request a \<noteq> None \<Longrightarrow> tracked strict d (Some s, Some cn, None)"
  shows "tidy strict (WinHTTP_Request api a url s cn (d, e))"
proof (cases "wa_Request a")
  case None
  have "held strict (Some s, Some cn, None)
      (aborted (wa_Abort a In_OpenRequest) (wh_log [WOpenRequest cn (wu_Path url) (wu_Secure url) None] d))"
    by (rule held_use [OF held]) (simp_all add: spared_alone [OF ok])
  with None show ?thesis by (simp add: WinHTTP_Request_def held_close)
next
  case (Some r)
  let ?d = "SSEWinHTTP_SetHandles (Some s) (Some cn) (Some r) (wh_log [WOpenRequest cn (wu_Path url) (wu_Secure url) (Some r)] d)"
  have "\<not> wa_Abort a In_OpenRequest" using spared_opening [OF ok] Some by (simp add: spares_opening_def)
  moreover have "tracked strict ?d (Some s, Some cn, Some r)" using opened Some by (intro tracked_open) simp
  then have "held_all strict s cn r (aborted (wa_Abort a At_Request) ?d)"
    by (intro held_abort held_open) (simp_all add: spared_alone [OF ok])
  ultimately show ?thesis
    using Some ok by (simp add: WinHTTP_Request_def Let_def aborted_def [of False] held_close Exchange_tidy)
qed

lemma Connect_tidy:
  assumes held: "held strict (Some s, None, None) d" and ok: "spared strict a"
    and opened: "wa_Connect a \<noteq> None \<Longrightarrow> tracked strict d (Some s, None, None)"
  shows "tidy strict (WinHTTP_Connect api a url s (d, e))"
proof (cases "wa_Connect a")
  case None
  have "held strict (Some s, None, None)
      (aborted (wa_Abort a In_Connect) (wh_log [WConnect s (wu_Host url) (wu_Port url) None] d))"
    by (rule held_use [OF held]) (simp_all add: spared_alone [OF ok])
  with None show ?thesis by (simp add: WinHTTP_Connect_def held_close)
next
  case (Some cn)
  let ?d = "SSEWinHTTP_SetHandles (Some s) (Some cn) None (wh_log [WConnect s (wu_Host url) (wu_Port url) (Some cn)] d)"
  have a: "\<not> wa_Abort a In_Connect" using spared_opening [OF ok] Some by (simp add: spares_opening_def)
  have t: "tracked strict ?d (Some s, Some cn, None)" using opened Some by (intro tracked_open) simp
  then have h: "held strict (Some s, Some cn, None) (aborted (wa_Abort a At_Connection) ?d)"
    by (intro held_abort held_open) (simp_all add: spared_alone [OF ok])
  have "tracked strict (aborted (wa_Abort a At_Connection) ?d) (Some s, Some cn, None)" if "wa_Request a \<noteq> None"
    using t that spared_opening [OF ok] by (simp add: spares_opening_def aborted_def)
  from Request_tidy [OF h ok this, of api url e] h a Some show ?thesis
    by (simp add: WinHTTP_Connect_def Let_def aborted_def [of False] held_close)
qed

lemma WinHTTP_tidy:
  assumes ok: "spared strict a" and "tracked strict (fst c) (None, None, None)"
  shows "tidy strict (SSEWinHTTP_PerformOnce api a c)"
proof -
  obtain d e where c: "c = (d, e)" by fastforce
  have connect: "tidy strict (if wa_Stop1 a then close_with None (d2, e) else WinHTTP_Connect api a url s (d2, e))"
    if d2: "d2 = aborted (wa_Abort a At_Timeouts) (wh_log [WTimeouts s]
      (aborted (wa_Abort a At_Session) (SSEWinHTTP_SetHandles (Some s) None None (wh_log [WOpen s] (SSEWinHTTP_Reset d)))))"
    for d2 s url
  proof -
    let ?d = "SSEWinHTTP_SetHandles (Some s) None None (wh_log [WOpen s] (SSEWinHTTP_Reset d))"
    have t: "tracked strict ?d (Some s, None, None)" using assms(2) c by (intro tracked_open) simp
    then have h1: "held strict (Some s, None, None) (aborted (wa_Abort a At_Session) ?d)"
      by (intro held_abort held_open) (simp_all add: spared_alone [OF ok])
    then have h: "held strict (Some s, None, None) d2"
      unfolding d2 by (rule held_use) (simp_all add: spared_alone [OF ok])
    have "tracked strict d2 (Some s, None, None)" if "wa_Connect a \<noteq> None"
      using t that spared_opening [OF ok] unfolding d2
      by (simp add: spares_opening_def aborted_def tracked_def wh_log_def handle_proto_append heeded_def)
    from Connect_tidy [OF h ok this, of api url e] h show ?thesis by (simp add: held_close)
  qed
  show ?thesis
    using assms(2) connect by (auto simp: SSEWinHTTP_PerformOnce_def c Let_def split: sum.split option.split)
qed

text \<open>What is to be shown of a worker: the log so far, and the log when it has returned.\<close>

definition closed_once :: "(winhttp_call \<Rightarrow> bool) \<Rightarrow> (unit, SSEWinHTTPConnection \<times> 'e) progress \<Rightarrow> bool" where
  "closed_once f p \<longleftrightarrow> (case p of
      Running c \<Rightarrow> \<exists>hs. handle_proto (None, None, None) (filter f (wh_Calls (fst c))) = Some hs
    | Finished _ c \<Rightarrow> handle_proto (None, None, None) (filter f (wh_Calls (fst c))) = Some (None, None, None))"

lemma Worker_closed_once:
  assumes "tracked strict d (None, None, None)" and "list_all (\<lambda>t. spared strict (wt_Attempt t)) turns"
  shows "closed_once (heeded strict) (SSEWinHTTP_Worker api turns (d, e))"
proof -
  have "case SSEDesktop_Worker (SSEWinHTTP_PerformOnce api) api turns 0 (d, e) of
      Running c \<Rightarrow> \<exists>hs. tracked strict (fst c) hs | Finished _ c \<Rightarrow> tracked strict (fst c) (None, None, None)"
  proof (rule Worker_invariant [where P = "\<lambda>d. tracked strict d (None, None, None)"])
    fix a :: winhttp_attempt and c :: "SSEWinHTTPConnection \<times> 'a"
    assume "spared strict a" "tracked strict (fst c) (None, None, None)"
    then have "tidy strict (SSEWinHTTP_PerformOnce api a c)" by (rule WinHTTP_tidy)
    then show "case SSEWinHTTP_PerformOnce api a c of
        Running c1 \<Rightarrow> \<exists>hs. tracked strict (fst c1) hs | Finished _ c1 \<Rightarrow> tracked strict (fst c1) (None, None, None)"
      by (simp add: tidy_def)
  qed (use assms in auto)
  then show ?thesis by (auto simp: SSEWinHTTP_Worker_def closed_once_def tracked_def split: progress.splits)
qed

text \<open>
  C21. The handles of a WinHTTP worker, over any number of attempts, whatever Windows answers and whenever the worker is told to
  stop. When the shutdown leaves it alone, every session, connection and request is used by every call only while it is
  open and closed exactly once, and none is open when the worker has returned. When the shutdown closes the handles at
  any moment, or at several, except while \<open>WinHttpConnect\<close> or \<open>WinHttpOpenRequest\<close> is opening one, every handle is still closed
  exactly once; only calls other than a close may then find it closed.
\<close>
theorem winhttp_handles_closed_once:
  assumes "wh_Session d = None" and "wh_Connect d = None" and "wh_Request d = None" and "wh_Calls d = []"
  shows "(list_all (\<lambda>t. left_alone (wt_Attempt t)) turns
      \<longrightarrow> closed_once (\<lambda>k. True) (SSEWinHTTP_Worker api turns (d, e)))
    \<and> (list_all (\<lambda>t. spares_opening (wt_Attempt t)) turns
      \<longrightarrow> closed_once moves_handle (SSEWinHTTP_Worker api turns (d, e)))"
proof -
  have t: "tracked strict d (None, None, None)" for strict using assms by (simp add: tracked_def)
  have "heeded True = (\<lambda>k. True)" "heeded False = moves_handle" by (simp_all add: heeded_def fun_eq_iff)
  with Worker_closed_once [OF t [of True], of turns api e] Worker_closed_once [OF t [of False], of turns api e]
  show ?thesis by (simp add: spared_def)
qed

end
