(* ===== verification/WinHttpResponse.thy ===== *)
theory WinHttpResponse
  imports WinHttpProps
begin

text \<open>
  What a WinHTTP attempt does with a response: the calls it makes in order, the effect of a
  successful response however its body is cut, the silence of an error response, and the
  double close and the use after close that the shutdown can cause.
\<close>

section \<open>The log and the parser\<close>

text \<open>The log of the calls has no influence on what the parser reports.\<close>

definition logs :: "winhttp_call list \<Rightarrow> SSEWinHTTPConnection \<times> 'e \<Rightarrow> SSEWinHTTPConnection \<times> 'e" where
  "logs ks c = (wh_log ks (fst c), snd c)"

lemma wh_log_Nil [simp]: "wh_log [] d = d"
  by (simp add: wh_log_def)

lemma wh_log_log [simp]: "wh_log ks (wh_log ls d) = wh_log (ls @ ks) d"
  by (simp add: wh_log_def)

lemma wh_log_member [simp]:
  "dk_Handle (wh_log ks d) = dk_Handle d" "dk_Reconnect (wh_log ks d) = dk_Reconnect d" "dk_RetryMS (wh_log ks d) = dk_RetryMS d"
  "dk_Parser (wh_log ks d) = dk_Parser d" "dk_Status (wh_log ks d) = dk_Status d"
  "(wh_log ks d)\<lparr>dk_LastEventId := i\<rparr> = wh_log ks (d\<lparr>dk_LastEventId := i\<rparr>)"
  "(wh_log ks d)\<lparr>dk_RetryMS := n\<rparr> = wh_log ks (d\<lparr>dk_RetryMS := n\<rparr>)"
  "(wh_log ks d)\<lparr>dk_Parser := p\<rparr> = wh_log ks (d\<lparr>dk_Parser := p\<rparr>)"
  "(wh_log ks d)\<lparr>dk_Status := st\<rparr> = wh_log ks (d\<lparr>dk_Status := st\<rparr>)"
  "(wh_log ks d)\<lparr>dk_Opened := b\<rparr> = wh_log ks (d\<lparr>dk_Opened := b\<rparr>)"
  by (simp_all add: wh_log_def)

lemma logs_simps [simp]: "logs [] c = c" "logs ks (logs ls c) = logs (ls @ ks) c" "logs ks (d, e) = (wh_log ks d, e)"
  by (simp_all add: logs_def)

lemma with_handle_logs: "with_handle k False c = logs [k] c"
  by (cases c) (simp add: aborted_def)

interpretation logged: parser_pair "desktop_callbacks api" "desktop_callbacks api" "\<lambda>c c'. c' = logs ks c" for api ks
  by unfold_locales (auto simp: desktop_on logs_def split: prod.splits option.splits if_splits)

lemma FeedParser_logs: "FeedParser api bytes (logs ks c) = logs ks (FeedParser api bytes c)"
proof -
  obtain d e where c: "c = (d, e)" by fastforce
  obtain p c1 p' c1' where F: "Feed (Some (desktop_callbacks api)) bytes (dk_Parser d, c) = (p, c1)"
    "Feed (Some (desktop_callbacks api)) bytes (dk_Parser d, logs ks c) = (p', c1')" by (metis surj_pair)
  from logged.Feed_pair [OF refl F] F c show ?thesis
    by (cases c1) (simp add: FeedParser_def)
qed

lemma FeedParser_handles:
  "wh_Session (fst (FeedParser api bytes c)) = wh_Session (fst c)" "wh_Connect (fst (FeedParser api bytes c)) = wh_Connect (fst c)"
  "wh_Request (fst (FeedParser api bytes c)) = wh_Request (fst c)" "wh_Calls (fst (FeedParser api bytes c)) = wh_Calls (fst c)"
proof -
  have "desktop.more (fst (FeedParser api bytes c)) = desktop.more (fst c)"
    using FeedParser_frame(8) [of api bytes "fst c" "snd c" "fst (FeedParser api bytes c)" "snd (FeedParser api bytes c)"] by simp
  then show "wh_Session (fst (FeedParser api bytes c)) = wh_Session (fst c)" "wh_Connect (fst (FeedParser api bytes c)) = wh_Connect (fst c)"
    "wh_Request (fst (FeedParser api bytes c)) = wh_Request (fst c)" "wh_Calls (fst (FeedParser api bytes c)) = wh_Calls (fst c)"
    by (cases "fst (FeedParser api bytes c)"; cases "fst c"; simp)+
qed

section \<open>The body in pieces\<close>

fun quiet_read :: "bool \<times> string option \<times> bool \<Rightarrow> bool" where
  "quiet_read (stop, delivered, ab) = (\<not> stop \<and> \<not> ab \<and> (case delivered of None \<Rightarrow> False | Some data \<Rightarrow> data \<noteq> []))"

fun read_data :: "bool \<times> string option \<times> bool \<Rightarrow> string" where
  "read_data (stop, delivered, ab) = (case delivered of None \<Rightarrow> [] | Some data \<Rightarrow> data)"

definition turn_data :: "stream_turn \<Rightarrow> string" where
  "turn_data t = concat (map read_data (st_Reads t))"

text \<open>A turn in which exactly what was announced is read, in any pieces; the turn that ends the body.\<close>

definition quiet_turn :: "stream_turn \<Rightarrow> bool" where
  "quiet_turn t \<longleftrightarrow> \<not> st_Stop t \<and> \<not> st_Abort t \<and> list_all quiet_read (st_Reads t) \<and> turn_data t \<noteq> []
     \<and> length (turn_data t) < 4294967296 \<and> st_Available t = Some (length (turn_data t))"

definition end_turn :: "stream_turn \<Rightarrow> bool" where
  "end_turn t \<longleftrightarrow> \<not> st_Stop t \<and> \<not> st_Abort t \<and> st_Available t = Some 0"

text \<open>The calls that read a body.\<close>

definition turn_calls :: "nat \<Rightarrow> stream_turn \<Rightarrow> winhttp_call list" where
  "turn_calls r t = WQueryData r # replicate (length (st_Reads t)) (WRead r)"

definition body_calls :: "nat \<Rightarrow> stream_turn list \<Rightarrow> winhttp_call list" where
  "body_calls r ts = concat (map (turn_calls r) ts) @ [WQueryData r]"

lemma ReadAvailable_all:
  "list_all quiet_read rs \<Longrightarrow> available = length (concat (map read_data rs)) \<Longrightarrow> available < 4294967296 \<Longrightarrow>
   ReadAvailable api r available rs c =
     Finished QueryAgain (logs (replicate (length rs) (WRead r)) (FeedParser api (concat (map read_data rs)) c))"
proof (induction rs arbitrary: available c)
  case Nil
  then show ?case by simp
next
  case (Cons t rs)
  then obtain data where t: "t = (False, Some data, False)" "data \<noteq> []"
    by (cases t) (auto split: option.splits)
  let ?rest = "concat (map read_data rs)"
  have "(available + 4294967296 - length data) mod 4294967296 = length ?rest"
    using Cons.prems t by simp
  with Cons t show ?case by (simp add: FeedParser_append with_handle_logs FeedParser_logs Let_def)
qed

lemma ReadStream_all:
  "list_all quiet_turn ts \<Longrightarrow> end_turn t \<Longrightarrow>
   SSEWinHTTP_ReadStream api n r (ts @ [t]) c =
     Finished None (logs (body_calls r ts) (FeedParser api (concat (map turn_data ts)) c))"
proof (induction ts arbitrary: c)
  case Nil
  then show ?case by (simp add: end_turn_def body_calls_def with_handle_logs)
next
  case (Cons s ts)
  from Cons.prems have s: "quiet_turn s" by simp
  then have "ReadAvailable api r (length (turn_data s)) (st_Reads s) c =
      Finished QueryAgain (logs (replicate (length (st_Reads s)) (WRead r)) (FeedParser api (turn_data s) c))" for c
    unfolding quiet_turn_def turn_data_def by (intro ReadAvailable_all) simp_all
  with s Cons show ?case
    by (simp add: quiet_turn_def FeedParser_append with_handle_logs FeedParser_logs Let_def body_calls_def turn_calls_def)
qed

section \<open>The requests\<close>

text \<open>Windows that converts every string and accepts every header.\<close>

definition obliging :: "windows \<Rightarrow> bool" where
  "obliging n \<longleftrightarrow> (\<forall>v. wn_Wide n v \<noteq> None) \<and> (\<forall>w. wn_AddHeader n w)"

fun header_line :: "windows \<Rightarrow> string option \<times> string option \<Rightarrow> wide list" where
  "header_line n (Some a, Some b) = [the (wn_Wide n (c_str a @ '': '' @ c_str b))]"
| "header_line n _ = []"

lemma AddHeaders_obliging:
  assumes "obliging n" and "\<And>j. \<not> ab j"
  shows "AddHeaders n ab i r hs d = (None, wh_log (map (WAddHeader r) (concat (map (header_line n) hs))) d)"
proof (induction hs arbitrary: i d)
  case (Cons h hs)
  obtain nm v where h: "h = (nm, v)" by fastforce
  have "SSEWinHTTP_AddHeader n r nm v d = (None, wh_log (map (WAddHeader r) (header_line n h)) d)"
  proof (cases "nm = None \<or> v = None")
    case True
    then show ?thesis using h by (auto simp: SSEWinHTTP_AddHeader_def split: option.split)
  next
    case False
    then obtain a b where ab: "nm = Some a" "v = Some b" by auto
    obtain w where "wn_Wide n (c_str a @ '': '' @ c_str b) = Some w" using assms(1) by (auto simp: obliging_def)
    moreover have "c_str (c_str a @ '': '' @ c_str b) = c_str a @ '': '' @ c_str b"
      by (rule c_str_no_nul) simp
    ultimately show ?thesis
      using assms h ab by (simp add: SSEWinHTTP_AddHeader_def SSEWinHTTP_ToWide_def obliging_def)
  qed
  with Cons h assms(2) show ?case by (simp add: aborted_def)
qed simp

text \<open>An attempt that nothing disturbs before the response, and that the shutdown leaves alone.\<close>

definition undisturbed :: "winhttp_attempt \<Rightarrow> bool" where
  "undisturbed a \<longleftrightarrow> obliging (wa_Windows a) \<and> \<not> wa_Stop1 a \<and> \<not> wa_Stop2 a \<and> \<not> wa_Stop3 a
     \<and> (\<forall>p. \<not> wa_Abort a p) \<and> wa_Send a = Some True \<and> wa_Receive a = Some True"

definition request_calls ::
  "windows \<Rightarrow> SSEWinHTTPUrl \<Rightarrow> nat \<Rightarrow> nat \<Rightarrow> nat \<Rightarrow> 'a desktop_scheme \<Rightarrow> winhttp_call list" where
  "request_calls n url s cn r d =
     [WOpen s, WTimeouts s, WConnect s (wu_Host url) (wu_Port url) (Some cn),
      WOpenRequest cn (wu_Path url) (wu_Secure url) (Some r)]
     @ map (WAddHeader r) (concat (map (header_line n) (request_headers d))) @ [WSend r, WReceive r]"

lemma request_headers_Reset [simp]:
  "request_headers (wh_log ks d) = request_headers d"
  "request_headers (SSEWinHTTP_SetHandles s c r d) = request_headers d"
  "request_headers (SSEWinHTTP_Reset d) = request_headers d"
  by (simp_all add: request_headers_def wh_log_def SSEWinHTTP_SetHandles_def SSEWinHTTP_Reset_def)

definition after_request ::
  "winhttp_attempt \<Rightarrow> SSEWinHTTPUrl \<Rightarrow> nat \<Rightarrow> nat \<Rightarrow> nat \<Rightarrow> SSEWinHTTPConnection \<Rightarrow> SSEWinHTTPConnection" where
  "after_request a url s cn r d = SSEWinHTTP_SetHandles (Some s) (Some cn) (Some r)
     (wh_log (request_calls (wa_Windows a) url s cn r d) (SSEWinHTTP_Reset d))"

lemma PerformOnce_undisturbed:
  assumes "undisturbed a" and "SSEWinHTTP_ParseUrl (wa_Windows a) (dk_Url d) = Inr url"
    and "wa_Session a = Some s" and "wa_Connect a = Some cn" and "wa_Request a = Some r"
  shows "SSEWinHTTP_PerformOnce api a (d, e) = WinHTTP_Response api a r (after_request a url s cn r d, e)"
proof -
  let ?d = "SSEWinHTTP_SetHandles (Some s) (Some cn) (Some r) (wh_log [WOpen s, WTimeouts s,
    WConnect s (wu_Host url) (wu_Port url) (Some cn), WOpenRequest cn (wu_Path url) (wu_Secure url) (Some r)] (SSEWinHTTP_Reset d))"
  have log_set: "wh_log ks (SSEWinHTTP_SetHandles x y z d1) = SSEWinHTTP_SetHandles x y z (wh_log ks d1)" for ks x y z d1
    by (simp add: wh_log_def SSEWinHTTP_SetHandles_def)
  have set_set: "SSEWinHTTP_SetHandles x y z (SSEWinHTTP_SetHandles x1 y1 z1 d1) = SSEWinHTTP_SetHandles x y z d1"
    for x y z x1 y1 z1 d1
    by (simp add: SSEWinHTTP_SetHandles_def)
  have "SSEWinHTTP_PerformOnce api a (d, e) = WinHTTP_Exchange api a r (?d, e)"
    using assms
    by (simp add: SSEWinHTTP_PerformOnce_def WinHTTP_Connect_def WinHTTP_Request_def undisturbed_def aborted_def
        Let_def log_set set_set)
  also have "\<dots> = WinHTTP_Response api a r (after_request a url s cn r d, e)"
    using assms(1)
    by (simp add: WinHTTP_Exchange_def undisturbed_def AddHeaders_obliging Let_def log_set after_request_def
        request_calls_def aborted_def [of False])
  finally show ?thesis .
qed

lemma close_calls:
  assumes "wh_Session d = Some s" and "wh_Connect d = Some cn" and "wh_Request d = Some r"
  shows "wh_Calls (SSEWinHTTP_CloseActiveHandles d) = wh_Calls d @ [WClose r, WClose cn, WClose s]"
  using assms by (simp add: SSEWinHTTP_CloseActiveHandles_def SSEWinHTTP_TakeHandles_def SSEWinHTTP_CloseHandles_def
      SSEWinHTTP_SetHandles_def wh_log_def close_handle_def)

lemma after_request_members [simp]:
  "wh_Session (after_request a url s cn r d) = Some s" "wh_Connect (after_request a url s cn r d) = Some cn"
  "wh_Request (after_request a url s cn r d) = Some r"
  "wh_Calls (after_request a url s cn r d) = wh_Calls d @ request_calls (wa_Windows a) url s cn r d"
  "dk_Handle (after_request a url s cn r d) = dk_Handle d"
  by (simp_all add: after_request_def SSEWinHTTP_SetHandles_def wh_log_def SSEWinHTTP_Reset_def)

lemma wh_log_handles [simp]:
  "wh_Session (wh_log ks d) = wh_Session d" "wh_Connect (wh_log ks d) = wh_Connect d" "wh_Request (wh_log ks d) = wh_Request d"
  "wh_Calls (wh_log ks d) = wh_Calls d @ ks"
  by (simp_all add: wh_log_def)

text \<open>
  C30. An undisturbed attempt makes exactly these calls: it opens the session, the connection and the request, adds the
  headers in order (the two fixed ones, those asked for, the resume position), sends, receives, asks for the status,
  reads the body of a success to its end and closes the three handles. A response with status 2xx, read in any number of
  turns and pieces, has exactly the effect of the open event followed by its body through the parser, and the attempt
  succeeds; any other status gives the error with that status, and nothing of its body reaches the script.
\<close>
theorem winhttp_response:
  assumes "undisturbed a" and "SSEWinHTTP_ParseUrl (wa_Windows a) (dk_Url d) = Inr url"
    and "wa_Session a = Some s" and "wa_Connect a = Some cn" and "wa_Request a = Some r"
    and "wa_Status a = Some status" and "0 \<le> status" and "status < 2147483648"
    and "wa_Body a = ts @ [t]" and "list_all quiet_turn ts" and "end_turn t"
  shows "\<exists>d2. SSEWinHTTP_PerformOnce api a (d, e) =
     (if 200 \<le> status \<and> status < 300
      then Finished None (d2, snd (FeedParser api (concat (map turn_data ts))
        ((after_request a url s cn r d)\<lparr>dk_Status := status, dk_Opened := True\<rparr>, api_EnqueueOpen api (dk_Handle d) status e)))
      else Finished (Some (status_error status)) (d2, e))
    \<and> wh_Calls d2 = wh_Calls d @ request_calls (wa_Windows a) url s cn r d @ [WQueryStatus r]
        @ (if 200 \<le> status \<and> status < 300 then WTimeout r # body_calls r ts else []) @ [WClose r, WClose cn, WClose s]"
proof -
  have i: "to_int32 status = status" using assms(7,8) by (intro to_int32_id) auto
  have ab: "\<not> wa_Abort a p" for p using assms(1) by (simp add: undisturbed_def)
  let ?d = "after_request a url s cn r d"
  show ?thesis
  proof (cases "200 \<le> status \<and> status < 300")
    case False
    then show ?thesis
      unfolding PerformOnce_undisturbed [OF assms(1-5)]
      by (auto simp: WinHTTP_Response_def Let_def assms(6) i ab aborted_def [of False] close_calls)
  next
    case True
    define c3 where "c3 = (?d\<lparr>dk_Status := status, dk_Opened := True\<rparr>, api_EnqueueOpen api (dk_Handle d) status e)"
    have "WinHTTP_Response api a r (?d, e) =
        (case SSEWinHTTP_ReadStream api (wa_Windows a) r (wa_Body a) (logs [WQueryStatus r, WTimeout r] c3) of
           Running c1 \<Rightarrow> Running c1
         | Finished err (d3, e3) \<Rightarrow> exchange_over a (if wa_StopEnd a then None else err) (d3, e3))"
      using True by (simp add: WinHTTP_Response_def Let_def assms(6) i ab aborted_def [of False] c3_def)
    also have "\<dots> = (case logs ([WQueryStatus r, WTimeout r] @ body_calls r ts) (FeedParser api (concat (map turn_data ts)) c3) of
        (d3, e3) \<Rightarrow> exchange_over a None (d3, e3))"
      by (simp add: assms(9) ReadStream_all [OF assms(10,11)] FeedParser_logs)
    finally have R: "SSEWinHTTP_PerformOnce api a (d, e) = \<dots>" unfolding PerformOnce_undisturbed [OF assms(1-5)] .
    obtain d3 e3 where F: "FeedParser api (concat (map turn_data ts)) c3 = (d3, e3)" by fastforce
    have "wh_Session d3 = Some s" "wh_Connect d3 = Some cn" "wh_Request d3 = Some r" "wh_Calls d3 = wh_Calls ?d"
      using FeedParser_handles [of api "concat (map turn_data ts)" c3] F by (simp_all add: c3_def)
    with True F R show ?thesis
      unfolding c3_def [symmetric] by (simp add: ab aborted_def [of False] close_calls)
  qed
qed

section \<open>Examples\<close>

definition demo_windows :: windows where
  "demo_windows = \<lparr>wn_Wide = (\<lambda>v. Some (map (\<lambda>c. word_of_nat (of_char c)) v)),
     wn_Crack = (\<lambda>w. Some \<lparr>uc_Scheme = 2, uc_Host = [104], uc_Path = [], uc_Extra = [63, 113], uc_Port = 443\<rparr>),
     wn_AddHeader = (\<lambda>w. True), wn_Alloc = True, wn_ErrorText = ''no way.'' @ [CR, LF], wn_ErrorCode = 12002\<rparr>"

definition demo_turns :: "stream_turn list" where
  "demo_turns =
     [\<lparr>st_Stop = False, st_Available = Some 6, st_Abort = False,
       st_Reads = [(False, Some ''dat'', False), (False, Some ''a: '', False)], st_StopOnError = False\<rparr>,
      \<lparr>st_Stop = False, st_Available = Some 3, st_Abort = False,
       st_Reads = [(False, Some ([CHR ''x'', LF, LF]), False)], st_StopOnError = False\<rparr>]"

definition demo_end :: stream_turn where
  "demo_end = \<lparr>st_Stop = False, st_Available = Some 0, st_Abort = False, st_Reads = [], st_StopOnError = False\<rparr>"

definition demo_attempt :: winhttp_attempt where
  "demo_attempt = \<lparr>wa_Windows = demo_windows, wa_Session = Some 1, wa_Stop1 = False, wa_Connect = Some 2,
     wa_Stop2 = False, wa_Request = Some 3, wa_Stop3 = False, wa_Send = Some True, wa_Receive = Some True,
     wa_Status = Some 200, wa_Body = demo_turns @ [demo_end], wa_StopEnd = False, wa_Abort = (\<lambda>p. False)\<rparr>"

definition demo_object :: SSEWinHTTPConnection where
  "demo_object = SSEWinHTTPConnection_new\<lparr>dk_Url := Some ''https://h?q'', dk_LastEventId := Some ''7''\<rparr>"

text \<open>The calls of that attempt.\<close>

definition demo_calls :: "winhttp_call list" where
  "demo_calls = [WOpen 1, WTimeouts 1, WConnect 1 [104] 443 (Some 2), WOpenRequest 2 [47, 63, 113] True (Some 3)]
     @ map (\<lambda>l. WAddHeader 3 (map (\<lambda>c. word_of_nat (of_char c)) l))
         [''Accept: text/event-stream'', ''Cache-Control: no-cache'', ''Last-Event-ID: 7'']
     @ [WSend 3, WReceive 3, WQueryStatus 3, WTimeout 3, WQueryData 3, WRead 3, WRead 3, WQueryData 3, WRead 3, WQueryData 3,
        WClose 3, WClose 2, WClose 1]"

theorem winhttp_response_witness:
  "\<exists>d2. SSEWinHTTP_PerformOnce (log_api (\<lambda>_. True)) demo_attempt (demo_object, []) =
     Finished None (d2, [AOpen 0 200, AMessage 0 (Some ''message'') (Some ''x'') (Some []) True])
     \<and> wh_Calls d2 = demo_calls"
proof -
  let ?api = "log_api (\<lambda>_. True)" and ?a = demo_attempt and ?d = demo_object
  let ?url = "\<lparr>wu_Host = [104], wu_Path = [47, 63, 113], wu_Port = 443, wu_Secure = True\<rparr>"
  have f: "snd (FeedParser ?api (concat (map turn_data demo_turns))
       ((after_request ?a ?url 1 2 3 ?d)\<lparr>dk_Status := 200, dk_Opened := True\<rparr>, api_EnqueueOpen ?api (dk_Handle ?d) 200 [])) =
     [AOpen 0 200, AMessage 0 (Some ''message'') (Some ''x'') (Some []) True]" by code_simp
  have l: "wh_Calls ?d @ request_calls (wa_Windows ?a) ?url 1 2 3 ?d @ [WQueryStatus 3] @ (WTimeout 3 # body_calls 3 demo_turns)
      @ [WClose 3, WClose 2, WClose 1] = demo_calls" by code_simp
  have u: "undisturbed ?a" "SSEWinHTTP_ParseUrl (wa_Windows ?a) (dk_Url ?d) = Inr ?url"
    by (simp add: undisturbed_def obliging_def demo_attempt_def demo_windows_def) code_simp
  have a: "wa_Session ?a = Some 1" "wa_Connect ?a = Some 2" "wa_Request ?a = Some 3" "wa_Status ?a = Some 200"
    "(0::int) \<le> 200" "(200::int) < 2147483648" "wa_Body ?a = demo_turns @ [demo_end]"
    by (simp_all add: demo_attempt_def)
  have s: "list_all quiet_turn demo_turns" "end_turn demo_end" by code_simp+
  from winhttp_response [OF u a s, where api = ?api and e = "[]"] show ?thesis unfolding f using l by simp
qed

definition demo_life :: "(abort_point \<Rightarrow> bool) \<Rightarrow> winhttp_attempt worker_turn" where
  "demo_life ab = \<lparr>wt_Stop = False, wt_Attempt = demo_attempt\<lparr>wa_Abort := ab\<rparr>, wt_StopAfter = False, wt_Time = 0,
     wt_Sleep = [], wt_StopEnd = False\<rparr>"

text \<open>One life without and one with the shutdown's close, which falls between the sending and the response.\<close>

theorem winhttp_handles_closed_once_witness:
  "closed_once (\<lambda>k. True) (SSEWinHTTP_Worker (log_api (\<lambda>_. True)) [demo_life (\<lambda>p. False)] (demo_object, []))
   \<and> closed_once moves_handle (SSEWinHTTP_Worker (log_api (\<lambda>_. True)) [demo_life (\<lambda>p. p = At_Send)] (demo_object, []))"
proof -
  have fresh: "wh_Session demo_object = None" "wh_Connect demo_object = None" "wh_Request demo_object = None"
    "wh_Calls demo_object = []"
    by (simp_all add: demo_object_def SSEWinHTTPConnection_new_def)
  have "list_all (\<lambda>t. left_alone (wt_Attempt t)) [demo_life (\<lambda>p. False)]"
    by (simp add: demo_life_def left_alone_def demo_attempt_def demo_turns_def demo_end_def turn_alone_def)
  moreover have "list_all (\<lambda>t. spares_opening (wt_Attempt t)) [demo_life (\<lambda>p. p = At_Send)]"
    by (simp add: demo_life_def spares_opening_def)
  ultimately show ?thesis
    using winhttp_handles_closed_once [OF fresh, of "[demo_life (\<lambda>p. False)]" "log_api (\<lambda>_. True)" "[]"]
      winhttp_handles_closed_once [OF fresh, of "[demo_life (\<lambda>p. p = At_Send)]" "log_api (\<lambda>_. True)" "[]"] by blast
qed

section \<open>What the shutdown can do\<close>

text \<open>
  When the shutdown takes and closes the handles while the worker is inside \<open>WinHttpConnect\<close>, the worker
  stores the closed session again, and, seeing the stop flag, closes it a second time.
\<close>
theorem winhttp_shutdown_double_close:
  "let c = reached (SSEWinHTTP_PerformOnce (log_api (\<lambda>_. True))
         (demo_attempt\<lparr>wa_Abort := (\<lambda>p. p = In_Connect), wa_Stop2 := True\<rparr>) (demo_object, []))
   in wh_Calls (fst c) = [WOpen 1, WTimeouts 1, WConnect 1 [104] 443 (Some 2), WClose 1, WClose 2, WClose 1]
     \<and> handle_proto (None, None, None) (filter moves_handle (wh_Calls (fst c))) = None"
  by code_simp

text \<open>A close between the sending and the response: the next call finds the request closed, but nothing is closed twice.\<close>

theorem winhttp_shutdown_use_after_close:
  "let c = reached (SSEWinHTTP_PerformOnce (log_api (\<lambda>_. True))
         (demo_attempt\<lparr>wa_Abort := (\<lambda>p. p = At_Send), wa_Receive := Some False\<rparr>) (demo_object, []))
   in drop 7 (wh_Calls (fst c)) = [WSend 3, WClose 3, WClose 2, WClose 1, WReceive 3]
     \<and> handle_proto (None, None, None) (wh_Calls (fst c)) = None
     \<and> handle_proto (None, None, None) (filter moves_handle (wh_Calls (fst c))) = Some (None, None, None)"
  by code_simp

end
