(* ===== verification/Reaper.thy ===== *)
theory Reaper
  imports DesktopWorker NullAdapter
begin

text \<open>
  The entry points of the two transports in \<open>sse_desktop.cpp\<close>, which have the same text but for
  what they initialise: a disconnect never waits for the worker; an object whose worker still runs
  becomes a zombie and is joined and freed later, by the update or by the shutdown. The objects
  live in a heap; an operation returns \<open>None\<close> when it would follow a dangling pointer.
\<close>

section \<open>The state\<close>

text \<open>\<open>zr_Zombies\<close> is \<open>g_SSEDesktopZombies\<close>, \<open>zr_Mutex\<close> whether its mutex exists, \<open>zr_Threads\<close> the
  objects whose thread was started and not joined.\<close>

record 'd reaper =
  zr_Heap :: "nat \<Rightarrow> 'd desktop_worker_scheme option"
  zr_Next :: nat
  zr_Zombies :: "nat list"
  zr_Mutex :: bool
  zr_Threads :: "nat set"

text \<open>What the engine decides: whether a thread starts, and how an array erases.\<close>

record engine =
  xg_ThreadNew :: "nat \<Rightarrow> bool"
  xg_EraseSwap :: "nat \<Rightarrow> nat list \<Rightarrow> nat list"

definition zr_put :: "nat \<Rightarrow> 'd desktop_worker_scheme option \<Rightarrow> ('d, 'z) reaper_scheme \<Rightarrow> ('d, 'z) reaper_scheme" where
  "zr_put a x w = w\<lparr>zr_Heap := (zr_Heap w)(a := x)\<rparr>"

text \<open>\<open>dmThread::Join\<close> returns when the worker has returned; \<open>SSEDesktop_Free\<close>.\<close>

definition zr_join :: "nat \<Rightarrow> ('d, 'z) reaper_scheme \<Rightarrow> ('d, 'z) reaper_scheme" where
  "zr_join a w = w\<lparr>zr_Threads := zr_Threads w - {a}\<rparr>"

definition SSEDesktop_Free :: "nat \<Rightarrow> ('d, 'z) reaper_scheme \<Rightarrow> ('d, 'z) reaper_scheme" where
  "SSEDesktop_Free a w = zr_put a None w"

section \<open>The entry points\<close>

definition ZR_Platform_Initialize :: "('d, 'z) reaper_scheme \<Rightarrow> ('d, 'z) reaper_scheme" where
  "ZR_Platform_Initialize w = (if \<not> zr_Mutex w then w\<lparr>zr_Mutex := True\<rparr> else w)"

definition ZR_Platform_Connect ::
  "engine \<Rightarrow> 'd desktop_worker_scheme \<Rightarrow> ('d, 'z) reaper_scheme \<Rightarrow> SSEConnection
     \<Rightarrow> ('d, 'z) reaper_scheme \<times> SSEConnection \<times> string option" where
  "ZR_Platform_Connect x fresh w c =
     (let a = zr_Next w; w1 = w\<lparr>zr_Next := Suc a\<rparr>
      in if \<not> xg_ThreadNew x a
         then (w1, c\<lparr>cn_PlatformData := None\<rparr>, Some ''failed to start SSE worker thread'')
         else ((zr_put a (Some ((desktop_copy fresh c)\<lparr>dk_Thread := True\<rparr>)) w1)
                 \<lparr>zr_Threads := insert a (zr_Threads w)\<rparr>,
               c\<lparr>cn_PlatformData := Some a\<rparr>, None))"

text \<open>The part of a disconnect behind the null test.\<close>

definition Retire :: "nat \<Rightarrow> ('d, 'z) reaper_scheme \<Rightarrow> ('d, 'z) reaper_scheme option" where
  "Retire a w = map_option (\<lambda>d.
     (let w1 = zr_put a (Some (d\<lparr>dk_Stop := True\<rparr>)) w
      in if \<not> dk_Thread d then SSEDesktop_Free a w1
         else if SSEDesktop_IsFinished d then SSEDesktop_Free a (zr_join a w1)
         else w1\<lparr>zr_Zombies := zr_Zombies w1 @ [a]\<rparr>)) (zr_Heap w a)"

text \<open>A pointer to no object does not arise, and is left alone.\<close>

definition ZR_Platform_Disconnect ::
  "('d, 'z) reaper_scheme \<Rightarrow> SSEConnection \<Rightarrow> ('d, 'z) reaper_scheme \<times> SSEConnection" where
  "ZR_Platform_Disconnect w c =
     (case cn_PlatformData c of None \<Rightarrow> (w, c)
      | Some a \<Rightarrow> ((case Retire a w of None \<Rightarrow> w | Some w1 \<Rightarrow> w1), c\<lparr>cn_PlatformData := None\<rparr>))"

definition ZR_Platform_IsConnected :: "('d, 'z) reaper_scheme \<Rightarrow> SSEConnection \<Rightarrow> bool" where
  "ZR_Platform_IsConnected w c =
     (case Option.bind (cn_PlatformData c) (zr_Heap w) of None \<Rightarrow> False
      | Some d \<Rightarrow> dk_Opened d \<and> \<not> SSEDesktop_ShouldStop d)"

text \<open>
  The loop of \<open>SSE_Platform_Update\<close>: each turn erases an element or moves on, so as many turns as
  there are zombies are enough.
\<close>

fun ReapLoop ::
  "(nat \<Rightarrow> nat list \<Rightarrow> nat list) \<Rightarrow> nat \<Rightarrow> nat \<Rightarrow> ('d, 'z) reaper_scheme \<Rightarrow> ('d, 'z) reaper_scheme option" where
  "ReapLoop erase 0 i w = Some w"
| "ReapLoop erase (Suc n) i w =
     (if i < length (zr_Zombies w) then
        let a = zr_Zombies w ! i in
        (case zr_Heap w a of None \<Rightarrow> None
         | Some d \<Rightarrow>
             if SSEDesktop_IsFinished d
             then ReapLoop erase n i
               ((SSEDesktop_Free a (zr_join a w))\<lparr>zr_Zombies := erase i (zr_Zombies w)\<rparr>)
             else ReapLoop erase n (Suc i) w)
      else Some w)"

definition ZR_Platform_Update ::
  "engine \<Rightarrow> ('d, 'z) reaper_scheme \<Rightarrow> ('d, 'z) reaper_scheme option" where
  "ZR_Platform_Update x w =
     (if \<not> zr_Mutex w then Some w else ReapLoop (xg_EraseSwap x) (length (zr_Zombies w)) 0 w)"

text \<open>The shutdown; \<open>abort\<close> is what a transport does to a worker that still runs.\<close>

fun FinishZombies ::
  "('d desktop_worker_scheme \<Rightarrow> 'd desktop_worker_scheme) \<Rightarrow> nat list \<Rightarrow> ('d, 'z) reaper_scheme
     \<Rightarrow> ('d, 'z) reaper_scheme option" where
  "FinishZombies abort [] w = Some w"
| "FinishZombies abort (a # as) w =
     (case zr_Heap w a of None \<Rightarrow> None
      | Some d \<Rightarrow>
          (let w1 = (if dk_Thread d
             then zr_join a (if SSEDesktop_IsFinished d then w else zr_put a (Some (abort d)) w) else w)
           in FinishZombies abort as (SSEDesktop_Free a w1)))"

definition ZR_Platform_Finalize ::
  "('d desktop_worker_scheme \<Rightarrow> 'd desktop_worker_scheme) \<Rightarrow> ('d, 'z) reaper_scheme
     \<Rightarrow> ('d, 'z) reaper_scheme option" where
  "ZR_Platform_Finalize abort w =
     (if \<not> zr_Mutex w then Some w
      else map_option (\<lambda>w1. w1\<lparr>zr_Mutex := False\<rparr>)
        (FinishZombies abort (zr_Zombies w) (w\<lparr>zr_Zombies := []\<rparr>)))"

lemmas zr_defs = zr_put_def zr_join_def SSEDesktop_Free_def

section \<open>Ownership\<close>

text \<open>
  Every object belongs to exactly one connection or is a zombie, and has a thread that was not joined;
  in particular the object of a thread that may still run has not been freed. \<open>owned\<close> are the
  objects that connections point to.
\<close>

definition reaper_ok :: "nat set \<Rightarrow> ('d, 'z) reaper_scheme \<Rightarrow> bool" where
  "reaper_ok owned w \<longleftrightarrow>
     distinct (zr_Zombies w) \<and> set (zr_Zombies w) \<inter> owned = {}
     \<and> dom (zr_Heap w) = owned \<union> set (zr_Zombies w) \<and> zr_Threads w = dom (zr_Heap w)
     \<and> (\<forall>a d. zr_Heap w a = Some d \<longrightarrow> dk_Thread d \<and> a < zr_Next w)
     \<and> (\<forall>a d. a \<in> set (zr_Zombies w) \<and> zr_Heap w a = Some d \<longrightarrow> dk_Stop d)"

text \<open>The laws of the array that the loop needs.\<close>

locale erasing =
  fixes erase :: "nat \<Rightarrow> nat list \<Rightarrow> nat list"
  assumes erase_mset: "i < length xs \<Longrightarrow> mset (erase i xs) = mset xs - {#xs ! i#}"
    and erase_front: "i < length xs \<Longrightarrow> take i (erase i xs) = take i xs"
begin

lemma erase_length: "i < length xs \<Longrightarrow> length (erase i xs) = length xs - 1"
  using erase_mset [of i xs] by (metis size_mset nth_mem_mset size_Diff_singleton)

lemma erase_set: "distinct xs \<Longrightarrow> i < length xs \<Longrightarrow> set (erase i xs) = set xs - {xs ! i} \<and> distinct (erase i xs)"
proof -
  assume d: "distinct xs" and i: "i < length xs"
  have m: "mset (erase i xs) = mset (remove1 (xs ! i) xs)" by (simp add: erase_mset [OF i])
  show ?thesis
    using mset_eq_setD [OF m] mset_eq_imp_distinct_iff [OF m] d by (simp add: set_remove1_eq)
qed

text \<open>What is left is what still runs; nothing that runs is touched.\<close>

lemma ReapLoop_ok:
  "reaper_ok owned w \<Longrightarrow> length (zr_Zombies w) \<le> n + i \<Longrightarrow>
   \<forall>a \<in> set (take i (zr_Zombies w)). \<forall>d. zr_Heap w a = Some d \<longrightarrow> \<not> SSEDesktop_IsFinished d \<Longrightarrow>
   \<exists>t. ReapLoop erase n i w = Some t \<and> reaper_ok owned t
     \<and> set (zr_Zombies t) = {a \<in> set (zr_Zombies w). \<forall>d. zr_Heap w a = Some d \<longrightarrow> \<not> SSEDesktop_IsFinished d}
     \<and> (\<forall>a. a \<in> owned \<union> set (zr_Zombies t) \<longrightarrow> zr_Heap t a = zr_Heap w a)
     \<and> zr_Mutex t = zr_Mutex w \<and> zr_Next t = zr_Next w"
proof (induction n arbitrary: i w)
  case 0
  then show ?case by (auto simp: subset_iff dest: in_set_takeD)
next
  case (Suc n)
  let ?zs = "zr_Zombies w"
  show ?case
  proof (cases "i < length ?zs")
    case False
    with Suc.prems(3) Suc.prems(1) show ?thesis by auto
  next
    case True
    define a where "a = ?zs ! i"
    have a: "a \<in> set ?zs" using True by (simp add: a_def)
    then obtain d where d: "zr_Heap w a = Some d" using Suc.prems(1) by (auto simp: reaper_ok_def)
    show ?thesis
    proof (cases "SSEDesktop_IsFinished d")
      case False
      have "\<forall>b \<in> set (take (Suc i) ?zs). \<forall>d. zr_Heap w b = Some d \<longrightarrow> \<not> SSEDesktop_IsFinished d"
        using Suc.prems(3) True False d by (auto simp: take_Suc_conv_app_nth a_def [symmetric])
      from Suc.IH [OF Suc.prems(1) _ this] Suc.prems(2) True False d show ?thesis
        by (simp add: a_def [symmetric])
    next
      case fin: True
      let ?w = "(SSEDesktop_Free a (zr_join a w))\<lparr>zr_Zombies := erase i ?zs\<rparr>"
      have dz: "distinct ?zs" using Suc.prems(1) by (simp add: reaper_ok_def)
      note es = erase_set [OF dz True, folded a_def]
      have ok: "reaper_ok owned ?w"
        using Suc.prems(1) es a by (auto simp: reaper_ok_def zr_defs split: if_splits)
      have "length (zr_Zombies ?w) \<le> n + i" using Suc.prems(2) True erase_length [OF True] by simp
      moreover have "\<forall>b \<in> set (take i (zr_Zombies ?w)). \<forall>d. zr_Heap ?w b = Some d \<longrightarrow> \<not> SSEDesktop_IsFinished d"
        using Suc.prems(3) erase_front [OF True] by (auto simp: zr_defs)
      ultimately obtain t where t: "ReapLoop erase n i ?w = Some t" "reaper_ok owned t"
        "set (zr_Zombies t) = {b \<in> set (zr_Zombies ?w). \<forall>d. zr_Heap ?w b = Some d \<longrightarrow> \<not> SSEDesktop_IsFinished d}"
        "\<forall>b. b \<in> owned \<union> set (zr_Zombies t) \<longrightarrow> zr_Heap t b = zr_Heap ?w b"
        "zr_Mutex t = zr_Mutex ?w" "zr_Next t = zr_Next ?w"
        using Suc.IH [OF ok] by blast
      have "a \<notin> owned" using Suc.prems(1) a by (auto simp: reaper_ok_def)
      with t es fin d True show ?thesis
        by (intro exI [of _ t]) (auto simp: zr_defs a_def [symmetric])
    qed
  qed
qed

end

interpretation swap: erasing erase_swap
  by unfold_locales (simp_all add: mset_erase_swap take_erase_swap)

lemma Retire_ok:
  assumes "reaper_ok owned w" and "a \<in> owned"
  shows "\<exists>w1. Retire a w = Some w1 \<and> reaper_ok (owned - {a}) w1"
proof -
  from assms obtain d where d: "zr_Heap w a = Some d" "dk_Thread d"
    unfolding reaper_ok_def by blast
  have z: "a \<notin> set (zr_Zombies w)" using assms by (auto simp: reaper_ok_def)
  have "reaper_ok (owned - {a}) (SSEDesktop_Free a (zr_join a (zr_put a (Some (d\<lparr>dk_Stop := True\<rparr>)) w)))"
    using assms z unfolding reaper_ok_def zr_defs by (auto split: if_splits)
  moreover have "reaper_ok (owned - {a}) ((zr_put a (Some (d\<lparr>dk_Stop := True\<rparr>)) w)\<lparr>zr_Zombies := zr_Zombies w @ [a]\<rparr>)"
    using assms z d unfolding reaper_ok_def zr_defs by (auto split: if_splits)
  ultimately show ?thesis
    using d by (cases "SSEDesktop_IsFinished d") (auto simp: Retire_def zr_defs)
qed

lemma reaper_ok_insert:
  assumes ok: "reaper_ok owned w" and d: "dk_Thread d"
  shows "reaper_ok (insert (zr_Next w) owned) (w\<lparr>zr_Next := Suc (zr_Next w),
    zr_Heap := (zr_Heap w)(zr_Next w \<mapsto> d), zr_Threads := insert (zr_Next w) (zr_Threads w)\<rparr>)"
proof -
  have dom: "dom (zr_Heap w) = owned \<union> set (zr_Zombies w)" using ok by (simp add: reaper_ok_def)
  have fresh: "zr_Next w \<notin> dom (zr_Heap w)" using ok unfolding reaper_ok_def by fastforce
  then have "zr_Next w \<notin> owned" "zr_Next w \<notin> set (zr_Zombies w)" using dom by blast+
  moreover have "\<forall>a d. zr_Heap w a = Some d \<longrightarrow> dk_Thread d \<and> a < Suc (zr_Next w)"
    using ok unfolding reaper_ok_def by fastforce
  ultimately show ?thesis using ok d by (simp add: reaper_ok_def)
qed

lemma Started_ok:
  assumes "reaper_ok owned w" and "ZR_Platform_Connect x fresh w c = (w1, c1, err)"
  shows "reaper_ok (case err of None \<Rightarrow> insert (zr_Next w) owned | Some _ \<Rightarrow> owned) w1
    \<and> cn_PlatformData c1 = (case err of None \<Rightarrow> Some (zr_Next w) | Some _ \<Rightarrow> None)"
proof (cases "xg_ThreadNew x (zr_Next w)")
  case True
  with assms reaper_ok_insert [OF assms(1), of "(desktop_copy fresh c)\<lparr>dk_Thread := True\<rparr>"]
  show ?thesis by (auto simp: ZR_Platform_Connect_def Let_def zr_defs)
next
  case False
  have "reaper_ok owned (w\<lparr>zr_Next := Suc (zr_Next w)\<rparr>)"
    using assms(1) by (simp add: reaper_ok_def less_Suc_eq)
  with False assms(2) show ?thesis by (auto simp: ZR_Platform_Connect_def Let_def)
qed

lemma FinishZombies_frees:
  "distinct as \<Longrightarrow> set as = dom (zr_Heap w) \<Longrightarrow> zr_Threads w = dom (zr_Heap w) \<Longrightarrow>
   \<forall>a d. zr_Heap w a = Some d \<longrightarrow> dk_Thread d \<Longrightarrow>
   \<exists>t. FinishZombies abort as w = Some t \<and> zr_Heap t = Map.empty \<and> zr_Threads t = {}
     \<and> zr_Zombies t = zr_Zombies w \<and> zr_Next t = zr_Next w"
proof (induction as arbitrary: w)
  case Nil
  then show ?case by (auto simp: dom_def)
next
  case (Cons a as)
  then obtain d where d: "zr_Heap w a = Some d" "dk_Thread d" by (metis domD list.set_intros(1))
  define w1 where "w1 = SSEDesktop_Free a (zr_join a
    (if SSEDesktop_IsFinished d then w else zr_put a (Some (abort d)) w))"
  have "\<exists>t. FinishZombies abort as w1 = Some t \<and> zr_Heap t = Map.empty \<and> zr_Threads t = {}
     \<and> zr_Zombies t = zr_Zombies w1 \<and> zr_Next t = zr_Next w1"
  proof (rule Cons.IH)
    show "distinct as" using Cons.prems by simp
    have "dom (zr_Heap w1) = dom (zr_Heap w) - {a}" by (auto simp: w1_def zr_defs split: if_splits)
    then show "set as = dom (zr_Heap w1)" "zr_Threads w1 = dom (zr_Heap w1)"
      using Cons.prems by (auto simp: w1_def zr_defs split: if_splits)
    show "\<forall>b d. zr_Heap w1 b = Some d \<longrightarrow> dk_Thread d"
      using Cons.prems by (auto simp: w1_def zr_defs split: if_splits)
  qed
  then show ?case using d by (cases "SSEDesktop_IsFinished d") (simp_all add: w1_def zr_defs)
qed

lemma Finalize_ok:
  assumes "reaper_ok {} w"
  shows "\<exists>t. ZR_Platform_Finalize abort w = Some t \<and> reaper_ok {} t
    \<and> (zr_Mutex w \<longrightarrow> zr_Heap t = Map.empty \<and> zr_Threads t = {} \<and> zr_Zombies t = [] \<and> \<not> zr_Mutex t)"
proof (cases "zr_Mutex w")
  case False
  with assms show ?thesis by (simp add: ZR_Platform_Finalize_def)
next
  case True
  have "\<exists>t. FinishZombies abort (zr_Zombies w) (w\<lparr>zr_Zombies := []\<rparr>) = Some t \<and> zr_Heap t = Map.empty
     \<and> zr_Threads t = {} \<and> zr_Zombies t = [] \<and> zr_Next t = zr_Next w"
    using assms FinishZombies_frees [of "zr_Zombies w" "w\<lparr>zr_Zombies := []\<rparr>" abort]
    by (simp add: reaper_ok_def)
  with True show ?thesis by (auto simp: ZR_Platform_Finalize_def reaper_ok_def)
qed

section \<open>Runs\<close>

text \<open>
  Any order of the entry points on the engine's thread and of the steps of the workers. A worker
  changes its own object, until it has set the finished flag, and neither its stop flag nor its
  thread. The connections are deleted before the shutdown.
\<close>

inductive reap_reach ::
  "engine \<Rightarrow> ('d desktop_worker_scheme \<Rightarrow> 'd desktop_worker_scheme) \<Rightarrow> 'd desktop_worker_scheme
     \<Rightarrow> nat set \<Rightarrow> 'd reaper \<Rightarrow> bool"
  for x abort fresh where
  start: "reap_reach x abort fresh {} \<lparr>zr_Heap = Map.empty, zr_Next = 0, zr_Zombies = [], zr_Mutex = False, zr_Threads = {}\<rparr>"
| initialize: "reap_reach x abort fresh owned w \<Longrightarrow> reap_reach x abort fresh owned (ZR_Platform_Initialize w)"
| connect: "reap_reach x abort fresh owned w \<Longrightarrow> zr_Mutex w \<Longrightarrow> ZR_Platform_Connect x fresh w c = (w1, c1, None) \<Longrightarrow>
     cn_PlatformData c1 = Some a \<Longrightarrow> reap_reach x abort fresh (insert a owned) w1"
| refused: "reap_reach x abort fresh owned w \<Longrightarrow> zr_Mutex w \<Longrightarrow> ZR_Platform_Connect x fresh w c = (w1, c1, Some err) \<Longrightarrow>
     reap_reach x abort fresh owned w1"
| disconnect: "reap_reach x abort fresh owned w \<Longrightarrow> a \<in> owned \<Longrightarrow> Retire a w = Some w1 \<Longrightarrow>
     reap_reach x abort fresh (owned - {a}) w1"
| worker: "reap_reach x abort fresh owned w \<Longrightarrow> zr_Heap w a = Some d \<Longrightarrow> \<not> SSEDesktop_IsFinished d \<Longrightarrow>
     dk_Stop d1 = dk_Stop d \<Longrightarrow> dk_Thread d1 = dk_Thread d \<Longrightarrow> reap_reach x abort fresh owned (zr_put a (Some d1) w)"
| update: "reap_reach x abort fresh owned w \<Longrightarrow> ZR_Platform_Update x w = Some w1 \<Longrightarrow> reap_reach x abort fresh owned w1"
| finalize: "reap_reach x abort fresh {} w \<Longrightarrow> ZR_Platform_Finalize abort w = Some w1 \<Longrightarrow> reap_reach x abort fresh {} w1"

lemma Update_ok:
  assumes "erasing (xg_EraseSwap x)" and "reaper_ok owned w"
  shows "\<exists>t. ZR_Platform_Update x w = Some t \<and> reaper_ok owned t \<and> zr_Mutex t = zr_Mutex w
     \<and> (zr_Mutex w \<longrightarrow> (\<forall>a. zr_Heap t a = (case zr_Heap w a of None \<Rightarrow> None
          | Some d \<Rightarrow> if a \<in> set (zr_Zombies w) \<and> SSEDesktop_IsFinished d then None else Some d)))"
proof (cases "zr_Mutex w")
  case False
  with assms show ?thesis by (auto simp: ZR_Platform_Update_def split: option.split)
next
  case True
  from erasing.ReapLoop_ok [OF assms(1,2), of "length (zr_Zombies w)" 0]
  obtain t where t: "ZR_Platform_Update x w = Some t" "reaper_ok owned t"
    "set (zr_Zombies t) = {a \<in> set (zr_Zombies w). \<forall>d. zr_Heap w a = Some d \<longrightarrow> \<not> SSEDesktop_IsFinished d}"
    "\<forall>a. a \<in> owned \<union> set (zr_Zombies t) \<longrightarrow> zr_Heap t a = zr_Heap w a" "zr_Mutex t = zr_Mutex w"
    using True by (auto simp: ZR_Platform_Update_def)
  have "zr_Heap t a = (case zr_Heap w a of None \<Rightarrow> None
      | Some d \<Rightarrow> if a \<in> set (zr_Zombies w) \<and> SSEDesktop_IsFinished d then None else Some d)" for a
  proof (cases "a \<in> owned \<union> set (zr_Zombies t)")
    case in_t: True
    then have "zr_Heap t a = zr_Heap w a" using t(4) by blast
    moreover have "a \<in> set (zr_Zombies w) \<Longrightarrow> zr_Heap w a = Some d \<Longrightarrow> \<not> SSEDesktop_IsFinished d" for d
      using in_t t(3) assms(2) by (auto simp: reaper_ok_def)
    ultimately show ?thesis by (auto split: option.split)
  next
    case False
    then have "zr_Heap t a = None" using t(2) by (auto simp: reaper_ok_def dom_def)
    moreover have "zr_Heap w a = Some d \<Longrightarrow> a \<in> set (zr_Zombies w) \<and> SSEDesktop_IsFinished d" for d
      using False t(3) assms(2) by (auto simp: reaper_ok_def dom_def)
    ultimately show ?thesis by (auto split: option.split)
  qed
  with t(1,2,5) show ?thesis by blast
qed

lemma reach_ok:
  assumes "erasing (xg_EraseSwap x)" and "reap_reach x abort fresh owned w"
  shows "reaper_ok owned w"
  using assms(2)
proof (induction rule: reap_reach.induct)
  case (connect owned w c w1 c1 a)
  from Started_ok [OF connect.IH connect.hyps(3)] connect.hyps(4) show ?case by simp
next
  case (refused owned w c w1 c1 err)
  from Started_ok [OF refused.IH refused.hyps(3)] show ?case by simp
next
  case (disconnect owned w a w1)
  from Retire_ok [OF disconnect.IH disconnect.hyps(2)] disconnect.hyps(3) show ?case by simp
next
  case (update owned w w1)
  from Update_ok [OF assms(1) update.IH] update.hyps(2) show ?case by auto
next
  case (finalize w w1)
  from Finalize_ok [OF finalize.IH, of abort] finalize.hyps(2) show ?case by auto
next
  case (worker owned w a d d1)
  then show ?case unfolding reaper_ok_def zr_defs by (auto split: if_splits)
qed (simp_all add: reaper_ok_def ZR_Platform_Initialize_def)

text \<open>
  C12. No object is used after it was freed, none leaks and none is freed under its worker: at every moment the live
  objects are those of the connections and the zombies, none is both or a zombie twice, each of them has the
  one thread that was not joined, every zombie was told to stop, and no entry point meets a dangling pointer.
\<close>
theorem desktop_objects_owned_once:
  assumes "erasing (xg_EraseSwap x)" and "reap_reach x abort fresh owned w"
  shows "dom (zr_Heap w) = owned \<union> set (zr_Zombies w) \<and> owned \<inter> set (zr_Zombies w) = {} \<and> distinct (zr_Zombies w)
    \<and> zr_Threads w = dom (zr_Heap w)
    \<and> (\<forall>a d. a \<in> set (zr_Zombies w) \<and> zr_Heap w a = Some d \<longrightarrow> dk_Stop d)
    \<and> (\<forall>a \<in> owned. Retire a w \<noteq> None) \<and> ZR_Platform_Update x w \<noteq> None
    \<and> (owned = {} \<longrightarrow> ZR_Platform_Finalize abort w \<noteq> None)"
proof -
  have ok: "reaper_ok owned w" by (rule reach_ok [OF assms])
  have "Retire a w \<noteq> None" if "a \<in> owned" for a using Retire_ok [OF ok that] by auto
  moreover have "ZR_Platform_Update x w \<noteq> None" using Update_ok [OF assms(1) ok] by auto
  moreover have "owned = {} \<longrightarrow> ZR_Platform_Finalize abort w \<noteq> None" using Finalize_ok [of w abort] ok by auto
  ultimately show ?thesis using ok by (auto simp: reaper_ok_def)
qed

text \<open>
  C28. The update frees exactly the zombies whose worker has finished, and the shutdown frees everything: no
  thread and no object is left.
\<close>
theorem reaping_is_exact:
  assumes "erasing (xg_EraseSwap x)" and "reap_reach x abort fresh owned w" and "zr_Mutex w"
  shows "(\<exists>t. ZR_Platform_Update x w = Some t
      \<and> (\<forall>a. zr_Heap t a = (case zr_Heap w a of None \<Rightarrow> None
          | Some d \<Rightarrow> if a \<in> set (zr_Zombies w) \<and> SSEDesktop_IsFinished d then None else Some d)))
    \<and> (owned = {} \<longrightarrow> (\<exists>t. ZR_Platform_Finalize abort w = Some t \<and> zr_Heap t = Map.empty \<and> zr_Threads t = {}))"
proof -
  have ok: "reaper_ok owned w" by (rule reach_ok [OF assms(1,2)])
  from Update_ok [OF assms(1) ok] obtain t where "ZR_Platform_Update x w = Some t"
    "\<forall>a. zr_Heap t a = (case zr_Heap w a of None \<Rightarrow> None
          | Some d \<Rightarrow> if a \<in> set (zr_Zombies w) \<and> SSEDesktop_IsFinished d then None else Some d)"
    using assms(3) by blast
  moreover have "owned = {} \<longrightarrow> (\<exists>t. ZR_Platform_Finalize abort w = Some t \<and> zr_Heap t = Map.empty \<and> zr_Threads t = {})"
    using Finalize_ok [of w abort] ok assms(3) by auto
  ultimately show ?thesis by blast
qed

end
