(* ===== verification/DesktopAdapters.thy ===== *)
theory DesktopAdapters
  imports CurlTransport WinHttp Reaper
begin

text \<open>
  The two transports of \<open>sse_desktop.cpp\<close> as the adapters that the portable part calls: the entry
  points of \<open>Reaper\<close> with what each transport initialises. Where an entry point would follow a
  dangling pointer, which \<open>desktop_objects_owned_once\<close> excludes, the state is left alone.
\<close>

section \<open>libcurl\<close>

text \<open>\<open>cw_CurlInitialized\<close> is \<open>g_CurlInitialized\<close>; \<open>xc_CurlGlobalInit\<close> whether libcurl can be initialised.\<close>

record curl_world = "unit SSECurlConnection_ext reaper" +
  cw_CurlInitialized :: bool

record curl_engine = engine +
  xc_CurlGlobalInit :: bool

definition CURL_Platform_Initialize :: "curl_engine \<Rightarrow> curl_world \<Rightarrow> bool \<times> curl_world" where
  "CURL_Platform_Initialize x w =
     (let w1 = ZR_Platform_Initialize w
      in if cw_CurlInitialized w1 then (True, w1)
         else if \<not> xc_CurlGlobalInit x then (False, w1)
         else (True, w1\<lparr>cw_CurlInitialized := True\<rparr>))"

definition CURL_Platform_Finalize :: "curl_world \<Rightarrow> curl_world" where
  "CURL_Platform_Finalize w =
     (case ZR_Platform_Finalize (\<lambda>d. d) w of None \<Rightarrow> w | Some w1 \<Rightarrow> w1)\<lparr>cw_CurlInitialized := False\<rparr>"

definition CURL_Platform_Connect ::
  "curl_engine \<Rightarrow> curl_world \<Rightarrow> SSEConnection \<Rightarrow> curl_world \<times> SSEConnection \<times> string option" where
  "CURL_Platform_Connect x w c =
     (if \<not> cw_CurlInitialized w then (w, c, Some ''libcurl is not initialized'')
      else ZR_Platform_Connect (engine.truncate x) SSECurlConnection_new w c)"

definition curl_adapter :: "curl_engine \<Rightarrow> curl_world adapter" where
  "curl_adapter x = \<lparr>ad_Initialize = CURL_Platform_Initialize x, ad_Finalize = CURL_Platform_Finalize,
     ad_IsSupported = cw_CurlInitialized, ad_Connect = CURL_Platform_Connect x,
     ad_Disconnect = ZR_Platform_Disconnect, ad_IsConnected = ZR_Platform_IsConnected,
     ad_Update = (\<lambda>w. case ZR_Platform_Update (engine.truncate x) w of None \<Rightarrow> w | Some w1 \<Rightarrow> w1)\<rparr>"

section \<open>WinHTTP\<close>

text \<open>The shutdown aborts a worker that still runs by closing its handles.\<close>

type_synonym winhttp_world = "unit SSEWinHTTPConnection_ext reaper"

definition WINHTTP_Platform_Finalize :: "winhttp_world \<Rightarrow> winhttp_world" where
  "WINHTTP_Platform_Finalize w =
     (case ZR_Platform_Finalize SSEWinHTTP_CloseActiveHandles w of None \<Rightarrow> w | Some w1 \<Rightarrow> w1)"

definition winhttp_adapter :: "engine \<Rightarrow> winhttp_world adapter" where
  "winhttp_adapter x = \<lparr>ad_Initialize = (\<lambda>w. (True, ZR_Platform_Initialize w)), ad_Finalize = WINHTTP_Platform_Finalize,
     ad_IsSupported = (\<lambda>w. True), ad_Connect = ZR_Platform_Connect x SSEWinHTTPConnection_new,
     ad_Disconnect = ZR_Platform_Disconnect, ad_IsConnected = ZR_Platform_IsConnected,
     ad_Update = (\<lambda>w. case ZR_Platform_Update x w of None \<Rightarrow> w | Some w1 \<Rightarrow> w1)\<rparr>"

section \<open>They are adapters\<close>

lemma ZR_Disconnect_law: "snd (ZR_Platform_Disconnect w c) = c\<lparr>cn_PlatformData := None\<rparr>"
  by (auto simp: ZR_Platform_Disconnect_def unchanged_platform split: option.split)

lemma ZR_Connect_law:
  assumes "cn_PlatformData c = None" and "ZR_Platform_Connect x fresh w c = (w1, c1, err)"
  shows "\<exists>d. c1 = c\<lparr>cn_PlatformData := d\<rparr> \<and> (err \<noteq> None \<longrightarrow> d = None)"
  using assms by (auto simp: ZR_Platform_Connect_def Let_def split: if_splits)

interpretation curl_platform: platform_adapter "curl_adapter x" for x
proof unfold_locales
  fix w c w' c' e
  assume c: "cn_PlatformData c = None" and C: "ad_Connect (curl_adapter x) w c = (w', c', e)"
  show "\<exists>d. c' = c\<lparr>cn_PlatformData := d\<rparr> \<and> (e \<noteq> None \<longrightarrow> d = None)"
  proof (cases "cw_CurlInitialized w")
    case True
    with C have "ZR_Platform_Connect (engine.truncate x) SSECurlConnection_new w c = (w', c', e)"
      by (simp add: curl_adapter_def CURL_Platform_Connect_def)
    then show ?thesis by (rule ZR_Connect_law [OF c])
  next
    case False
    with C have "c' = c\<lparr>cn_PlatformData := None\<rparr>"
      using unchanged_platform [OF c] by (simp add: curl_adapter_def CURL_Platform_Connect_def)
    then show ?thesis by blast
  qed
qed (simp add: curl_adapter_def ZR_Disconnect_law)

interpretation winhttp_platform: platform_adapter "winhttp_adapter x" for x
proof unfold_locales
  fix w c w' c' e
  assume c: "cn_PlatformData c = None" and "ad_Connect (winhttp_adapter x) w c = (w', c', e)"
  then have "ZR_Platform_Connect x SSEWinHTTPConnection_new w c = (w', c', e)" by (simp add: winhttp_adapter_def)
  then show "\<exists>d. c' = c\<lparr>cn_PlatformData := d\<rparr> \<and> (e \<noteq> None \<longrightarrow> d = None)" by (rule ZR_Connect_law [OF c])
qed (simp add: winhttp_adapter_def ZR_Disconnect_law)

section \<open>A run\<close>

text \<open>A connection is opened and disconnected at once: its object is a zombie until its worker has finished.\<close>

definition demo_engine :: engine where
  "demo_engine = \<lparr>xg_ThreadNew = (\<lambda>a. True), xg_EraseSwap = erase_swap\<rparr>"

definition demo_connection :: SSEConnection where
  "demo_connection = SSEConnection_new\<lparr>cn_Handle := 1, cn_Url := Some ''http://h/''\<rparr>"

definition demo_started :: winhttp_world where
  "demo_started =
     fst (ZR_Platform_Connect demo_engine SSEWinHTTPConnection_new
       (ZR_Platform_Initialize \<lparr>zr_Heap = Map.empty, zr_Next = 0, zr_Zombies = [], zr_Mutex = False, zr_Threads = {}\<rparr>)
       demo_connection)"

definition demo_zombie :: winhttp_world where
  "demo_zombie = the (Retire 0 demo_started)"

lemmas demo_zombie_defs =
  demo_zombie_def demo_started_def Retire_def ZR_Platform_Connect_def ZR_Platform_Initialize_def demo_engine_def zr_defs
  desktop_copy_def SSEDesktop_IsFinished_def SSEWinHTTPConnection_new_def

lemma demo_reach: "reap_reach demo_engine SSEWinHTTP_CloseActiveHandles SSEWinHTTPConnection_new {} demo_zombie"
proof -
  let ?R = "reap_reach demo_engine SSEWinHTTP_CloseActiveHandles SSEWinHTTPConnection_new"
  let ?c = "snd (ZR_Platform_Connect demo_engine SSEWinHTTPConnection_new
       (ZR_Platform_Initialize \<lparr>zr_Heap = Map.empty, zr_Next = 0, zr_Zombies = [], zr_Mutex = False, zr_Threads = {}\<rparr>)
       demo_connection)"
  have "?R {0} demo_started"
    by (rule reap_reach.connect [where c = demo_connection and ?c1.0 = "fst ?c",
          OF reap_reach.initialize [OF reap_reach.start]])
      (simp_all add: demo_zombie_defs Let_def)
  from reap_reach.disconnect [OF this, of 0 demo_zombie] show ?thesis
    by (simp add: demo_zombie_defs Let_def)
qed

lemma demo_erasing: "erasing (xg_EraseSwap demo_engine)"
  by (simp add: demo_engine_def swap.erasing_axioms)

theorem desktop_objects_owned_once_witness:
  "dom (zr_Heap demo_zombie) = set (zr_Zombies demo_zombie) \<and> zr_Zombies demo_zombie = [0]
    \<and> zr_Threads demo_zombie = {0}"
  using desktop_objects_owned_once [OF demo_erasing demo_reach]
  by (simp add: demo_zombie_defs Let_def)

theorem reaping_is_exact_witness:
  "ZR_Platform_Update demo_engine demo_zombie \<noteq> None \<and>
   (\<exists>t. ZR_Platform_Finalize SSEWinHTTP_CloseActiveHandles demo_zombie = Some t \<and> zr_Heap t = Map.empty \<and> zr_Threads t = {})"
proof -
  have "zr_Mutex demo_zombie" by (simp add: demo_zombie_defs Let_def)
  from reaping_is_exact [OF demo_erasing demo_reach this] show ?thesis by auto
qed

end
