(* ===== verification/Guard.thy ===== *)
theory Guard
  imports Main
begin

text \<open>
  The protocol between \<open>SSECallbackGuard\<close> and \<open>AppFinalizeSSE\<close> (\<open>sse.cpp\<close>): threads of the platform
  may call the enqueue functions while the main thread deletes the mutexes these lock. Every
  access to an atomic variable is a step of its own, and the steps of the threads interleave freely. The counter is
  an \<open>int32_t\<close>; it counts threads, so it does not wrap.
\<close>

section \<open>Threads and steps\<close>

text \<open>
  A thread outside the guard; one that has registered itself but not looked at the flag; one the flag let in, which
  locks the mutexes; one the flag turned away, which has to take its registration back.
\<close>

datatype entrant = Outside | Registered | Entered | TurnedAway

text \<open>The main thread: no application, before and after the start; running; waiting for the entrants;
  having seen none.\<close>

datatype app = Down | Starting | Active | Waiting_Entrants | Deleting

record guard =
  gd_App :: app
  gd_SSEActive :: bool
  gd_SSEEntrants :: int
  gd_Mutexes :: bool
  gd_Thread :: "nat \<Rightarrow> entrant"

definition guard_new :: guard where
  "guard_new = \<lparr>gd_App = Down, gd_SSEActive = False, gd_SSEEntrants = 0, gd_Mutexes = False, gd_Thread = (\<lambda>t. Outside)\<rparr>"

definition set_thread :: "nat \<Rightarrow> entrant \<Rightarrow> int \<Rightarrow> guard \<Rightarrow> guard" where
  "set_thread t pc n s = s\<lparr>gd_Thread := (gd_Thread s)(t := pc), gd_SSEEntrants := gd_SSEEntrants s + n\<rparr>"

text \<open>\<open>SSECallbackGuard()\<close>: \<open>fetch_add\<close>, then the look at the flag, then, if turned away, \<open>fetch_sub\<close>;
  the destructor's \<open>fetch_sub\<close>.\<close>

fun guard_thread :: "nat \<Rightarrow> guard \<Rightarrow> guard" where
  "guard_thread t s =
     (case gd_Thread s t of
        Outside \<Rightarrow> set_thread t Registered 1 s
      | Registered \<Rightarrow> set_thread t (if gd_SSEActive s then Entered else TurnedAway) 0 s
      | TurnedAway \<Rightarrow> set_thread t Outside (- 1) s
      | Entered \<Rightarrow> set_thread t Outside (- 1) s)"

text \<open>\<open>AppInitializeSSE\<close>: the mutexes, then the flag. \<open>AppFinalizeSSE\<close>: the flag, the wait, the mutexes.\<close>

fun guard_main :: "guard \<Rightarrow> guard" where
  "guard_main s =
     (case gd_App s of
        Down \<Rightarrow> s\<lparr>gd_App := Starting, gd_Mutexes := True\<rparr>
      | Starting \<Rightarrow> s\<lparr>gd_App := Active, gd_SSEActive := True\<rparr>
      | Active \<Rightarrow> s\<lparr>gd_App := Waiting_Entrants, gd_SSEActive := False\<rparr>
      | Waiting_Entrants \<Rightarrow> if gd_SSEEntrants s \<noteq> 0 then s else s\<lparr>gd_App := Deleting\<rparr>
      | Deleting \<Rightarrow> s\<lparr>gd_App := Down, gd_Mutexes := False\<rparr>)"

text \<open>A step of the main thread or of a thread.\<close>

datatype mover = Main_Thread | Thread nat

fun guard_step :: "mover \<Rightarrow> guard \<Rightarrow> guard" where
  "guard_step Main_Thread s = guard_main s"
| "guard_step (Thread t) s = guard_thread t s"

inductive guard_reach :: "guard \<Rightarrow> bool" where
  new: "guard_reach guard_new"
| step: "guard_reach s \<Longrightarrow> guard_reach (guard_step m s)"

definition guard_run :: "mover list \<Rightarrow> guard \<Rightarrow> guard" where
  "guard_run ms s = fold guard_step ms s"

section \<open>The invariant\<close>

definition registered :: "guard \<Rightarrow> nat set" where
  "registered s = {t. gd_Thread s t \<noteq> Outside}"

definition guard_ok :: "guard \<Rightarrow> bool" where
  "guard_ok s \<longleftrightarrow>
     finite (registered s) \<and> gd_SSEEntrants s = int (card (registered s))
     \<and> (gd_SSEActive s \<longleftrightarrow> gd_App s = Active)
     \<and> (gd_Mutexes s \<longleftrightarrow> gd_App s \<noteq> Down)
     \<and> (\<forall>t. gd_Thread s t = Entered \<longrightarrow> gd_App s = Active \<or> gd_App s = Waiting_Entrants)"

lemma set_thread_sel [simp]:
  "gd_Thread (set_thread t pc n s) = (gd_Thread s)(t := pc)" "gd_SSEEntrants (set_thread t pc n s) = gd_SSEEntrants s + n"
  "gd_App (set_thread t pc n s) = gd_App s" "gd_SSEActive (set_thread t pc n s) = gd_SSEActive s"
  "gd_Mutexes (set_thread t pc n s) = gd_Mutexes s"
  by (simp_all add: set_thread_def)

lemma registered_set:
  "registered (set_thread t pc n s) = (if pc = Outside then registered s - {t} else insert t (registered s))"
  by (auto simp: registered_def)

lemma guard_main_ok:
  assumes "guard_ok s"
  shows "guard_ok (guard_main s)"
proof -
  have same: "registered (s\<lparr>gd_App := a\<rparr>) = registered s" "registered (s\<lparr>gd_App := a, gd_Mutexes := b\<rparr>) = registered s"
    "registered (s\<lparr>gd_App := a, gd_SSEActive := b\<rparr>) = registered s" for a b
    by (simp_all add: registered_def)
  have "gd_SSEEntrants s = 0 \<Longrightarrow> gd_Thread s t = Outside" for t
    using assms by (auto simp: guard_ok_def registered_def)
  with assms show ?thesis by (cases "gd_App s") (auto simp: guard_ok_def same)
qed

lemma guard_thread_ok:
  assumes "guard_ok s"
  shows "guard_ok (guard_thread t s)"
proof -
  have f: "finite (registered s)" using assms by (simp add: guard_ok_def)
  have "t \<in> registered s \<Longrightarrow> 0 < card (registered s)" using f by (auto simp: card_gt_0_iff)
  moreover have "gd_Thread s t = Outside \<longleftrightarrow> t \<notin> registered s" by (simp add: registered_def)
  ultimately show ?thesis
    using assms f
    by (cases "gd_Thread s t")
      (auto simp: guard_ok_def registered_set insert_absorb card_Diff_singleton_if of_nat_diff)
qed

lemma guard_reach_ok: "guard_reach s \<Longrightarrow> guard_ok s"
proof (induction rule: guard_reach.induct)
  case new
  then show ?case by (simp add: guard_ok_def guard_new_def registered_def)
next
  case (step s m)
  then show ?case by (cases m) (simp_all only: guard_step.simps guard_main_ok guard_thread_ok)
qed

text \<open>
  C20. No thread uses a deleted mutex: in every interleaving of the start, the shutdown and any number of threads
  that come and go, a thread that the guard let in finds the mutexes alive until it leaves,
  the counter is the number of threads between the two ends of the guard, and none of them is
  inside when the mutexes are deleted.
\<close>
theorem guard_protects_mutexes:
  assumes "guard_reach s"
  shows "(\<forall>t. gd_Thread s t = Entered \<longrightarrow> gd_Mutexes s)
    \<and> gd_SSEEntrants s = int (card {t. gd_Thread s t \<noteq> Outside})
    \<and> (gd_App s = Deleting \<longrightarrow> (\<forall>t. gd_Thread s t \<noteq> Entered))"
  using guard_reach_ok [OF assms] by (auto simp: guard_ok_def registered_def)

section \<open>The wait ends\<close>

text \<open>The steps that a thread has to take until it is outside, while the flag is off.\<close>

fun steps_left :: "entrant \<Rightarrow> nat" where
  "steps_left Outside = 0"
| "steps_left Registered = 2"
| "steps_left Entered = 1"
| "steps_left TurnedAway = 1"

lemma steps_left_le: "steps_left pc \<le> 2"
  by (cases pc) simp_all

lemma thread_step_left:
  assumes "\<not> gd_SSEActive s" and "steps_left (gd_Thread s t) = Suc n"
  shows "gd_Thread (guard_thread t s) = (gd_Thread s)(t := gd_Thread (guard_thread t s) t)
    \<and> steps_left (gd_Thread (guard_thread t s) t) = n \<and> gd_App (guard_thread t s) = gd_App s"
  using assms by (cases "gd_Thread s t") auto

lemma guard_run_append [simp]: "guard_run (ms @ ns) s = guard_run ns (guard_run ms s)"
  by (simp add: guard_run_def)

lemma guard_run_Cons: "guard_run (m # ms) s = guard_run ms (guard_step m s)"
  by (simp add: guard_run_def)

lemma guard_run_reach: "guard_reach s \<Longrightarrow> guard_reach (guard_run ms s)"
  by (induction ms arbitrary: s) (auto simp: guard_run_def intro: guard_reach.step)

lemma nobody_registered:
  assumes "guard_ok s" and "gd_App s = Waiting_Entrants" and "gd_SSEEntrants s = 0"
  shows "gd_App (guard_run [Main_Thread] s) = Deleting"
  using assms by (simp add: guard_run_def)

lemma wait_ends:
  "\<lbrakk>guard_ok s; gd_App s = Waiting_Entrants; \<And>t. count_list ms (Thread t) = steps_left (gd_Thread s t)\<rbrakk>
   \<Longrightarrow> \<exists>n \<le> Suc (length ms). gd_App (guard_run (take n (ms @ [Main_Thread])) s) = Deleting"
proof (induction ms arbitrary: s)
  case Nil
  have "gd_Thread s t = Outside" for t using Nil(3) [of t] by (cases "gd_Thread s t") auto
  then have "registered s = {}" by (simp add: registered_def)
  then have "gd_SSEEntrants s = 0" using Nil(1) by (simp add: guard_ok_def)
  from nobody_registered [OF Nil(1,2) this] show ?case by (intro exI [of _ 1]) simp
next
  case (Cons m ms)
  have off: "\<not> gd_SSEActive s" using Cons.prems(1,2) by (simp add: guard_ok_def)
  have step: ?case if n: "n \<le> Suc (length ms)" "gd_App (guard_run (take n (ms @ [Main_Thread])) (guard_step m s)) = Deleting" for n
    using n by (intro exI [of _ "Suc n"]) (simp add: guard_run_Cons)
  show ?case
  proof (cases m)
    case Main_Thread
    show ?thesis
    proof (cases "gd_SSEEntrants s = 0")
      case True
      from nobody_registered [OF Cons.prems(1,2) True] Main_Thread show ?thesis by (intro exI [of _ 1]) simp
    next
      case False
      then have same: "guard_step m s = s" using Main_Thread Cons.prems(2) by simp
      have "count_list ms (Thread t) = steps_left (gd_Thread s t)" for t using Cons.prems(3) [of t] Main_Thread by simp
      from Cons.IH [OF Cons.prems(1,2) this] obtain n where
        "n \<le> Suc (length ms)" "gd_App (guard_run (take n (ms @ [Main_Thread])) s) = Deleting" by blast
      with step [of n] same show ?thesis by simp
    qed
  next
    case (Thread t)
    have "steps_left (gd_Thread s t) = Suc (count_list ms (Thread t))" using Cons.prems(3) [of t] Thread by simp
    note left = thread_step_left [OF off this]
    have "count_list ms (Thread u) = steps_left (gd_Thread (guard_thread t s) u)" for u
    proof (cases "u = t")
      case False
      then have "gd_Thread (guard_thread t s) u = gd_Thread s u" using left by (metis fun_upd_apply)
      with Cons.prems(3) [of u] Thread False show ?thesis by simp
    qed (use left in simp)
    moreover have "gd_App (guard_thread t s) = Waiting_Entrants" using left Cons.prems(2) by simp
    ultimately obtain n where
      "n \<le> Suc (length ms)" "gd_App (guard_run (take n (ms @ [Main_Thread])) (guard_thread t s)) = Deleting"
      using Cons.IH [OF guard_thread_ok [OF Cons.prems(1)]] by blast
    with step [of n] Thread show ?thesis by simp
  qed
qed

lemma all_outside:
  "\<lbrakk>guard_ok s; gd_App s = Waiting_Entrants; \<And>t. count_list ms (Thread t) = steps_left (gd_Thread s t); Main_Thread \<notin> set ms\<rbrakk>
   \<Longrightarrow> gd_Thread (guard_run ms s) t = Outside"
proof (induction ms arbitrary: s)
  case Nil
  show ?case using Nil(3) [of t] by (cases "gd_Thread s t") (auto simp: guard_run_def)
next
  case (Cons m ms)
  from Cons.prems(4) obtain t where m: "m = Thread t" by (cases m) auto
  have off: "\<not> gd_SSEActive s" using Cons.prems(1,2) by (simp add: guard_ok_def)
  have "steps_left (gd_Thread s t) = Suc (count_list ms (Thread t))" using Cons.prems(3) [of t] m by simp
  note left = thread_step_left [OF off this]
  have "count_list ms (Thread u) = steps_left (gd_Thread (guard_thread t s) u)" for u
  proof (cases "u = t")
    case False
    then have "gd_Thread (guard_thread t s) u = gd_Thread s u" using left by (metis fun_upd_apply)
    with Cons.prems(3) [of u] m False show ?thesis by simp
  qed (use left in simp)
  moreover have "gd_App (guard_thread t s) = Waiting_Entrants" using left Cons.prems(2) by simp
  ultimately show ?case
    using Cons.IH [OF guard_thread_ok [OF Cons.prems(1)]] Cons.prems(4) m by (simp add: guard_run_Cons)
qed

text \<open>
  C29. The shutdown cannot block for ever on the guard: whenever it waits, in every schedule in which each registered thread takes the
  one or two steps to its exit and no other thread enters, however these steps and the looks of the main thread
  interleave, the main thread finds the counter at zero at the latest when it looks after the last of them.
\<close>
theorem guard_wait_ends:
  assumes "guard_reach s" and "gd_App s = Waiting_Entrants"
    and "\<And>t. count_list ms (Thread t) = steps_left (gd_Thread s t)"
  shows "(\<exists>n \<le> Suc (length ms). gd_App (guard_run (take n (ms @ [Main_Thread])) s) = Deleting)
    \<and> (Main_Thread \<notin> set ms \<longrightarrow> gd_SSEEntrants (guard_run ms s) = 0)
    \<and> count_list ms (Thread t) \<le> 2"
proof -
  have ok: "guard_ok s" by (rule guard_reach_ok [OF assms(1)])
  have "gd_SSEEntrants (guard_run ms s) = 0" if "Main_Thread \<notin> set ms"
  proof -
    have "registered (guard_run ms s) = {}"
      using all_outside [OF ok assms(2,3) that] by (simp add: registered_def)
    then show ?thesis using guard_reach_ok [OF guard_run_reach [OF assms(1)], of ms] by (simp add: guard_ok_def)
  qed
  with wait_ends [OF ok assms(2,3)] assms(3) [of t] steps_left_le [of "gd_Thread s t"] show ?thesis by simp
qed

section \<open>An interleaving\<close>

text \<open>Thread 1 passes the flag before the shutdown clears it, thread 2 registers behind it.\<close>

definition demo_race :: "mover list" where
  "demo_race = [Main_Thread, Main_Thread, Thread 1, Thread 1, Main_Thread, Thread 2, Main_Thread, Thread 2]"

lemma demo_race_reach: "guard_reach (guard_run demo_race guard_new)"
  by (rule guard_run_reach [OF guard_reach.new])

theorem guard_protects_mutexes_witness:
  "gd_Thread (guard_run demo_race guard_new) 1 = Entered \<and> gd_Mutexes (guard_run demo_race guard_new)"
proof -
  have "gd_Thread (guard_run demo_race guard_new) 1 = Entered" by code_simp
  with guard_protects_mutexes [OF demo_race_reach] show ?thesis by blast
qed

theorem guard_wait_ends_witness:
  "\<exists>n \<le> 4. gd_App (guard_run (take n [Thread 2, Main_Thread, Thread 1, Main_Thread]) (guard_run demo_race guard_new)) = Deleting"
proof -
  let ?s = "guard_run demo_race guard_new"
  have w: "gd_App ?s = Waiting_Entrants" by code_simp
  have "gd_Thread ?s = (\<lambda>t. Outside)(1 := Entered, 2 := TurnedAway)"
    by (simp add: demo_race_def guard_run_def guard_new_def set_thread_def fun_upd_twist)
  then have "count_list [Thread 2, Main_Thread, Thread 1] (Thread t) = steps_left (gd_Thread ?s t)" for t
    by simp
  from guard_wait_ends [OF demo_race_reach w this, of 1]
  obtain n where "n \<le> Suc (length [Thread 2, Main_Thread, Thread 1])"
    "gd_App (guard_run (take n ([Thread 2, Main_Thread, Thread 1] @ [Main_Thread])) ?s) = Deleting" by blast
  then show ?thesis by (intro exI [of _ n]) simp
qed

end
