(* ===== verification/Html5.thy ===== *)
theory Html5
  imports Complex_Main Desktop
begin

text \<open>
  The HTML5 adapter (\<open>sse_html5.cpp\<close>): the header encoder in C++, the functions exported to
  JavaScript, and the client that the \<open>EM_ASM\<close> block installs, which parses the stream itself.
  A JavaScript string is a list of 16-bit code units. What the browser does is an input:
  the results of \<open>fetch\<close> and of the reads, the decoded text, and \<open>utf8\<close>, the bytes that
  \<open>stringToUTF8\<close> writes.
\<close>

section \<open>The header encoder\<close>

definition hex_digit :: "nat \<Rightarrow> char" where
  "hex_digit n = (if n < 10 then char_of (48 + n) else char_of (87 + n))"

definition escape_char :: "char \<Rightarrow> string" where
  "escape_char c =
     (if c = CHR 0x5C then [CHR 0x5C, CHR 0x5C]
      else if c = CHR 0x22 then [CHR 0x5C, CHR 0x22]
      else if c = CHR 0x08 then [CHR 0x5C, CHR ''b'']
      else if c = CHR 0x0C then [CHR 0x5C, CHR ''f'']
      else if c = LF then [CHR 0x5C, CHR ''n'']
      else if c = CR then [CHR 0x5C, CHR ''r'']
      else if c = TAB then [CHR 0x5C, CHR ''t'']
      else if (of_char c :: nat) < 32
      then [CHR 0x5C, CHR ''u'', CHR ''0'', CHR ''0'', hex_digit (of_char c div 16), hex_digit (of_char c mod 16)]
      else [c])"

text \<open>The string appended to \<open>out\<close>.\<close>

definition SSEHTML5_AppendEscaped :: "string \<Rightarrow> string option \<Rightarrow> string" where
  "SSEHTML5_AppendEscaped out v =
     out @ [CHR 0x22] @ (case v of None \<Rightarrow> [] | Some s \<Rightarrow> concat (map escape_char (c_str s))) @ [CHR 0x22]"

fun JsonHeaders :: "bool \<Rightarrow> SSEHeader list \<Rightarrow> string \<Rightarrow> string" where
  "JsonHeaders first [] json = json"
| "JsonHeaders first (h # hs) json =
     JsonHeaders False hs
       (SSEHTML5_AppendEscaped
         (SSEHTML5_AppendEscaped (if first then json else json @ '','') (Some (hd_Name h)) @ '':'') (Some (hd_Value h)))"

definition SSEHTML5_BuildHeadersJson :: "SSEConnection \<Rightarrow> string" where
  "SSEHTML5_BuildHeadersJson c = JsonHeaders True (cn_Headers c) ''{'' @ ''}''"

section \<open>The functions exported to JavaScript\<close>

definition SSE_Html5_OnOpen :: "'e sse_api \<Rightarrow> int \<Rightarrow> int \<Rightarrow> 'e \<Rightarrow> 'e" where
  "SSE_Html5_OnOpen api handle status e = api_EnqueueOpen api handle status e"

definition SSE_Html5_OnMessage ::
  "'e sse_api \<Rightarrow> int \<Rightarrow> string option \<Rightarrow> string option \<Rightarrow> string option \<Rightarrow> 'e \<Rightarrow> int \<times> 'e" where
  "SSE_Html5_OnMessage api handle name data i e =
     (case api_EnqueueMessage api handle name data i e of (b, e1) \<Rightarrow> (if b then 1 else 0, e1))"

definition SSE_Html5_OnError ::
  "'e sse_api \<Rightarrow> int \<Rightarrow> string option \<Rightarrow> int \<Rightarrow> int \<Rightarrow> int \<Rightarrow> 'e \<Rightarrow> 'e" where
  "SSE_Html5_OnError api handle err status reconnecting retry_ms e =
     api_EnqueueError api handle err status (reconnecting \<noteq> 0) retry_ms e"

definition SSE_Html5_OnClosed :: "'e sse_api \<Rightarrow> int \<Rightarrow> 'e \<Rightarrow> 'e" where
  "SSE_Html5_OnClosed api handle e = api_EnqueueClosed api handle e"

definition SSE_Html5_OnDisconnected :: "'e sse_api \<Rightarrow> int \<Rightarrow> 'e \<Rightarrow> 'e" where
  "SSE_Html5_OnDisconnected api handle e = api_SetConnected api handle False e"

definition SSE_Html5_OnLastEventId :: "'e sse_api \<Rightarrow> int \<Rightarrow> string option \<Rightarrow> 'e \<Rightarrow> 'e" where
  "SSE_Html5_OnLastEventId api handle i e = api_SetLastEventId api handle i e"

section \<open>The client\<close>

type_synonym js_string = "16 word list"

text \<open>A literal of ASCII characters.\<close>

definition js :: "string \<Rightarrow> js_string" where
  "js s = map (\<lambda>c. word_of_nat (of_char c)) s"

record html5_client =
  hc_Handle :: int
  hc_Url :: js_string
  hc_Headers :: "(js_string \<times> js_string) list"
  hc_LastEventId :: js_string
  hc_Reconnect :: bool
  hc_RetryMS :: int
  hc_Data :: js_string
  hc_EventName :: js_string
  hc_EventId :: js_string
  hc_HasId :: bool
  hc_PendingLastEventId :: "js_string option"
  hc_PendingAtBlockStart :: "js_string option"
  hc_DropObserved :: bool
  hc_EventPoisoned :: bool
  hc_DiscardLine :: bool
  hc_GotResponse :: bool
  hc_FirstResponseTimedOut :: bool
  hc_FailedAttempts :: nat

definition html5_maxBuffer :: nat where "html5_maxBuffer = 1024 * 1024"
definition html5_retryMinMs :: int where "html5_retryMinMs = 1000"
definition html5_retryMaxMs :: int where "html5_retryMaxMs = 300000"
definition html5_minDelayMs :: int where "html5_minDelayMs = 500"
definition html5_maxBackoffShift :: nat where "html5_maxBackoffShift = 8"

text \<open>\<open>allocString\<close>: what a C function sees at the pointer.\<close>

definition allocString :: "(js_string \<Rightarrow> string) \<Rightarrow> js_string \<Rightarrow> string option" where
  "allocString utf8 v = Some (c_str (utf8 v))"

definition callMessage ::
  "(js_string \<Rightarrow> string) \<Rightarrow> 'e sse_api \<Rightarrow> int \<Rightarrow> js_string \<Rightarrow> js_string \<Rightarrow> js_string \<Rightarrow> 'e \<Rightarrow> bool \<times> 'e" where
  "callMessage utf8 api handle name data i e =
     (case SSE_Html5_OnMessage api handle (allocString utf8 name) (allocString utf8 data) (allocString utf8 i) e of
        (n, e1) \<Rightarrow> (n \<noteq> 0, e1))"

definition callError ::
  "(js_string \<Rightarrow> string) \<Rightarrow> 'e sse_api \<Rightarrow> int \<Rightarrow> js_string \<Rightarrow> int \<Rightarrow> bool \<Rightarrow> int \<Rightarrow> 'e \<Rightarrow> 'e" where
  "callError utf8 api handle err status reconnecting retryMs e =
     SSE_Html5_OnError api handle (allocString utf8 err) status (if reconnecting then 1 else 0) retryMs e"

definition callLastEventId :: "(js_string \<Rightarrow> string) \<Rightarrow> 'e sse_api \<Rightarrow> int \<Rightarrow> js_string \<Rightarrow> 'e \<Rightarrow> 'e" where
  "callLastEventId utf8 api handle i e = SSE_Html5_OnLastEventId api handle (allocString utf8 i) e"

definition resetEvent :: "html5_client \<Rightarrow> html5_client" where
  "resetEvent c = c\<lparr>hc_Data := [], hc_EventName := [], hc_EventId := [], hc_HasId := False,
     hc_PendingAtBlockStart := hc_PendingLastEventId c\<rparr>"

definition poison ::
  "(js_string \<Rightarrow> string) \<Rightarrow> 'e sse_api \<Rightarrow> string \<Rightarrow> html5_client \<times> 'e \<Rightarrow> html5_client \<times> 'e" where
  "poison utf8 api message ce = (case ce of (c, e) \<Rightarrow>
     ((resetEvent (c\<lparr>hc_PendingLastEventId := hc_PendingAtBlockStart c\<rparr>))\<lparr>hc_EventPoisoned := True\<rparr>,
      callError utf8 api (hc_Handle c) (js message) 0 (hc_Reconnect c) (hc_RetryMS c) e))"

text \<open>The commit of the resume position, at both places.\<close>

definition commit_pending ::
  "(js_string \<Rightarrow> string) \<Rightarrow> 'e sse_api \<Rightarrow> html5_client \<times> 'e \<Rightarrow> html5_client \<times> 'e" where
  "commit_pending utf8 api ce = (case ce of (c, e) \<Rightarrow>
     (case hc_PendingLastEventId c of
        Some i \<Rightarrow> if \<not> hc_DropObserved c
          then (c\<lparr>hc_LastEventId := i\<rparr>, callLastEventId utf8 api (hc_Handle c) i e) else (c, e)
      | None \<Rightarrow> (c, e)))"

definition html5_dispatch ::
  "(js_string \<Rightarrow> string) \<Rightarrow> 'e sse_api \<Rightarrow> html5_client \<times> 'e \<Rightarrow> html5_client \<times> 'e" where
  "html5_dispatch utf8 api ce = (case ce of (c, e) \<Rightarrow>
     if hc_EventPoisoned c then (resetEvent (c\<lparr>hc_EventPoisoned := False\<rparr>), e)
     else if hc_Data c = [] then
       (case (if hc_HasId c then commit_pending utf8 api (c, e) else (c, e)) of (c1, e1) \<Rightarrow> (resetEvent c1, e1))
     else
       (case callMessage utf8 api (hc_Handle c) (if hc_EventName c \<noteq> [] then hc_EventName c else js ''message'')
               (butlast (hc_Data c)) (if hc_HasId c then hc_EventId c else []) e of
          (enqueued, e1) \<Rightarrow>
            (case (if enqueued then commit_pending utf8 api (c, e1)
                   else (c\<lparr>hc_PendingLastEventId := hc_PendingAtBlockStart c, hc_DropObserved := True\<rparr>, e1)) of
               (c2, e2) \<Rightarrow> (resetEvent c2, e2))))"

text \<open>\<open>/^[0-9]+$/\<close>, and \<open>parseInt\<close> of such a text; a number beyond 2^53 is clamped whatever
  it is rounded to.\<close>

definition js_digits :: "js_string \<Rightarrow> bool" where
  "js_digits s \<longleftrightarrow> s \<noteq> [] \<and> list_all (\<lambda>u. 48 \<le> u \<and> u \<le> 57) s"

definition js_parseInt :: "js_string \<Rightarrow> int" where
  "js_parseInt s = foldl (\<lambda>n u. 10 * n + (uint u - 48)) 0 s"

definition html5_clamp :: "int \<Rightarrow> int" where
  "html5_clamp parsed =
     (let p = (if parsed < html5_retryMinMs then html5_retryMinMs else parsed)
      in if p > html5_retryMaxMs then html5_retryMaxMs else p)"

fun js_indexOf :: "16 word \<Rightarrow> js_string \<Rightarrow> nat option" where
  "js_indexOf k [] = None"
| "js_indexOf k (u # us) = (if u = k then Some 0 else map_option Suc (js_indexOf k us))"

definition html5_field ::
  "(js_string \<Rightarrow> string) \<Rightarrow> 'e sse_api \<Rightarrow> js_string \<Rightarrow> js_string \<Rightarrow> html5_client \<times> 'e \<Rightarrow> html5_client \<times> 'e" where
  "html5_field utf8 api field v ce = (case ce of (c, e) \<Rightarrow>
     if field = js ''data'' then
       (if length (hc_Data c) + length v + 1 > html5_maxBuffer
        then poison utf8 api ''SSE event data exceeded maximum buffer size'' (c, e)
        else (c\<lparr>hc_Data := hc_Data c @ v @ js [LF]\<rparr>, e))
     else if field = js ''event'' then (c\<lparr>hc_EventName := v\<rparr>, e)
     else if field = js ''id'' then
       (c\<lparr>hc_EventId := v, hc_HasId := True, hc_PendingLastEventId := Some v\<rparr>, e)
     else if field = js ''retry'' \<and> js_digits v then (c\<lparr>hc_RetryMS := html5_clamp (js_parseInt v)\<rparr>, e)
     else (c, e))"

text \<open>13 is the carriage return, 58 the colon, 32 the space, 10 the line feed.\<close>

definition html5_processLine ::
  "(js_string \<Rightarrow> string) \<Rightarrow> 'e sse_api \<Rightarrow> js_string \<Rightarrow> html5_client \<times> 'e \<Rightarrow> html5_client \<times> 'e" where
  "html5_processLine utf8 api line0 ce =
     (let line = (if line0 \<noteq> [] \<and> last line0 = 13 then butlast line0 else line0)
      in if line = [] then html5_dispatch utf8 api ce
         else if hc_EventPoisoned (fst ce) then ce
         else if hd line = 58 then ce
         else (let colon = js_indexOf 58 line;
                   field = (case colon of None \<Rightarrow> line | Some k \<Rightarrow> take k line);
                   v = (case colon of None \<Rightarrow> [] | Some k \<Rightarrow> drop (Suc k) line);
                   v1 = (if v \<noteq> [] \<and> hd v = 32 then tl v else v)
               in html5_field utf8 api field v1 ce))"

section \<open>The body\<close>

text \<open>\<open>pending.split("\n")\<close>.\<close>

fun js_lines :: "js_string \<Rightarrow> js_string list" where
  "js_lines [] = [[]]"
| "js_lines (u # us) = (if u = 10 then [] # js_lines us
     else (case js_lines us of [] \<Rightarrow> [[u]] | l # ls \<Rightarrow> (u # l) # ls))"

text \<open>A turn of the loop over the complete lines.\<close>

definition html5_line ::
  "(js_string \<Rightarrow> string) \<Rightarrow> 'e sse_api \<Rightarrow> js_string \<Rightarrow> html5_client \<times> 'e \<Rightarrow> html5_client \<times> 'e" where
  "html5_line utf8 api line ce =
     (if hc_DiscardLine (fst ce) then ((fst ce)\<lparr>hc_DiscardLine := False\<rparr>, snd ce)
      else if length line > html5_maxBuffer then poison utf8 api ''SSE line exceeded maximum buffer size'' ce
      else html5_processLine utf8 api line ce)"

text \<open>The check of what is pending, behind the loop.\<close>

definition html5_cap ::
  "(js_string \<Rightarrow> string) \<Rightarrow> 'e sse_api \<Rightarrow> js_string \<times> html5_client \<times> 'e \<Rightarrow> js_string \<times> html5_client \<times> 'e" where
  "html5_cap utf8 api pce = (case pce of (pending, ce) \<Rightarrow>
     if length pending > html5_maxBuffer
     then ([], if hc_DiscardLine (fst ce) then ce
               else (case poison utf8 api ''SSE line exceeded maximum buffer size'' ce of
                       (c, e) \<Rightarrow> (c\<lparr>hc_DiscardLine := True\<rparr>, e)))
     else pce)"

definition html5_chunk ::
  "(js_string \<Rightarrow> string) \<Rightarrow> 'e sse_api \<Rightarrow> js_string \<Rightarrow> js_string \<times> html5_client \<times> 'e
     \<Rightarrow> js_string \<times> html5_client \<times> 'e" where
  "html5_chunk utf8 api piece pce = (case pce of (pending, ce) \<Rightarrow>
     (let lines = js_lines (pending @ piece)
      in html5_cap utf8 api (last lines, fold (html5_line utf8 api) (butlast lines) ce)))"

text \<open>The end of the body: what is pending counts as a line.\<close>

definition html5_flush ::
  "(js_string \<Rightarrow> string) \<Rightarrow> 'e sse_api \<Rightarrow> js_string \<Rightarrow> js_string \<times> html5_client \<times> 'e \<Rightarrow> html5_client \<times> 'e" where
  "html5_flush utf8 api rest pce = (case pce of (pending, ce) \<Rightarrow>
     (let p = pending @ rest
      in if p \<noteq> [] \<and> \<not> hc_DiscardLine (fst ce) then
           (if length p > html5_maxBuffer then poison utf8 api ''SSE line exceeded maximum buffer size'' ce
            else html5_processLine utf8 api p ce)
         else ce))"

section \<open>The start of an attempt\<close>

definition html5_fresh :: "html5_client \<Rightarrow> html5_client" where
  "html5_fresh c = (resetEvent c)\<lparr>hc_PendingLastEventId := None, hc_PendingAtBlockStart := None,
     hc_DropObserved := False, hc_EventPoisoned := False, hc_DiscardLine := False, hc_GotResponse := False,
     hc_FirstResponseTimedOut := False\<rparr>"

end
