(* ===== verification/Html5Props.thy ===== *)
theory Html5Props
  imports Html5 DesktopProps
begin

text \<open>
  The HTML5 adapter: the header encoder against a reader of JSON.
\<close>

section \<open>The header encoder\<close>

text \<open>A reader of a JSON string, behind its opening quote: the bytes and the rest.\<close>

definition hex_digit_val :: "char \<Rightarrow> nat option" where
  "hex_digit_val c =
     (let n = of_char c in if 48 \<le> n \<and> n \<le> 57 then Some (n - 48) else if 97 \<le> n \<and> n \<le> 102 then Some (n - 87) else None)"

definition simple_escape :: "char \<Rightarrow> char option" where
  "simple_escape c =
     (if c = CHR 0x5C \<or> c = CHR 0x22 then Some c
      else if c = CHR ''b'' then Some (CHR 0x08) else if c = CHR ''f'' then Some (CHR 0x0C)
      else if c = CHR ''n'' then Some LF else if c = CHR ''r'' then Some CR else if c = CHR ''t'' then Some TAB
      else None)"

fun json_string :: "string \<Rightarrow> (string \<times> string) option" where
  "json_string [] = None"
| "json_string (c # s) =
     (if c = CHR 0x22 then Some ([], s)
      else if c = CHR 0x5C then
        (case s of
           [] \<Rightarrow> None
         | d # s1 \<Rightarrow>
             if d = CHR ''u'' then
               (case s1 of
                  a # b # x # y # s2 \<Rightarrow>
                    (case (hex_digit_val x, hex_digit_val y) of
                       (Some m, Some n) \<Rightarrow>
                         if a = CHR ''0'' \<and> b = CHR ''0''
                         then map_option (\<lambda>(t, r). (char_of (16 * m + n) # t, r)) (json_string s2) else None
                     | _ \<Rightarrow> None)
                | _ \<Rightarrow> None)
             else (case simple_escape d of None \<Rightarrow> None
               | Some k \<Rightarrow> map_option (\<lambda>(t, r). (k # t, r)) (json_string s1)))
      else if (of_char c :: nat) < 32 then None
      else map_option (\<lambda>(t, r). (c # t, r)) (json_string s))"

text \<open>A reader of the members of an object whose values are strings, up to the closing brace.\<close>

fun json_members :: "nat \<Rightarrow> string \<Rightarrow> (string \<times> string) list option" where
  "json_members 0 s = None"
| "json_members (Suc n) s =
     (case s of
        [] \<Rightarrow> None
      | c # s0 \<Rightarrow>
          if c \<noteq> CHR 0x22 then None
          else (case json_string s0 of
              Some (k, d # e # s1) \<Rightarrow>
                if d = CHR '':'' \<and> e = CHR 0x22 then
                  (case json_string s1 of
                     Some (v, f # s2) \<Rightarrow>
                       if f = CHR ''}'' \<and> s2 = [] then Some [(k, v)]
                       else if f = CHR '','' then map_option (\<lambda>m. (k, v) # m) (json_members n s2)
                       else None
                   | _ \<Rightarrow> None)
                else None
            | _ \<Rightarrow> None))"

definition json_object :: "string \<Rightarrow> (string \<times> string) list option" where
  "json_object s =
     (if s = ''{}'' then Some []
      else if s \<noteq> [] \<and> hd s = CHR ''{'' then json_members (length s) (tl s) else None)"

lemma hex_digit_val_digit: "n < 16 \<Longrightarrow> hex_digit_val (hex_digit n) = Some n"
  by (auto simp: hex_digit_def hex_digit_val_def)

text \<open>What is written for a character is read back as that character.\<close>

lemma json_escape: "json_string (escape_char c @ s) = map_option (\<lambda>(t, r). (c # t, r)) (json_string s)"
proof -
  have "(of_char c :: nat) < 32 \<Longrightarrow> hex_digit_val (hex_digit (of_char c div 16)) = Some (of_char c div 16)
      \<and> hex_digit_val (hex_digit (of_char c mod 16)) = Some (of_char c mod 16)"
    by (auto intro!: hex_digit_val_digit)
  moreover have "16 * ((of_char c :: nat) div 16) + of_char c mod 16 = of_char c" by simp
  ultimately show ?thesis
    by (auto simp: escape_char_def simple_escape_def)
qed

lemma json_string_written:
  "json_string (concat (map escape_char v) @ CHR 0x22 # s) = Some (v, s)"
  by (induction v) (simp_all add: json_escape)

text \<open>The members that are left to write, and the text for them.\<close>

fun members_text :: "SSEHeader list \<Rightarrow> string" where
  "members_text [] = []"
| "members_text [h] = CHR 0x22 # concat (map escape_char (c_str (hd_Name h))) @ CHR 0x22 # CHR '':'' # CHR 0x22
     # concat (map escape_char (c_str (hd_Value h))) @ [CHR 0x22]"
| "members_text (h # g # hs) = CHR 0x22 # concat (map escape_char (c_str (hd_Name h))) @ CHR 0x22 # CHR '':'' # CHR 0x22
     # concat (map escape_char (c_str (hd_Value h))) @ CHR 0x22 # CHR '','' # members_text (g # hs)"

lemma JsonHeaders_text:
  "JsonHeaders first hs json = json @ (if hs \<noteq> [] \<and> \<not> first then [CHR '',''] else []) @ members_text hs"
proof (induction hs arbitrary: first json)
  case (Cons h hs)
  show ?case
    by (subst JsonHeaders.simps, subst Cons.IH, cases hs) (simp_all add: SSEHTML5_AppendEscaped_def)
qed simp

lemma members_text_length: "hs \<noteq> [] \<Longrightarrow> length hs < length (members_text hs)"
  by (induction hs rule: members_text.induct) simp_all

lemma json_members_written:
  "hs \<noteq> [] \<Longrightarrow> length hs \<le> n \<Longrightarrow>
   json_members n (members_text hs @ ''}'') = Some (map (\<lambda>h. (c_str (hd_Name h), c_str (hd_Value h))) hs)"
proof (induction hs arbitrary: n rule: members_text.induct)
  case (2 h)
  then show ?case by (cases n) (simp_all add: json_string_written)
next
  case (3 h g hs)
  then show ?case by (cases n) (simp_all add: json_string_written)
qed simp

text \<open>
  C23. The header object is valid JSON and means the headers: a JSON reader gets back every name and value, in
  order, whatever quotes, backslashes, line breaks or control characters they hold.
\<close>
theorem html5_headers_roundtrip:
  "json_object (SSEHTML5_BuildHeadersJson c) =
     Some (map (\<lambda>h. (c_str (hd_Name h), c_str (hd_Value h))) (cn_Headers c))"
proof (cases "cn_Headers c = []")
  case True
  then show ?thesis by (simp add: SSEHTML5_BuildHeadersJson_def json_object_def)
next
  case False
  let ?t = "members_text (cn_Headers c)"
  have "SSEHTML5_BuildHeadersJson c = CHR ''{'' # ?t @ ''}''"
    using False by (simp add: SSEHTML5_BuildHeadersJson_def JsonHeaders_text)
  moreover have "?t \<noteq> []" using members_text_length [OF False] by auto
  moreover have "length (cn_Headers c) \<le> length (CHR ''{'' # ?t @ ''}'')"
    using members_text_length [OF False] by simp
  ultimately show ?thesis
    using json_members_written [OF False] by (simp add: json_object_def del: json_members.simps)
qed

end
