(* ===== verification/Html5Client.thy ===== *)
theory Html5Client
  imports Html5 NullAdapter
begin

text \<open>
  The HTML5 client beyond its parser: one attempt (the asynchronous function \<open>connect\<close>), the reconnect
  timer, and the entry points that create and stop clients. The results of \<open>fetch\<close> and of the
  reads, the looks at \<open>client.stopped\<close> and the random numbers are inputs.
\<close>

section \<open>The request\<close>

text \<open>Setting a member of a JavaScript object whose keys are in insertion order.\<close>

fun js_set :: "js_string \<Rightarrow> js_string \<Rightarrow> (js_string \<times> js_string) list \<Rightarrow> (js_string \<times> js_string) list" where
  "js_set k v [] = [(k, v)]"
| "js_set k v ((a, b) # obj) = (if a = k then (a, v) # obj else (a, b) # js_set k v obj)"

definition html5_request_headers :: "html5_client \<Rightarrow> (js_string \<times> js_string) list" where
  "html5_request_headers c =
     (let hs = fold (\<lambda>(k, v). js_set k v) (hc_Headers c)
            [(js ''Accept'', js ''text/event-stream''), (js ''Cache-Control'', js ''no-cache'')]
      in if hc_LastEventId c \<noteq> [] then js_set (js ''Last-Event-ID'') (hc_LastEventId c) hs else hs)"

record html5_request =
  hq_Url :: js_string
  hq_Method :: js_string
  hq_Headers :: "(js_string \<times> js_string) list"
  hq_Cache :: js_string

definition html5_request_of :: "html5_client \<Rightarrow> html5_request" where
  "html5_request_of c = \<lparr>hq_Url = hc_Url c, hq_Method = js ''GET'', hq_Headers = html5_request_headers c,
     hq_Cache = js ''no-store''\<rparr>"

section \<open>Reconnecting\<close>

text \<open>\<open>random\<close> is what \<open>Math.random\<close> returns, a number from 0 up to 1; the product is exact here.\<close>

definition computeRetryDelay :: "rat \<Rightarrow> html5_client \<Rightarrow> int" where
  "computeRetryDelay random c =
     (let base = (if hc_RetryMS c < html5_retryMinMs then html5_retryMinMs else hc_RetryMS c);
          base = (if base > html5_retryMaxMs then html5_retryMaxMs else base);
          shift = (if hc_FailedAttempts c > 1 then hc_FailedAttempts c - 1 else 0);
          shift = (if shift > html5_maxBackoffShift then html5_maxBackoffShift else shift);
          delay = base * 2 ^ shift;
          delay = (if delay > html5_retryMaxMs then html5_retryMaxMs else delay);
          jittered = of_int delay * (8 / 10 + random * (4 / 10));
          jittered = (if jittered < of_int html5_minDelayMs then of_int html5_minDelayMs else jittered)
      in \<lfloor>jittered\<rfloor>)"

text \<open>What follows an attempt: nothing, or another one after a delay.\<close>

datatype html5_next = Html5_Over | Html5_Reconnect int

definition scheduleReconnectOrClose ::
  "'e sse_api \<Rightarrow> bool \<Rightarrow> rat \<Rightarrow> html5_client \<times> 'e \<Rightarrow> (html5_next, html5_client \<times> 'e) progress" where
  "scheduleReconnectOrClose api stopped random ce = (case ce of (c, e) \<Rightarrow>
     (let e1 = SSE_Html5_OnDisconnected api (hc_Handle c) e
      in if stopped then Finished Html5_Over (c, e1)
         else if \<not> hc_Reconnect c then Finished Html5_Over (c, SSE_Html5_OnClosed api (hc_Handle c) e1)
         else (let c1 = c\<lparr>hc_FailedAttempts := Suc (hc_FailedAttempts c)\<rparr>
               in Finished (Html5_Reconnect (computeRetryDelay random c1)) (c1, e1))))"

section \<open>One attempt\<close>

text \<open>How \<open>fetch\<close> ended: with the message of the error, or with a status and whether there is a body to read.\<close>

datatype html5_fetch = Rejected "js_string option" | Response int bool

datatype html5_read = Piece js_string | BodyDone | ReadRejected "js_string option"

text \<open>
  The inputs: the look at the top, whether the browser has what is needed, whether the watchdog fired before the
  response, the result of the request (\<open>None\<close> while it is awaited), the looks and results of the
  reads, what the decoder holds back until the end, the looks behind the body and in the handler, the
  random number.
\<close>

record html5_attempt =
  ha_Stopped :: bool
  ha_Supported :: bool
  ha_TimedOut :: bool
  ha_Fetch :: "html5_request \<Rightarrow> html5_fetch option"
  ha_StoppedAfter :: bool
  ha_Reads :: "(bool \<times> html5_read) list"
  ha_Rest :: js_string
  ha_StoppedEnd :: bool
  ha_StoppedCatch :: bool
  ha_Random :: rat

text \<open>The handler of exceptions.\<close>

definition html5_catch ::
  "(js_string \<Rightarrow> string) \<Rightarrow> 'e sse_api \<Rightarrow> html5_attempt \<Rightarrow> js_string option \<Rightarrow> html5_client \<times> 'e
     \<Rightarrow> (html5_next, html5_client \<times> 'e) progress" where
  "html5_catch utf8 api a message ce = (case ce of (c, e) \<Rightarrow>
     if ha_StoppedCatch a then Finished Html5_Over (c, e)
     else (let text = (if hc_FirstResponseTimedOut c then js ''SSE timed out waiting for server response''
                else (case message of None \<Rightarrow> js ''SSE fetch failed''
                      | Some m \<Rightarrow> if m = [] then js ''SSE fetch failed'' else m))
           in scheduleReconnectOrClose api (ha_StoppedAfter a) (ha_Random a)
                (c, callError utf8 api (hc_Handle c) text 0 (hc_Reconnect c) (hc_RetryMS c) e)))"

text \<open>Behind the loop: the last line, and the reconnect unless stopped.\<close>

definition html5_end ::
  "(js_string \<Rightarrow> string) \<Rightarrow> 'e sse_api \<Rightarrow> html5_attempt \<Rightarrow> js_string \<times> html5_client \<times> 'e
     \<Rightarrow> (html5_next, html5_client \<times> 'e) progress" where
  "html5_end utf8 api a pce =
     (let ce = html5_flush utf8 api (ha_Rest a) pce
      in if ha_StoppedEnd a then Finished Html5_Over ce
         else scheduleReconnectOrClose api (ha_StoppedAfter a) (ha_Random a) ce)"

fun html5_body ::
  "(js_string \<Rightarrow> string) \<Rightarrow> 'e sse_api \<Rightarrow> html5_attempt \<Rightarrow> (bool \<times> html5_read) list
     \<Rightarrow> js_string \<times> html5_client \<times> 'e \<Rightarrow> (html5_next, html5_client \<times> 'e) progress" where
  "html5_body utf8 api a [] pce = Running (snd pce)"
| "html5_body utf8 api a ((stopped, r) # rs) pce =
     (if stopped then html5_end utf8 api a pce
      else case r of
        Piece text \<Rightarrow> html5_body utf8 api a rs (html5_chunk utf8 api text pce)
      | BodyDone \<Rightarrow> html5_end utf8 api a pce
      | ReadRejected message \<Rightarrow> html5_catch utf8 api a message (snd pce))"

definition html5_response ::
  "(js_string \<Rightarrow> string) \<Rightarrow> 'e sse_api \<Rightarrow> html5_attempt \<Rightarrow> int \<Rightarrow> bool \<Rightarrow> html5_client \<times> 'e
     \<Rightarrow> (html5_next, html5_client \<times> 'e) progress" where
  "html5_response utf8 api a status has_body ce = (case ce of (c0, e) \<Rightarrow>
     (let c = c0\<lparr>hc_GotResponse := True\<rparr>
      in if \<not> (200 \<le> status \<and> status \<le> 299) then
           scheduleReconnectOrClose api (ha_StoppedAfter a) (ha_Random a)
             (c, callError utf8 api (hc_Handle c) (js (''SSE request failed with HTTP status '' @ dec_int status)) status
                   (hc_Reconnect c) (hc_RetryMS c) e)
         else if \<not> has_body then
           scheduleReconnectOrClose api (ha_StoppedAfter a) (ha_Random a)
             (c, callError utf8 api (hc_Handle c) (js ''ReadableStream body is not available'') status
                   (hc_Reconnect c) (hc_RetryMS c) e)
         else html5_body utf8 api a (ha_Reads a)
                ([], c\<lparr>hc_FailedAttempts := 0\<rparr>, SSE_Html5_OnOpen api (hc_Handle c) status e)))"

definition html5_connect ::
  "(js_string \<Rightarrow> string) \<Rightarrow> 'e sse_api \<Rightarrow> html5_attempt \<Rightarrow> html5_client \<times> 'e
     \<Rightarrow> (html5_next, html5_client \<times> 'e) progress" where
  "html5_connect utf8 api a ce = (case ce of (c, e) \<Rightarrow>
     if ha_Stopped a then Finished Html5_Over (c, e)
     else if \<not> ha_Supported a then
       Finished Html5_Over (c, SSE_Html5_OnClosed api (hc_Handle c)
         (callError utf8 api (hc_Handle c)
           (js ''fetch streaming (fetch/ReadableStream/AbortController) is not available'') 0 False (hc_RetryMS c) e))
     else (let c1 = (html5_fresh c)\<lparr>hc_FirstResponseTimedOut := ha_TimedOut a\<rparr>
           in case ha_Fetch a (html5_request_of c1) of
                None \<Rightarrow> Running (c1, e)
              | Some (Rejected message) \<Rightarrow> html5_catch utf8 api a message (c1, e)
              | Some (Response status has_body) \<Rightarrow> html5_response utf8 api a status has_body (c1, e)))"

text \<open>The life of a client: attempt after attempt, as long as the timer is set; no result while it lives.\<close>

fun html5_life ::
  "(js_string \<Rightarrow> string) \<Rightarrow> 'e sse_api \<Rightarrow> html5_attempt list \<Rightarrow> html5_client \<times> 'e
     \<Rightarrow> (unit, html5_client \<times> 'e) progress" where
  "html5_life utf8 api [] ce = Running ce"
| "html5_life utf8 api (a # as) ce =
     (case html5_connect utf8 api a ce of
        Running ce1 \<Rightarrow> Running ce1
      | Finished Html5_Over ce1 \<Rightarrow> Finished () ce1
      | Finished (Html5_Reconnect delay_ms) ce1 \<Rightarrow> html5_life utf8 api as ce1)"

section \<open>The entry points\<close>

text \<open>
  \<open>hw_Ext\<close> says whether \<open>Module.SSEExt\<close> exists, \<open>hw_Clients\<close> is its table by handle,
  \<open>hw_Objects\<close> every client ever made with its flag \<open>stopped\<close>: an attempt that is waiting keeps
  its object. The browser converts C strings to JavaScript strings and reads JSON.
\<close>

record html5_world =
  hw_Ext :: bool
  hw_Clients :: "(int \<times> nat) list"
  hw_Objects :: "nat \<Rightarrow> (html5_client \<times> bool) option"
  hw_Next :: nat

record browser =
  bw_String :: "string \<Rightarrow> js_string"
  bw_JsonParse :: "js_string \<Rightarrow> (js_string \<times> js_string) list"

definition html5_client_of :: "browser \<Rightarrow> SSEConnection \<Rightarrow> html5_client" where
  "html5_client_of b c =
     (let text = bw_String b (SSEHTML5_BuildHeadersJson c)
      in \<lparr>hc_Handle = cn_Handle c, hc_Url = bw_String b (case cn_Url c of None \<Rightarrow> [] | Some u \<Rightarrow> u),
          hc_Headers = bw_JsonParse b (if text \<noteq> [] then text else js ''{}''),
          hc_LastEventId = bw_String b (case cn_LastEventId c of None \<Rightarrow> [] | Some i \<Rightarrow> i),
          hc_Reconnect = cn_Reconnect c, hc_RetryMS = cn_RetryMS c, hc_Data = [], hc_EventName = [], hc_EventId = [],
          hc_HasId = False, hc_PendingLastEventId = None, hc_PendingAtBlockStart = None, hc_DropObserved = False,
          hc_EventPoisoned = False, hc_DiscardLine = False, hc_GotResponse = False,
          hc_FirstResponseTimedOut = False, hc_FailedAttempts = 0\<rparr>)"

definition stop_object :: "nat \<Rightarrow> html5_world \<Rightarrow> html5_world" where
  "stop_object n w = (case hw_Objects w n of None \<Rightarrow> w
     | Some (c, stopped) \<Rightarrow> w\<lparr>hw_Objects := (hw_Objects w)(n \<mapsto> (c, True))\<rparr>)"

definition client_delete :: "int \<Rightarrow> (int \<times> nat) list \<Rightarrow> (int \<times> nat) list" where
  "client_delete h clients = filter (\<lambda>x. fst x \<noteq> h) clients"

definition HTML5_Platform_Initialize :: "html5_world \<Rightarrow> bool \<times> html5_world" where
  "HTML5_Platform_Initialize w =
     (True, if \<not> hw_Ext w then w\<lparr>hw_Ext := True, hw_Clients := []\<rparr> else w)"

definition HTML5_Platform_Finalize :: "html5_world \<Rightarrow> html5_world" where
  "HTML5_Platform_Finalize w =
     (if hw_Ext w then (fold stop_object (map snd (hw_Clients w)) w)\<lparr>hw_Clients := []\<rparr> else w)"

definition HTML5_Platform_Connect ::
  "browser \<Rightarrow> html5_world \<Rightarrow> SSEConnection \<Rightarrow> html5_world \<times> SSEConnection \<times> string option" where
  "HTML5_Platform_Connect b w c =
     (w\<lparr>hw_Objects := (hw_Objects w)(hw_Next w \<mapsto> (html5_client_of b c, False)),
        hw_Clients := (cn_Handle c, hw_Next w) # client_delete (cn_Handle c) (hw_Clients w), hw_Next := Suc (hw_Next w)\<rparr>,
      c\<lparr>cn_PlatformData := Some 1\<rparr>, None)"

definition HTML5_Platform_Disconnect :: "html5_world \<Rightarrow> SSEConnection \<Rightarrow> html5_world \<times> SSEConnection" where
  "HTML5_Platform_Disconnect w c =
     ((if hw_Ext w then
         (case map_of (hw_Clients w) (cn_Handle c) of None \<Rightarrow> w
          | Some n \<Rightarrow> (stop_object n w)\<lparr>hw_Clients := client_delete (cn_Handle c) (hw_Clients w)\<rparr>)
       else w),
      c\<lparr>cn_PlatformData := None\<rparr>)"

definition HTML5_Platform_IsConnected :: "html5_world \<Rightarrow> SSEConnection \<Rightarrow> bool" where
  "HTML5_Platform_IsConnected w c = cn_Connected c"

definition html5_adapter :: "browser \<Rightarrow> html5_world adapter" where
  "html5_adapter b = \<lparr>ad_Initialize = HTML5_Platform_Initialize, ad_Finalize = HTML5_Platform_Finalize,
     ad_IsSupported = (\<lambda>w. True), ad_Connect = HTML5_Platform_Connect b,
     ad_Disconnect = HTML5_Platform_Disconnect, ad_IsConnected = HTML5_Platform_IsConnected,
     ad_Update = (\<lambda>w. w)\<rparr>"

interpretation html5_platform: platform_adapter "html5_adapter b" for b
  by unfold_locales
    (auto simp: html5_adapter_def HTML5_Platform_Disconnect_def HTML5_Platform_Connect_def)

end
