(* ===== verification/Html5Parser.thy ===== *)
theory Html5Parser
  imports Html5 DesktopProps ParserSpec
begin

text \<open>
  The parser in JavaScript against the one in C++: on ASCII text, in any pieces, they make the
  same calls. What is said of the native parser then holds for HTML5.
\<close>

section \<open>ASCII strings\<close>

definition ascii :: "string \<Rightarrow> bool" where
  "ascii s \<longleftrightarrow> list_all (\<lambda>c. (of_char c :: nat) < 128) s"

text \<open>What is used of \<open>stringToUTF8\<close>: it writes ASCII text as it is.\<close>

definition utf8_ok :: "(js_string \<Rightarrow> string) \<Rightarrow> bool" where
  "utf8_ok utf8 \<longleftrightarrow> (\<forall>s. ascii s \<longrightarrow> utf8 (js s) = s)"

lemma js_simps [simp]:
  "js [] = []" "js (c # s) = word_of_nat (of_char c) # js s" "js (s @ t) = js s @ js t" "length (js s) = length s"
  by (simp_all add: js_def)

lemma ascii_simps [simp]:
  "ascii []" "ascii (c # s) \<longleftrightarrow> (of_char c :: nat) < 128 \<and> ascii s" "ascii (s @ t) \<longleftrightarrow> ascii s \<and> ascii t"
  by (simp_all add: ascii_def)

lemma ascii_subset: "ascii s \<Longrightarrow> set t \<subseteq> set s \<Longrightarrow> ascii t"
  by (auto simp: ascii_def list_all_iff)

lemma unit_val: "unat (word_of_nat (of_char c) :: 16 word) = of_char c"
  by (simp add: unat_of_nat take_bit_nat_eq_self order_less_trans [OF nat_of_char_less_256])

lemma unit_int: "uint (word_of_nat (of_char c) :: 16 word) = int (of_char c)"
  by (simp only: uint_nat unit_val)

lemma unit_inj: "(word_of_nat (of_char c) :: 16 word) = word_of_nat (of_char d) \<longleftrightarrow> c = d"
  by (metis unit_val of_char_eq_iff)

lemma js_inj [simp]: "js s = js t \<longleftrightarrow> s = t"
proof -
  have "inj (\<lambda>c. word_of_nat (of_char c) :: 16 word)" by (rule injI) (simp add: unit_inj)
  then show ?thesis by (simp add: js_def inj_map_eq_map)
qed

lemma js_Nil [simp]: "js s = [] \<longleftrightarrow> s = []"
  by (simp add: js_def)

lemma js_ends:
  "s \<noteq> [] \<Longrightarrow> hd (js s) = word_of_nat (of_char (hd s))" "s \<noteq> [] \<Longrightarrow> last (js s) = word_of_nat (of_char (last s))"
  by (simp_all add: js_def hd_map last_map)

lemma js_parts:
  "take n (js s) = js (take n s)" "drop n (js s) = js (drop n s)" "butlast (js s) = js (butlast s)" "tl (js s) = js (tl s)"
  by (simp_all add: js_def take_map drop_map map_butlast map_tl)

lemma unit_eqs:
  "(word_of_nat (of_char c) :: 16 word) = 13 \<longleftrightarrow> c = CR" "(word_of_nat (of_char c) :: 16 word) = 10 \<longleftrightarrow> c = LF"
  "(word_of_nat (of_char c) :: 16 word) = 58 \<longleftrightarrow> c = CHR '':''" "(word_of_nat (of_char c) :: 16 word) = 32 \<longleftrightarrow> c = CHR '' ''"
  using unit_inj [of c CR] unit_inj [of c LF] unit_inj [of c "CHR '':''"] unit_inj [of c "CHR '' ''"] by simp_all

lemma js_indexOf_js: "js_indexOf 58 (js s) = find_char CHR '':'' s"
  by (induction s) (auto simp: unit_eqs find_char_def Let_def)

lemma js_digits_js: "js_digits (js v) \<longleftrightarrow> v \<noteq> [] \<and> list_all isdigit v"
proof -
  have "(48 \<le> (word_of_nat (of_char c) :: 16 word) \<and> (word_of_nat (of_char c) :: 16 word) \<le> 57) \<longleftrightarrow> isdigit c" for c
    by (simp add: word_le_nat_alt unit_val isdigit_def)
  then show ?thesis by (simp add: js_digits_def js_def list_all_iff)
qed

lemma js_parseInt_js: "list_all isdigit v \<Longrightarrow> js_parseInt (js v) = int (digits_val v)"
proof -
  have "list_all isdigit v \<Longrightarrow> foldl (\<lambda>n u. 10 * n + (uint u - 48)) (int n) (js v) = int (foldl (\<lambda>n c. 10 * n + digit_val c) n v)" for n
  proof (induction v arbitrary: n)
    case (Cons c v)
    have "uint (word_of_nat (of_char c) :: 16 word) - 48 = int (digit_val c)"
      using Cons.prems by (simp add: unit_int digit_val_def isdigit_def of_nat_diff)
    then have "10 * int n + (uint (word_of_nat (of_char c) :: 16 word) - 48) = int (10 * n + digit_val c)" by simp
    with Cons show ?case by (simp only: js_simps foldl_Cons list.pred_inject)
  qed simp
  from this [of 0] show "list_all isdigit v \<Longrightarrow> js_parseInt (js v) = int (digits_val v)"
    by (simp add: js_parseInt_def digits_val_def)
qed

section \<open>The two parsers side by side\<close>

text \<open>The position both would resume from; where there is none, neither sends the header.\<close>

definition same_resume :: "(js_string \<Rightarrow> string) \<Rightarrow> html5_client \<Rightarrow> 'a desktop_scheme \<Rightarrow> bool" where
  "same_resume utf8 c d \<longleftrightarrow> (case dk_LastEventId d of None \<Rightarrow> [] | Some i \<Rightarrow> i) = c_str (utf8 (hc_LastEventId c))"

definition same_connection :: "(js_string \<Rightarrow> string) \<Rightarrow> html5_client \<Rightarrow> 'a desktop_scheme \<Rightarrow> bool" where
  "same_connection utf8 c d \<longleftrightarrow> hc_Handle c = dk_Handle d \<and> hc_Reconnect c = dk_Reconnect d
     \<and> hc_RetryMS c = dk_RetryMS d \<and> same_resume utf8 c d"

definition js_id :: "bool \<Rightarrow> string \<Rightarrow> js_string option" where
  "js_id ever i = (if ever then Some (js i) else None)"

definition same_parser :: "html5_client \<Rightarrow> sse_parser \<Rightarrow> bool" where
  "same_parser c p \<longleftrightarrow> hc_Data c = js (sp_Data p)
     \<and> (\<not> sp_EventPoisoned p \<longrightarrow> hc_EventName c = js (sp_Event p))
     \<and> hc_HasId c = sp_HasId p \<and> (sp_HasId p \<longrightarrow> hc_EventId c = js (sp_Id p) \<and> sp_HasIdEver p)
     \<and> hc_PendingLastEventId c = js_id (sp_HasIdEver p) (sp_Id p)
     \<and> hc_PendingAtBlockStart c = js_id (sp_HasIdEverAtBlockStart p) (sp_IdAtBlockStart p)
     \<and> hc_DropObserved c = sp_DropObserved p \<and> hc_EventPoisoned c = sp_EventPoisoned p"

definition plain_parser :: "sse_parser \<Rightarrow> bool" where
  "plain_parser p \<longleftrightarrow> ascii (sp_Data p) \<and> ascii (sp_Event p) \<and> ascii (sp_Id p) \<and> ascii (sp_IdAtBlockStart p)
     \<and> (sp_Data p \<noteq> [] \<longrightarrow> last (sp_Data p) = LF)"

text \<open>The states before or behind a line: the environments are equal.\<close>

definition related ::
  "(js_string \<Rightarrow> string) \<Rightarrow> html5_client \<times> 'e \<Rightarrow> sse_parser \<times> 'a desktop_scheme \<times> 'e \<Rightarrow> bool" where
  "related utf8 ce pde = (case (ce, pde) of ((c, e), (p, d, e')) \<Rightarrow>
     e = e' \<and> same_connection utf8 c d \<and> same_parser c p \<and> plain_parser p)"

lemma related_irrelevant [simp]:
  "related utf8 ce (p\<lparr>sp_FirstLine := b\<rparr>, de) = related utf8 ce (p, de)"
  "related utf8 ce (p\<lparr>sp_Line := l\<rparr>, de) = related utf8 ce (p, de)"
  "related utf8 ce (p\<lparr>sp_DiscardingLine := b\<rparr>, de) = related utf8 ce (p, de)"
  "related utf8 (c\<lparr>hc_DiscardLine := b\<rparr>, e) pde = related utf8 (c, e) pde"
  by (simp_all add: related_def same_connection_def same_resume_def same_parser_def plain_parser_def split: prod.split)

lemma alloc_js: "utf8_ok utf8 \<Longrightarrow> ascii s \<Longrightarrow> allocString utf8 (js s) = Some (c_str s)"
  by (simp add: allocString_def utf8_ok_def)

lemmas related_defs = related_def same_connection_def same_resume_def same_parser_def plain_parser_def

text \<open>A poisoned event.\<close>

lemma poison_related:
  assumes "utf8_ok utf8" and "ascii m" and "NUL \<notin> set m" and "related utf8 (c, e) (p, d, e')"
  shows "related utf8 (poison utf8 api m (c, e))
     (PoisonEvent p, fire_error (Some (desktop_callbacks api)) (d, e') m)"
  using assms(3,4) alloc_js [OF assms(1,2)]
  by (simp add: related_defs poison_def resetEvent_def PoisonEvent_def fire_error_def desktop_callbacks_def
      SSEDesktop_OnParserError_def callError_def SSE_Html5_OnError_def js_id_def)

text \<open>The end of a block.\<close>

lemma reset_related:
  assumes "same_connection utf8 c d" and "hc_PendingLastEventId c = js_id (sp_HasIdEver p) (sp_Id p)"
    and "hc_DropObserved c = sp_DropObserved p" and "hc_EventPoisoned c = sp_EventPoisoned p" and "ascii (sp_Id p)"
  shows "related utf8 (resetEvent c, e) (EndBlock p, d, e)"
  using assms by (simp add: related_defs resetEvent_def EndBlock_def js_id_def)

text \<open>The commit of the resume position is what the native callbacks do.\<close>

lemma commit_related:
  assumes "utf8_ok utf8" and "same_connection utf8 c d" and "hc_PendingLastEventId c = Some (js i)" and "ascii i"
    and "\<not> hc_DropObserved c"
  shows "commit_pending utf8 api (c, e) =
      (c\<lparr>hc_LastEventId := js i\<rparr>, api_SetLastEventId api (dk_Handle d) (Some (c_str i)) e)"
    and "same_connection utf8 (c\<lparr>hc_LastEventId := js i\<rparr>) (d\<lparr>dk_LastEventId := SSEDesktop_SetString (Some (c_str i))\<rparr>)"
  using assms alloc_js [OF assms(1,4)]
  by (simp_all add: commit_pending_def callLastEventId_def SSE_Html5_OnLastEventId_def same_connection_def same_resume_def
      SSEDesktop_SetString_def SSE_StrDup_def utf8_ok_def)

lemma dispatch_id_related:
  assumes u: "utf8_ok utf8" and r: "related utf8 (c, e) (p, d, e')" and "sp_Data p = []" and "\<not> sp_EventPoisoned p"
  shows "related utf8 (html5_dispatch utf8 api (c, e)) (Dispatch (Some (desktop_callbacks api)) (p, d, e'))"
proof -
  have e: "e' = e" and s: "same_connection utf8 c d" and p: "same_parser c p" and a: "ascii (sp_Id p)"
    using r by (simp_all add: related_def plain_parser_def)
  have n: "Dispatch (Some (desktop_callbacks api)) (p, d, e') =
      (EndBlock p, if sp_HasId p \<and> \<not> sp_DropObserved p
         then SSEDesktop_OnParserId api (d, e) (c_str (sp_Id p)) else (d, e))"
    using assms(3,4) e by (simp add: Dispatch_def fire_id_def desktop_callbacks_def)
  have j: "html5_dispatch utf8 api (c, e) =
      (case (if sp_HasId p then commit_pending utf8 api (c, e) else (c, e)) of (c1, e1) \<Rightarrow> (resetEvent c1, e1))"
    using p assms(3,4) by (simp add: html5_dispatch_def same_parser_def)
  show ?thesis
  proof (cases "sp_HasId p \<and> \<not> sp_DropObserved p")
    case True
    then have q: "hc_PendingLastEventId c = Some (js (sp_Id p))" "\<not> hc_DropObserved c" "sp_HasIdEver p"
      using p by (simp_all add: same_parser_def js_id_def)
    note k = commit_related [OF u s q(1) a q(2)]
    have "related utf8 (resetEvent (c\<lparr>hc_LastEventId := js (sp_Id p)\<rparr>), api_SetLastEventId api (dk_Handle d) (Some (c_str (sp_Id p))) e)
        (EndBlock p, d\<lparr>dk_LastEventId := SSEDesktop_SetString (Some (c_str (sp_Id p)))\<rparr>,
         api_SetLastEventId api (dk_Handle d) (Some (c_str (sp_Id p))) e)"
      using k(2) p a by (intro reset_related) (simp_all add: same_parser_def)
    with True show ?thesis unfolding n j k(1) by (simp add: SSEDesktop_OnParserId_def)
  next
    case False
    have "commit_pending utf8 api (c, e) = (c, e)" if "sp_HasId p"
      using that False p by (simp add: commit_pending_def same_parser_def split: option.split)
    then have "html5_dispatch utf8 api (c, e) = (resetEvent c, e)" unfolding j by simp
    moreover have "related utf8 (resetEvent c, e) (EndBlock p, d, e)"
      using s p a by (intro reset_related) (simp_all add: same_parser_def)
    ultimately show ?thesis unfolding n using False by auto
  qed
qed

lemma dispatch_event_related:
  assumes u: "utf8_ok utf8" and r: "related utf8 (c, e) (p, d, e')" and "sp_Data p \<noteq> []" and "\<not> sp_EventPoisoned p"
  shows "related utf8 (html5_dispatch utf8 api (c, e)) (Dispatch (Some (desktop_callbacks api)) (p, d, e'))"
proof -
  have e: "e' = e" and s: "same_connection utf8 c d" and p: "same_parser c p" and a: "plain_parser p"
    using r by (simp_all add: related_def)
  let ?data = "butlast (sp_Data p)" and ?name = "if sp_Event p = [] then ''message'' else sp_Event p"
    and ?i = "if sp_HasId p then sp_Id p else []"
  have asc: "ascii ?data" "ascii ?name" "ascii ?i"
    using a by (auto simp: plain_parser_def intro: ascii_subset dest: in_set_butlastD)
  obtain b e1 where m: "api_EnqueueMessage api (dk_Handle d) (Some (c_str ?name)) (Some (c_str ?data)) (Some (c_str ?i)) e = (b, e1)"
    by fastforce
  have call: "callMessage utf8 api (hc_Handle c) (if hc_EventName c \<noteq> [] then hc_EventName c else js ''message'')
      (butlast (hc_Data c)) (if hc_HasId c then hc_EventId c else []) e = (b, e1)"
  proof -
    have "(if hc_EventName c \<noteq> [] then hc_EventName c else js ''message'') = js ?name"
      "butlast (hc_Data c) = js ?data" "(if hc_HasId c then hc_EventId c else []) = js ?i" "hc_Handle c = dk_Handle d"
      using p s assms(4) by (simp_all add: same_parser_def js_parts same_connection_def)
    with m alloc_js [OF u asc(1)] alloc_js [OF u asc(2)] alloc_js [OF u asc(3)] show ?thesis
      by (simp add: callMessage_def SSE_Html5_OnMessage_def del: js_simps)
  qed
  have j: "html5_dispatch utf8 api (c, e) = (case (if b then commit_pending utf8 api (c, e1)
        else (c\<lparr>hc_PendingLastEventId := hc_PendingAtBlockStart c, hc_DropObserved := True\<rparr>, e1)) of
      (c2, e2) \<Rightarrow> (resetEvent c2, e2))"
    using p assms(3,4) call by (simp add: html5_dispatch_def same_parser_def)
  define p1 where "p1 = p\<lparr>sp_Data := ?data\<rparr>"
  define commits where "commits = (sp_HasIdEver p \<and> \<not> sp_DropObserved p)"
  define ev where "ev = BuildEvent p1 ?data"
  have "pe_Event ev = c_str ?name" "pe_Data ev = c_str ?data" "pe_Id ev = c_str ?i"
    "pe_LastEventId ev = (if commits then Some (c_str (sp_Id p)) else None)"
    by (simp_all add: ev_def BuildEvent_def p1_def commits_def)
  with m have on: "SSEDesktop_OnParserEvent api (d, e) ev = (b,
      if b \<and> commits then (d\<lparr>dk_LastEventId := SSEDesktop_SetString (Some (c_str (sp_Id p)))\<rparr>,
          api_SetLastEventId api (dk_Handle d) (Some (c_str (sp_Id p))) e1) else (d, e1))"
    by (simp add: SSEDesktop_OnParserEvent_def)
  have n: "Dispatch (Some (desktop_callbacks api)) (p, d, e') =
      (EndBlock (if b then p1 else p1\<lparr>sp_Id := sp_IdAtBlockStart p, sp_HasIdEver := sp_HasIdEverAtBlockStart p, sp_DropObserved := True\<rparr>),
       if b \<and> commits then (d\<lparr>dk_LastEventId := SSEDesktop_SetString (Some (c_str (sp_Id p)))\<rparr>,
          api_SetLastEventId api (dk_Handle d) (Some (c_str (sp_Id p))) e1) else (d, e1))"
  proof -
    have "last (sp_Data p) = LF" using a assms(3) by (simp add: plain_parser_def)
    then have "Dispatch (Some (desktop_callbacks api)) (p, d, e') =
        (case SSEDesktop_OnParserEvent api (d, e) ev of (delivered, c1) \<Rightarrow>
          (EndBlock (if \<not> delivered then p1\<lparr>sp_Id := sp_IdAtBlockStart p1,
              sp_HasIdEver := sp_HasIdEverAtBlockStart p1, sp_DropObserved := True\<rparr> else p1), c1))"
      unfolding p1_def ev_def using assms(3,4) e
      by (simp add: Dispatch_def fire_event_def desktop_callbacks_def Let_def)
    then show ?thesis unfolding on by (simp add: p1_def)
  qed
  show ?thesis
  proof (cases b)
    case False
    have "related utf8 (resetEvent (c\<lparr>hc_PendingLastEventId := hc_PendingAtBlockStart c, hc_DropObserved := True\<rparr>), e1)
       (EndBlock (p1\<lparr>sp_Id := sp_IdAtBlockStart p, sp_HasIdEver := sp_HasIdEverAtBlockStart p, sp_DropObserved := True\<rparr>), d, e1)"
      using s p a by (intro reset_related) (simp_all add: same_parser_def plain_parser_def same_connection_def same_resume_def p1_def)
    with False show ?thesis unfolding n j by simp
  next
    case b: True
    show ?thesis
    proof (cases commits)
      case True
      then have q: "hc_PendingLastEventId c = Some (js (sp_Id p))" "\<not> hc_DropObserved c"
        using p by (simp_all add: same_parser_def js_id_def commits_def)
      have i: "ascii (sp_Id p)" using a by (simp add: plain_parser_def)
      note k = commit_related [OF u s q(1) i q(2)]
      have "related utf8 (resetEvent (c\<lparr>hc_LastEventId := js (sp_Id p)\<rparr>), api_SetLastEventId api (dk_Handle d) (Some (c_str (sp_Id p))) e1)
        (EndBlock p1, d\<lparr>dk_LastEventId := SSEDesktop_SetString (Some (c_str (sp_Id p)))\<rparr>,
         api_SetLastEventId api (dk_Handle d) (Some (c_str (sp_Id p))) e1)"
        using k(2) p i by (intro reset_related) (simp_all add: same_parser_def p1_def)
      with True b show ?thesis unfolding n j k(1) by simp
    next
      case False
      then have "commit_pending utf8 api (c, e1) = (c, e1)"
        using p by (auto simp: commit_pending_def same_parser_def js_id_def commits_def)
      moreover have "related utf8 (resetEvent c, e1) (EndBlock p1, d, e1)"
        using s p a by (intro reset_related) (simp_all add: same_parser_def plain_parser_def p1_def)
      ultimately show ?thesis using b False unfolding n j by simp
    qed
  qed
qed

lemma dispatch_related:
  assumes "utf8_ok utf8" and r: "related utf8 (c, e) (p, d, e')"
  shows "related utf8 (html5_dispatch utf8 api (c, e)) (Dispatch (Some (desktop_callbacks api)) (p, d, e'))"
proof (cases "sp_EventPoisoned p")
  case True
  have "related utf8 (resetEvent (c\<lparr>hc_EventPoisoned := False\<rparr>), e) (EndBlock (p\<lparr>sp_EventPoisoned := False\<rparr>), d, e)"
    using r by (intro reset_related) (simp_all add: related_defs)
  with True r show ?thesis by (simp add: html5_dispatch_def Dispatch_def related_def same_parser_def)
next
  case False
  with assms show ?thesis by (cases "sp_Data p = []") (simp_all add: dispatch_id_related dispatch_event_related)
qed

section \<open>Lines\<close>

lemma clamp_related: "v \<noteq> [] \<Longrightarrow> list_all isdigit v \<Longrightarrow> html5_clamp (js_parseInt (js v)) = ClampRetry LONG_MAX v"
  by (simp add: ClampRetry_digits LONG_MAX_def js_parseInt_js html5_clamp_def html5_retryMinMs_def html5_retryMaxMs_def)

lemma field_related:
  assumes u: "utf8_ok utf8" and r: "related utf8 (c, e) (p, d, e')" and "ascii v" and "\<not> sp_EventPoisoned p"
  shows "related utf8 (html5_field utf8 api (js f) (js v) (c, e))
    (ProcessField (Some (desktop_callbacks api)) f v (p, d, e'))"
proof -
  have max: "html5_maxBuffer = SSE_PARSER_MAX_BUFFER" by (simp add: html5_maxBuffer_def SSE_PARSER_MAX_BUFFER_def)
  have len: "length (hc_Data c) = length (sp_Data p)" using r by (simp add: related_def same_parser_def)
  consider "f = ''data''" | "f = ''event''" | "f = ''id''" | "f = ''retry''"
    | "f \<noteq> ''data''" "f \<noteq> ''event''" "f \<noteq> ''id''" "f \<noteq> ''retry''" by blast
  then show ?thesis
  proof cases
    case 1
    have P: "related utf8 (poison utf8 api ''SSE event data exceeded maximum buffer size'' (c, e))
        (PoisonEvent p, fire_error (Some (desktop_callbacks api)) (d, e') ''SSE event data exceeded maximum buffer size'')"
      by (rule poison_related [OF u _ _ r]) (simp_all add: ascii_def)
    have D: "related utf8 (c\<lparr>hc_Data := hc_Data c @ js v @ js [LF]\<rparr>, e) (p\<lparr>sp_Data := sp_Data p @ v @ [LF]\<rparr>, d, e')"
      using r assms(3,4) by (simp add: related_defs)
    show ?thesis
      using P D len max 1 by (simp add: html5_field_def ProcessField_def del: js_simps js_inj add: js_simps(4))
  next
    case 2
    have "related utf8 (c\<lparr>hc_EventName := js v\<rparr>, e) (p\<lparr>sp_Event := v\<rparr>, d, e')"
      using r assms(3) by (simp add: related_defs)
    with 2 show ?thesis by (simp add: html5_field_def ProcessField_def del: js_simps)
  next
    case 3
    have "related utf8 (c\<lparr>hc_EventId := js v, hc_HasId := True, hc_PendingLastEventId := Some (js v)\<rparr>, e)
        (p\<lparr>sp_Id := v, sp_HasId := True, sp_HasIdEver := True\<rparr>, d, e')"
      using r assms(3) by (simp add: related_defs js_id_def)
    with 3 show ?thesis by (simp add: html5_field_def ProcessField_def del: js_simps)
  next
    case 4
    have "related utf8 (c\<lparr>hc_RetryMS := ClampRetry LONG_MAX v\<rparr>, e) (p, d\<lparr>dk_RetryMS := ClampRetry LONG_MAX v\<rparr>, e')"
      using r by (simp add: related_defs)
    with 4 r show ?thesis
      by (simp add: html5_field_def ProcessField_def js_digits_js clamp_related fire_retry_def desktop_callbacks_def
          SSEDesktop_OnParserRetry_def del: js_simps)
  next
    case 5
    with r show ?thesis by (simp add: html5_field_def ProcessField_def del: js_simps)
  qed
qed

lemma StripBOM_ascii: "ascii l \<Longrightarrow> StripBOM l = l"
  by (cases l) (auto simp: StripBOM_def)

lemma line_related:
  assumes u: "utf8_ok utf8" and r: "related utf8 (c, e) (p, d, e')" and a: "ascii l"
  shows "related utf8 (html5_processLine utf8 api (js l) (c, e)) (ProcessLine (Some (desktop_callbacks api)) l (p, d, e'))"
proof -
  let ?l = "StripCR l" and ?p = "p\<lparr>sp_FirstLine := False\<rparr>" and ?cbs = "Some (desktop_callbacks api)"
  have line: "(if js l \<noteq> [] \<and> last (js l) = 13 then butlast (js l) else js l) = js ?l"
    by (auto simp: StripCR_def js_ends js_parts unit_eqs)
  have al: "ascii ?l" using a by (auto simp: StripCR_def intro: ascii_subset dest: in_set_butlastD)
  have n: "ProcessLine ?cbs l (p, d, e') = HandleLine ?cbs ?l (?p, d, e')"
    using a by (simp add: ProcessLine_def StripBOM_ascii)
  have r1: "related utf8 (c, e) (?p, d, e')" using r by simp
  have po: "hc_EventPoisoned c = sp_EventPoisoned p" using r by (simp add: related_def same_parser_def)
  define colon where "colon = find_char CHR '':'' ?l"
  define f where "f = (case colon of None \<Rightarrow> ?l | Some k \<Rightarrow> take k ?l)"
  define w where "w = (case colon of None \<Rightarrow> [] | Some k \<Rightarrow> drop (Suc k) ?l)"
  define v where "v = (if w \<noteq> [] \<and> hd w = CHR '' '' then tl w else w)"
  have fv: "SplitField ?l = (f, v)"
    unfolding SplitField_def colon_def [symmetric] f_def w_def v_def Let_def
    by (cases colon) simp_all
  have aw: "ascii w"
    by (rule ascii_subset [OF al]) (auto simp: w_def split: option.splits dest: in_set_dropD)
  have "set (tl w) \<subseteq> set w" by (cases w) auto
  with aw have av: "ascii v" by (auto simp: v_def intro: ascii_subset)
  have jf: "(case js_indexOf 58 (js ?l) of None \<Rightarrow> js ?l | Some k \<Rightarrow> take k (js ?l)) = js f"
    by (cases colon) (simp_all add: js_indexOf_js colon_def [symmetric] f_def js_parts)
  have jw: "(case js_indexOf 58 (js ?l) of None \<Rightarrow> [] | Some k \<Rightarrow> drop (Suc k) (js ?l)) = js w"
    by (cases colon) (simp_all add: js_indexOf_js colon_def [symmetric] w_def js_parts)
  have jv: "(if js w \<noteq> [] \<and> hd (js w) = 32 then tl (js w) else js w) = js v"
    by (auto simp: v_def js_ends js_parts unit_eqs)
  have P: "html5_processLine utf8 api (js l) (c, e) = (if ?l = [] then html5_dispatch utf8 api (c, e)
      else if sp_EventPoisoned p then (c, e) else if hd ?l = CHR '':'' then (c, e)
      else html5_field utf8 api (js f) (js v) (c, e))"
    unfolding html5_processLine_def Let_def line jf jw jv using po
    by (cases "?l = []") (simp_all add: js_ends unit_eqs)
  have Q: "HandleLine ?cbs ?l (?p, d, e') = (if ?l = [] then Dispatch ?cbs (?p, d, e')
      else if sp_EventPoisoned p then (?p, d, e') else if hd ?l = CHR '':'' then (?p, d, e')
      else ProcessField ?cbs f v (?p, d, e'))"
    using fv by (simp add: HandleLine_def)
  have F: "related utf8 (html5_field utf8 api (js f) (js v) (c, e)) (ProcessField ?cbs f v (?p, d, e'))"
    if "\<not> sp_EventPoisoned p"
    using field_related [OF u r1 av, of api f] that by simp
  show ?thesis
    unfolding n P Q using F r1 dispatch_related [OF u r1, of api] by (simp only: split: if_split) blast
qed

section \<open>The body\<close>

lemma commit_discard: "hc_DiscardLine (fst (commit_pending utf8 api ce)) = hc_DiscardLine (fst ce)"
  by (auto simp: commit_pending_def split: prod.split option.split)

lemma poison_discard: "hc_DiscardLine (fst (poison utf8 api m ce)) = hc_DiscardLine (fst ce)"
  by (simp add: poison_def resetEvent_def split: prod.split)

lemma dispatch_discard: "hc_DiscardLine (fst (html5_dispatch utf8 api ce)) = hc_DiscardLine (fst ce)"
proof -
  have "commit_pending utf8 api (c, e) = (c1, e1) \<Longrightarrow> hc_DiscardLine c1 = hc_DiscardLine c" for c e c1 e1
    using commit_discard [of utf8 api "(c, e)"] by simp
  then show ?thesis
    by (auto simp: html5_dispatch_def resetEvent_def split: prod.splits)
qed

lemma processLine_discard: "hc_DiscardLine (fst (html5_processLine utf8 api l ce)) = hc_DiscardLine (fst ce)"
proof -
  have "hc_DiscardLine (fst (html5_field utf8 api f v ce)) = hc_DiscardLine (fst ce)" for f v
    using poison_discard [of utf8 api _ ce] by (cases ce) (simp add: html5_field_def)
  then show ?thesis by (simp add: html5_processLine_def Let_def dispatch_discard)
qed

lemma ProcessLine_discard: "sp_DiscardingLine (fst (ProcessLine cbs l pc)) = sp_DiscardingLine (fst pc)"
proof -
  have D: "sp_DiscardingLine (fst (Dispatch cbs q)) = sp_DiscardingLine (fst q)" for q
    by (auto simp: Dispatch_def EndBlock_def Let_def split: prod.splits)
  have F: "sp_DiscardingLine (fst (ProcessField cbs f v q)) = sp_DiscardingLine (fst q)" for f v q
    by (auto simp: ProcessField_def PoisonEvent_def split: prod.split)
  show ?thesis
    by (auto simp: ProcessLine_def HandleLine_def D F split: prod.split)
qed

definition synced ::
  "(js_string \<Rightarrow> string) \<Rightarrow> js_string \<times> html5_client \<times> 'e \<Rightarrow> sse_parser \<times> 'a desktop_scheme \<times> 'e \<Rightarrow> bool" where
  "synced utf8 pce pde \<longleftrightarrow> related utf8 (snd pce) pde
     \<and> hc_DiscardLine (fst (snd pce)) = sp_DiscardingLine (fst pde)
     \<and> (if sp_DiscardingLine (fst pde) then sp_Line (fst pde) = []
        else fst pce = js (sp_Line (fst pde)) \<and> ascii (sp_Line (fst pde)) \<and> length (fst pce) \<le> html5_maxBuffer)"

text \<open>The JavaScript loop, one code unit at a time.\<close>

definition js_unit ::
  "(js_string \<Rightarrow> string) \<Rightarrow> 'e sse_api \<Rightarrow> 16 word \<Rightarrow> js_string \<times> html5_client \<times> 'e \<Rightarrow> js_string \<times> html5_client \<times> 'e" where
  "js_unit utf8 api u pce =
     (if u = 10 then ([], html5_line utf8 api (fst pce) (snd pce)) else (fst pce @ [u], snd pce))"

lemma js_lines_free: "10 \<notin> set p \<Longrightarrow> js_lines p = [p]"
  by (induction p) auto

lemma js_lines_append: "10 \<notin> set p \<Longrightarrow> js_lines (p @ 10 # us) = p # js_lines us"
  by (induction p) auto

lemma js_lines_not_Nil [simp]: "js_lines us \<noteq> []"
  by (cases us) (auto split: list.split)

lemma lines_units:
  "10 \<notin> set p \<Longrightarrow>
   (last (js_lines (p @ us)), fold (html5_line utf8 api) (butlast (js_lines (p @ us))) ce) = fold (js_unit utf8 api) us (p, ce)
   \<and> 10 \<notin> set (last (js_lines (p @ us)))"
proof (induction us arbitrary: p ce)
  case Nil
  then show ?case by (simp add: js_lines_free)
next
  case (Cons u us)
  show ?case
  proof (cases "u = 10")
    case True
    with Cons.prems Cons.IH [of "[]" "html5_line utf8 api p ce"] show ?thesis
      by (simp add: js_lines_append js_unit_def)
  next
    case False
    with Cons.prems Cons.IH [of "p @ [u]" ce] show ?thesis by (simp add: js_unit_def)
  qed
qed

lemma cap_simps:
  "length p \<le> html5_maxBuffer \<Longrightarrow> html5_cap utf8 api (p, ce) = (p, ce)"
  "\<not> length p \<le> html5_maxBuffer \<Longrightarrow> hc_DiscardLine (fst ce) \<Longrightarrow> html5_cap utf8 api (p, ce) = ([], ce)"
  "\<not> length p \<le> html5_maxBuffer \<Longrightarrow> \<not> hc_DiscardLine (fst ce) \<Longrightarrow> html5_cap utf8 api (p, ce) =
     ([], (case poison utf8 api ''SSE line exceeded maximum buffer size'' ce of (c, e) \<Rightarrow> (c\<lparr>hc_DiscardLine := True\<rparr>, e)))"
  by (simp_all add: html5_cap_def)

lemma synced_discarding:
  "sp_DiscardingLine p \<Longrightarrow> synced utf8 (x, ce) (p, de) \<longleftrightarrow>
     related utf8 ce (p, de) \<and> hc_DiscardLine (fst ce) \<and> sp_Line p = []"
  by (auto simp: synced_def)

lemma synced_reading:
  "\<not> sp_DiscardingLine p \<Longrightarrow> synced utf8 (x, ce) (p, de) \<longleftrightarrow>
     related utf8 ce (p, de) \<and> \<not> hc_DiscardLine (fst ce) \<and> x = js (sp_Line p) \<and> ascii (sp_Line p)
     \<and> length x \<le> html5_maxBuffer"
  by (auto simp: synced_def)

lemma synced_cap: "synced utf8 pce pde \<Longrightarrow> synced utf8 (html5_cap utf8 api pce) pde"
  by (cases pce; cases pde) (auto simp: html5_cap_def synced_def)

lemma related_discard [simp]: "related utf8 ((fst ce)\<lparr>hc_DiscardLine := b\<rparr>, snd ce) pde = related utf8 ce pde"
  by (cases ce) simp

text \<open>One unit and one byte; the check of the pending line may come later in JavaScript.\<close>

lemma unit_synced:
  assumes u: "utf8_ok utf8" and b: "(of_char b :: nat) < 128"
    and s: "synced utf8 (html5_cap utf8 api (x, c, e)) (p, d, e')"
  shows "synced utf8 (html5_cap utf8 api (js_unit utf8 api (word_of_nat (of_char b)) (x, c, e)))
    (FeedByte (Some (desktop_callbacks api)) b (p, d, e'))"
proof -
  let ?m = "''SSE line exceeded maximum buffer size''" and ?cbs = "Some (desktop_callbacks api)"
  have max: "SSE_PARSER_MAX_BUFFER = html5_maxBuffer" by (simp add: html5_maxBuffer_def SSE_PARSER_MAX_BUFFER_def)
  consider (discard) "hc_DiscardLine c" | (long) "\<not> hc_DiscardLine c" "\<not> length x \<le> html5_maxBuffer"
    | (short) "\<not> hc_DiscardLine c" "length x \<le> html5_maxBuffer" by blast
  then show ?thesis
  proof cases
    case discard
    have r: "related utf8 (c, e) (p, d, e')" and p: "sp_DiscardingLine p" "sp_Line p = []"
      using s discard by (cases "length x \<le> html5_maxBuffer"; auto simp: cap_simps synced_def)+
    show ?thesis
    proof (cases "b = LF")
      case True
      with r p discard show ?thesis
        by (simp add: js_unit_def html5_line_def FeedByte_def cap_simps synced_reading)
    next
      case False
      then have "js_unit utf8 api (word_of_nat (of_char b)) (x, c, e) = (x @ [word_of_nat (of_char b)], c, e)"
        by (simp add: js_unit_def unit_eqs)
      with False r p discard show ?thesis
        by (cases "length (x @ [word_of_nat (of_char b)]) \<le> html5_maxBuffer")
          (simp_all add: FeedByte_def cap_simps synced_discarding)
    qed
  next
    case long
    obtain c1 e1 where P: "poison utf8 api ?m (c, e) = (c1, e1)" by fastforce
    have c1: "\<not> hc_DiscardLine c1" using poison_discard [of utf8 api ?m "(c, e)"] P long by simp
    have cap: "html5_cap utf8 api (x, c, e) = ([], c1\<lparr>hc_DiscardLine := True\<rparr>, e1)"
      using long P by (simp add: cap_simps)
    have p: "sp_DiscardingLine p"
      using s unfolding cap by (simp add: synced_def)
    then have r: "related utf8 (c1, e1) (p, d, e')" "sp_Line p = []"
      using s unfolding cap by (simp_all add: synced_discarding)
    show ?thesis
    proof (cases "b = LF")
      case True
      with r p P c1 long show ?thesis
        by (simp add: js_unit_def html5_line_def FeedByte_def cap_simps synced_reading)
    next
      case False
      have "html5_cap utf8 api (x @ [word_of_nat (of_char b)], c, e) = ([], c1\<lparr>hc_DiscardLine := True\<rparr>, e1)"
        using long P by (simp add: cap_simps)
      with False r p show ?thesis by (simp add: js_unit_def unit_eqs FeedByte_def synced_discarding)
    qed
  next
    case short
    have p: "\<not> sp_DiscardingLine p" using s short by (simp add: cap_simps synced_def)
    then have r: "related utf8 (c, e) (p, d, e')" and x: "x = js (sp_Line p)" "ascii (sp_Line p)"
      using s short by (simp_all add: cap_simps synced_reading)
    show ?thesis
    proof (cases "b = LF")
      case True
      obtain p1 d1 e1 where L: "ProcessLine ?cbs (sp_Line p) (p, d, e') = (p1, d1, e1)" by (metis prod_cases3)
      have "related utf8 (html5_processLine utf8 api x (c, e)) (p1, d1, e1)"
        using line_related [OF u r x(2), of api] L x by simp
      moreover have "\<not> sp_DiscardingLine p1" using ProcessLine_discard [of ?cbs "sp_Line p" "(p, d, e')"] L p by simp
      moreover have "\<not> hc_DiscardLine (fst (html5_processLine utf8 api x (c, e)))"
        using short by (simp add: processLine_discard)
      ultimately show ?thesis
        using True short p L by (simp add: js_unit_def html5_line_def FeedByte_def cap_simps synced_reading)
    next
      case False
      let ?p = "p\<lparr>sp_Line := sp_Line p @ [b]\<rparr>"
      have xb: "x @ [word_of_nat (of_char b)] = js (sp_Line p @ [b])" using x by simp
      show ?thesis
      proof (cases "length (sp_Line p @ [b]) \<le> html5_maxBuffer")
        case True
        with False r x b p short xb show ?thesis
          by (simp add: js_unit_def unit_eqs FeedByte_def cap_simps synced_reading max)
      next
        case over: False
        let ?q = "p\<lparr>sp_Line := [], sp_DiscardingLine := True\<rparr>"
        obtain c1 e1 where P: "poison utf8 api ?m (c, e) = (c1, e1)" by fastforce
        have "related utf8 (poison utf8 api ?m (c, e)) (PoisonEvent ?q, fire_error ?cbs (d, e') ?m)"
          by (rule poison_related [OF u]) (use r in \<open>simp_all add: ascii_def\<close>)
        moreover have "html5_cap utf8 api (x @ [word_of_nat (of_char b)], c, e) = ([], c1\<lparr>hc_DiscardLine := True\<rparr>, e1)"
          using over x short P by (simp add: cap_simps)
        moreover have "FeedByte ?cbs b (p, d, e') = (PoisonEvent ?q, fire_error ?cbs (d, e') ?m)"
          using False p over by (simp add: FeedByte_def max Let_def)
        ultimately show ?thesis
          using False P by (simp add: js_unit_def unit_eqs synced_def PoisonEvent_def)
      qed
    qed
  qed
qed

lemma units_synced:
  assumes u: "utf8_ok utf8"
  shows "ascii bytes \<Longrightarrow> synced utf8 (html5_cap utf8 api pce) pde \<Longrightarrow>
    synced utf8 (html5_cap utf8 api (fold (js_unit utf8 api) (js bytes) pce)) (Feed (Some (desktop_callbacks api)) bytes pde)"
proof (induction bytes arbitrary: pce pde)
  case (Cons b bytes)
  obtain x c e where pce: "pce = (x, c, e)" by (metis prod_cases3)
  obtain p d e' where pde: "pde = (p, d, e')" by (metis prod_cases3)
  from Cons.prems(1) have b: "(of_char b :: nat) < 128" and bs: "ascii bytes" by simp_all
  from Cons.IH [OF bs unit_synced [OF u b Cons.prems(2) [unfolded pce pde]]] show ?case
    by (simp add: pce pde)
qed simp

lemma chunks_synced:
  assumes u: "utf8_ok utf8"
  shows "list_all ascii chunks \<Longrightarrow> 10 \<notin> set (fst pce) \<Longrightarrow> synced utf8 pce pde \<Longrightarrow>
    synced utf8 (fold (html5_chunk utf8 api) (map js chunks) pce)
      (Feed (Some (desktop_callbacks api)) (concat chunks) pde)"
proof (induction chunks arbitrary: pce pde)
  case (Cons chunk chunks)
  obtain x ce where pce: "pce = (x, ce)" by (cases pce)
  let ?pce = "html5_chunk utf8 api (js chunk) pce"
  have x: "10 \<notin> set x" using Cons.prems(2) pce by simp
  have l: "10 \<notin> set (last (js_lines (x @ js chunk)))" using lines_units [OF x] by blast
  have "?pce = html5_cap utf8 api (fold (js_unit utf8 api) (js chunk) pce)"
    using lines_units [OF x, of "js chunk" utf8 api ce] by (simp add: html5_chunk_def pce Let_def)
  then have "synced utf8 ?pce (Feed (Some (desktop_callbacks api)) chunk pde)"
    using units_synced [OF u _ synced_cap [OF Cons.prems(3)]] Cons.prems(1) by simp
  moreover have "10 \<notin> set (fst ?pce)"
    using l by (auto simp: html5_chunk_def pce Let_def html5_cap_def split: prod.split)
  ultimately show ?case
    using Cons.IH [of ?pce] Cons.prems(1) by (simp add: Feed_append)
qed simp

lemma same_run_from:
  assumes "utf8_ok utf8" and "list_all ascii chunks" and "synced utf8 ([], c, e) (SSEParser_new, d, e)" and "dk_Parser d = SSEParser_new"
    and J: "fold (html5_chunk utf8 api) (map js chunks) ([], c, e) = (x, c1, e1)"
  shows "\<exists>d1. FeedParser api (concat chunks) (d, e) = (d1, e1) \<and> same_connection utf8 c1 d1"
proof -
  obtain p d1 e2 where F: "Feed (Some (desktop_callbacks api)) (concat chunks) (SSEParser_new, d, e) = (p, d1, e2)"
    by (metis prod_cases3)
  from chunks_synced [OF assms(1,2) _ assms(3), of api] have "related utf8 (c1, e1) (p, d1, e2)"
    unfolding F J by (simp add: synced_def)
  moreover have "FeedParser api (concat chunks) (d, e) = (d1\<lparr>dk_Parser := p\<rparr>, e2)"
    using F assms(4) by (simp add: FeedParser_def)
  ultimately show ?thesis
    by (auto simp: related_def same_connection_def same_resume_def)
qed

lemma fresh_synced:
  "same_connection utf8 c d \<Longrightarrow> synced utf8 ([], html5_fresh c, e) (SSEParser_new, d, e)"
  by (simp add: synced_def related_defs html5_fresh_def resetEvent_def SSEParser_new_def js_id_def)

lemma synced_members [simp]:
  "synced utf8 (x, c\<lparr>hc_GotResponse := b\<rparr>, e) pde = synced utf8 (x, c, e) pde"
  "synced utf8 (x, c\<lparr>hc_FailedAttempts := n\<rparr>, e) pde = synced utf8 (x, c, e) pde"
  "synced utf8 (x, c\<lparr>hc_FirstResponseTimedOut := b\<rparr>, e) pde = synced utf8 (x, c, e) pde"
  by (simp_all add: synced_def related_defs)

lemma same_run:
  assumes "utf8_ok utf8" and "list_all ascii chunks" and "same_connection utf8 c d" and "dk_Parser d = SSEParser_new"
    and J: "fold (html5_chunk utf8 api) (map js chunks) ([], html5_fresh c, e) = (x, c1, e1)"
  shows "\<exists>d1. FeedParser api (concat chunks) (d, e) = (d1, e1) \<and> same_connection utf8 c1 d1"
  by (rule same_run_from [OF assms(1,2) fresh_synced [OF assms(3)] assms(4) J])

text \<open>No line feed waits for more, so a line feed behind the stream ends the line that does.\<close>

lemma chunks_pending:
  "10 \<notin> set (fst pce) \<Longrightarrow> 10 \<notin> set (fst (fold (html5_chunk utf8 api) chunks pce))"
proof (induction chunks arbitrary: pce)
  case (Cons chunk chunks)
  obtain x ce where pce: "pce = (x, ce)" by (cases pce)
  have "10 \<notin> set (last (js_lines (x @ chunk)))" using lines_units Cons.prems pce by fastforce
  then have "10 \<notin> set (fst (html5_chunk utf8 api chunk pce))"
    by (auto simp: html5_chunk_def pce Let_def html5_cap_def split: prod.split)
  then show ?case by (simp add: Cons.IH)
qed simp

lemma flush_is_line_feed:
  assumes "10 \<notin> set pending" and "pending \<noteq> []" and "\<not> hc_DiscardLine (fst ce)"
  shows "html5_chunk utf8 api (js [LF]) (pending, ce) = ([], html5_flush utf8 api [] (pending, ce))"
  using assms by (simp add: html5_chunk_def html5_cap_def html5_flush_def html5_line_def Let_def js_lines_append)

text \<open>
  C5. The parser written in JavaScript agrees with the native one: on any ASCII stream, cut into any pieces, oversized lines and
  events and dropped events included, both make the same calls of the core in the same order, and end with
  the same reconnect delay and the same position to resume from.
\<close>
theorem html5_parser_equivalent:
  assumes "utf8_ok utf8" and "list_all ascii chunks" and "same_connection utf8 c d" and "dk_Parser d = SSEParser_new"
  shows "case (fold (html5_chunk utf8 api) (map js chunks) ([], html5_fresh c, e), FeedParser api (concat chunks) (d, e)) of
    ((pending, c1, e1), (d1, e2)) \<Rightarrow> e1 = e2 \<and> same_connection utf8 c1 d1"
proof -
  obtain x c1 e1 where J: "fold (html5_chunk utf8 api) (map js chunks) ([], html5_fresh c, e) = (x, c1, e1)"
    by (metis prod_cases3)
  with same_run [OF assms J] show ?thesis by auto
qed

text \<open>
  C38. The end of an ASCII stream, for which the text decoder holds nothing back, is where the platforms differ, and how: the
  HTML5 client makes the calls that the native parser
  would make if a line feed followed an unfinished last line, which the native transports throw away.
\<close>
theorem html5_end_of_stream:
  assumes "utf8_ok utf8" and "list_all ascii chunks" and "same_connection utf8 c d" and "dk_Parser d = SSEParser_new"
    and "fold (html5_chunk utf8 api) (map js chunks) ([], html5_fresh c, e) = (pending, c1, e1)"
  shows "snd (html5_flush utf8 api [] (pending, c1, e1)) =
    snd (FeedParser api (concat chunks @ (if pending \<noteq> [] \<and> \<not> hc_DiscardLine c1 then [LF] else [])) (d, e))"
proof (cases "pending \<noteq> [] \<and> \<not> hc_DiscardLine c1")
  case True
  obtain c2 e2 where F: "html5_flush utf8 api [] (pending, c1, e1) = (c2, e2)" by fastforce
  have "10 \<notin> set pending" using chunks_pending [of "([], html5_fresh c, e)" utf8 api "map js chunks"] assms(5) by simp
  with True F have "fold (html5_chunk utf8 api) (map js (chunks @ [[LF]])) ([], html5_fresh c, e) = ([], c2, e2)"
    using assms(5) flush_is_line_feed [of pending "(c1, e1)" utf8 api] by simp
  from same_run [OF assms(1) _ assms(3,4) this] assms(2) True F show ?thesis by auto
next
  case False
  with same_run [OF assms] show ?thesis by (auto simp: html5_flush_def)
qed

end
