(* ===== verification/Html5ClientProps.thy ===== *)
theory Html5ClientProps
  imports Html5Client Html5Parser WorkerLog
begin

text \<open>
  The HTML5 client as a whole: the protocol of what it reports, over any number of attempts.
\<close>

section \<open>The protocol\<close>

definition client_phase :: "int \<Rightarrow> phase \<Rightarrow> html5_client \<times> api_call list \<Rightarrow> bool" where
  "client_phase h ph ce \<longleftrightarrow> hc_Handle (fst ce) = h \<and> proto True h Waiting (snd ce) = Some ph"

text \<open>What the parser may do while a stream is open.\<close>

lemma poison_phase:
  "client_phase h Streaming ce \<Longrightarrow> client_phase h Streaming (poison utf8 (log_api reply) m ce)"
  by (cases ce)
    (simp add: client_phase_def poison_def resetEvent_def callError_def SSE_Html5_OnError_def proto_append)

lemma commit_phase:
  "client_phase h Streaming ce \<Longrightarrow> client_phase h Streaming (commit_pending utf8 (log_api reply) ce)"
  by (cases ce)
    (simp add: client_phase_def commit_pending_def callLastEventId_def SSE_Html5_OnLastEventId_def proto_append
      split: option.split)

lemma message_phase:
  assumes "client_phase h Streaming (c, e)" and "callMessage utf8 (log_api reply) (hc_Handle c) name data i e = (b, e1)"
    and "hc_Handle c1 = hc_Handle c"
  shows "client_phase h Streaming (c1, e1)"
  using assms by (auto simp: client_phase_def callMessage_def SSE_Html5_OnMessage_def proto_append split: prod.splits)

lemma client_phase_reset [simp]: "client_phase h ph (resetEvent c, e) = client_phase h ph (c, e)"
  by (simp add: client_phase_def resetEvent_def)

lemma client_phase_members [simp]:
  "client_phase h ph (c\<lparr>hc_EventPoisoned := b\<rparr>, e) = client_phase h ph (c, e)"
  "client_phase h ph (c\<lparr>hc_DiscardLine := b\<rparr>, e) = client_phase h ph (c, e)"
  "client_phase h ph (c\<lparr>hc_Data := x\<rparr>, e) = client_phase h ph (c, e)"
  "client_phase h ph (c\<lparr>hc_EventName := x\<rparr>, e) = client_phase h ph (c, e)"
  "client_phase h ph (c\<lparr>hc_EventId := x, hc_HasId := b, hc_PendingLastEventId := y\<rparr>, e) = client_phase h ph (c, e)"
  "client_phase h ph (c\<lparr>hc_RetryMS := n\<rparr>, e) = client_phase h ph (c, e)"
  "client_phase h ph (c\<lparr>hc_GotResponse := b\<rparr>, e) = client_phase h ph (c, e)"
  "client_phase h ph (c\<lparr>hc_FailedAttempts := k\<rparr>, e) = client_phase h ph (c, e)"
  "client_phase h ph ((html5_fresh c)\<lparr>hc_FirstResponseTimedOut := b\<rparr>, e) = client_phase h ph (c, e)"
  by (simp_all add: client_phase_def html5_fresh_def resetEvent_def)

lemma dispatch_phase:
  assumes "client_phase h Streaming (c, e)"
  shows "client_phase h Streaming (html5_dispatch utf8 (log_api reply) (c, e))"
proof -
  have commit: "client_phase h Streaming (resetEvent c2, e2)"
    if "commit_pending utf8 (log_api reply) (c1, e1) = (c2, e2)" "client_phase h Streaming (c1, e1)" for c1 c2 e1 e2
    using commit_phase [OF that(2), of utf8 reply] that(1) by simp
  have message: "client_phase h Streaming
      (case (if b then commit_pending utf8 (log_api reply) (c, e1) else (c\<lparr>hc_PendingLastEventId := x, hc_DropObserved := True\<rparr>, e1)) of
         (c2, e2) \<Rightarrow> (resetEvent c2, e2))"
    if "callMessage utf8 (log_api reply) (hc_Handle c) name data i e = (b, e1)" for name data i b e1 x
  proof (cases b)
    case True
    obtain c2 e2 where "commit_pending utf8 (log_api reply) (c, e1) = (c2, e2)" by fastforce
    with True commit [OF this message_phase [OF assms that refl]] show ?thesis by simp
  next
    case False
    with message_phase [OF assms that, of "c\<lparr>hc_PendingLastEventId := x, hc_DropObserved := True\<rparr>"] show ?thesis by simp
  qed
  consider "hc_EventPoisoned c" | "\<not> hc_EventPoisoned c" "hc_Data c = []" | "\<not> hc_EventPoisoned c" "hc_Data c \<noteq> []" by blast
  then show ?thesis
  proof cases
    case 1
    with assms show ?thesis by (simp add: html5_dispatch_def)
  next
    case 2
    obtain c2 e2 where "commit_pending utf8 (log_api reply) (c, e) = (c2, e2)" by fastforce
    with 2 assms commit [OF this assms] show ?thesis by (simp add: html5_dispatch_def)
  next
    case 3
    let ?name = "if hc_EventName c \<noteq> [] then hc_EventName c else js ''message''"
      and ?i = "if hc_HasId c then hc_EventId c else []"
    obtain b e1 where m: "callMessage utf8 (log_api reply) (hc_Handle c) ?name (butlast (hc_Data c)) ?i e = (b, e1)" by fastforce
    have "html5_dispatch utf8 (log_api reply) (c, e) =
        (case (if b then commit_pending utf8 (log_api reply) (c, e1)
           else (c\<lparr>hc_PendingLastEventId := hc_PendingAtBlockStart c, hc_DropObserved := True\<rparr>, e1)) of
         (c2, e2) \<Rightarrow> (resetEvent c2, e2))"
      unfolding html5_dispatch_def prod.case m using 3 by simp
    with message [OF m] show ?thesis by metis
  qed
qed

lemma processLine_phase:
  assumes "client_phase h Streaming ce"
  shows "client_phase h Streaming (html5_processLine utf8 (log_api reply) l ce)"
proof -
  obtain c e where ce: "ce = (c, e)" by fastforce
  have "client_phase h Streaming (html5_field utf8 (log_api reply) f v ce)" for f v
    using assms poison_phase [OF assms, of utf8 reply] by (simp add: ce html5_field_def)
  with assms dispatch_phase [of h c e utf8 reply] show ?thesis
    by (simp add: ce html5_processLine_def Let_def)
qed

lemma line_phase:
  "client_phase h Streaming ce \<Longrightarrow> client_phase h Streaming (html5_line utf8 (log_api reply) l ce)"
  by (cases ce) (simp add: html5_line_def poison_phase processLine_phase)

lemma chunk_phase:
  assumes "client_phase h Streaming (snd pce)"
  shows "client_phase h Streaming (snd (html5_chunk utf8 (log_api reply) text pce))"
proof -
  have lines: "client_phase h Streaming ce \<Longrightarrow> client_phase h Streaming (fold (html5_line utf8 (log_api reply)) ls ce)" for ls ce
    by (induction ls arbitrary: ce) (simp_all add: line_phase)
  have cap: "client_phase h Streaming ce \<Longrightarrow> client_phase h Streaming (snd (html5_cap utf8 (log_api reply) (p, ce)))" for p ce
  proof -
    let ?m = "''SSE line exceeded maximum buffer size''"
    assume ce: "client_phase h Streaming ce"
    obtain c1 e1 where P: "poison utf8 (log_api reply) ?m ce = (c1, e1)" by fastforce
    with poison_phase [OF ce, of utf8 reply ?m] have "client_phase h Streaming (c1, e1)" by simp
    with ce P show ?thesis by (simp add: html5_cap_def)
  qed
  show ?thesis
    using assms by (cases pce) (simp add: html5_chunk_def Let_def cap lines)
qed

lemma flush_phase:
  "client_phase h Streaming (snd pce) \<Longrightarrow> client_phase h Streaming (html5_flush utf8 (log_api reply) rest pce)"
  by (cases pce) (simp add: html5_flush_def Let_def poison_phase processLine_phase)

text \<open>When an attempt is over, another one may follow only when the stream is closed.\<close>

definition client_live :: "int \<Rightarrow> html5_client \<times> api_call list \<Rightarrow> bool" where
  "client_live h ce \<longleftrightarrow> client_phase h Waiting ce \<or> client_phase h Streaming ce"

definition client_next :: "int \<Rightarrow> (html5_next, html5_client \<times> api_call list) progress \<Rightarrow> bool" where
  "client_next h p \<longleftrightarrow> (case p of
       Running ce \<Rightarrow> client_live h ce
     | Finished Html5_Over ce \<Rightarrow> \<exists>ph. client_phase h ph ce
     | Finished (Html5_Reconnect n) ce \<Rightarrow> client_phase h Waiting ce)"

lemma schedule_next:
  assumes "client_live h ce"
  shows "client_next h (scheduleReconnectOrClose (log_api reply) stopped random ce)"
  using assms
  by (cases ce) (auto simp: client_live_def client_next_def client_phase_def scheduleReconnectOrClose_def Let_def
      SSE_Html5_OnDisconnected_def SSE_Html5_OnClosed_def proto_append)

lemma error_live:
  assumes "client_live h (c, e)" and "client_phase h Waiting (c, e) \<or> status = 0"
  shows "client_live h (c, callError utf8 (log_api reply) (hc_Handle c) m status r ms e)"
  using assms by (auto simp: client_live_def client_phase_def callError_def SSE_Html5_OnError_def proto_append)

lemma catch_next:
  assumes "client_live h ce"
  shows "client_next h (html5_catch utf8 (log_api reply) a m ce)"
proof -
  obtain c e where ce: "ce = (c, e)" by fastforce
  show ?thesis
  proof (cases "ha_StoppedCatch a")
    case True
    with assms ce show ?thesis by (auto simp: html5_catch_def client_next_def client_live_def)
  next
    case False
    with assms ce show ?thesis
      by (simp add: html5_catch_def Let_def schedule_next error_live)
  qed
qed

lemma body_next:
  "client_phase h Streaming (snd pce) \<Longrightarrow> client_next h (html5_body utf8 (log_api reply) a rs pce)"
proof (induction rs arbitrary: pce)
  case Nil
  then show ?case by (simp add: client_next_def client_live_def)
next
  case (Cons r rs)
  obtain stopped x where r: "r = (stopped, x)" by fastforce
  have E: "client_next h (html5_end utf8 (log_api reply) a pce)"
    using flush_phase [OF Cons.prems, of utf8 reply "ha_Rest a"]
    by (auto simp: html5_end_def Let_def client_next_def [of h "Finished Html5_Over ce" for ce]
        intro!: schedule_next simp: client_live_def)
  have C: "client_next h (html5_catch utf8 (log_api reply) a m (snd pce))" for m
    by (rule catch_next) (use Cons.prems in \<open>simp add: client_live_def\<close>)
  from E C Cons.IH [OF chunk_phase [OF Cons.prems]] show ?case
    by (simp add: r split: html5_read.split)
qed

lemma response_next:
  assumes "client_phase h Waiting ce"
  shows "client_next h (html5_response utf8 (log_api reply) a status has_body ce)"
proof -
  obtain c e where ce: "ce = (c, e)" by fastforce
  have w: "client_phase h Waiting (c\<lparr>hc_GotResponse := True\<rparr>, e)" using assms ce by simp
  then have S: "client_next h (scheduleReconnectOrClose (log_api reply) stopped random
      (c\<lparr>hc_GotResponse := True\<rparr>, callError utf8 (log_api reply) (hc_Handle c) m st r ms e))" for stopped random m st r ms
    using error_live [of h "c\<lparr>hc_GotResponse := True\<rparr>" e st utf8 reply m r ms]
    by (intro schedule_next) (simp add: client_live_def)
  have "client_phase h Streaming (c\<lparr>hc_GotResponse := True, hc_FailedAttempts := 0\<rparr>, SSE_Html5_OnOpen (log_api reply) (hc_Handle c) status e)"
    if "200 \<le> status" "status \<le> 299"
    using w that by (simp add: client_phase_def SSE_Html5_OnOpen_def proto_append)
  with S show ?thesis by (auto simp: html5_response_def Let_def ce intro: body_next)
qed

lemma connect_next:
  assumes "client_phase h Waiting ce"
  shows "client_next h (html5_connect utf8 (log_api reply) a ce)"
proof -
  obtain c e where ce: "ce = (c, e)" by fastforce
  let ?c = "(html5_fresh c)\<lparr>hc_FirstResponseTimedOut := ha_TimedOut a\<rparr>"
  have w: "client_phase h Waiting (?c, e)" using assms ce by simp
  have u: "\<exists>ph. client_phase h ph (c, SSE_Html5_OnClosed (log_api reply) (hc_Handle c)
      (callError utf8 (log_api reply) (hc_Handle c) m 0 r ms e))" for m r ms
    using assms ce by (simp add: client_phase_def SSE_Html5_OnClosed_def callError_def SSE_Html5_OnError_def proto_append)
  consider "ha_Stopped a" | "\<not> ha_Stopped a" "\<not> ha_Supported a" | "\<not> ha_Stopped a" "ha_Supported a" by blast
  then show ?thesis
  proof cases
    case 1
    with assms ce show ?thesis by (auto simp: html5_connect_def client_next_def)
  next
    case 2
    with u show ?thesis by (simp add: ce html5_connect_def client_next_def)
  next
    case 3
    have "client_next h (Running (?c, e))" using w by (simp add: client_next_def client_live_def)
    moreover have "client_next h (html5_catch utf8 (log_api reply) a m (?c, e))" for m
      by (rule catch_next) (use w in \<open>simp add: client_live_def\<close>)
    moreover have "client_next h (html5_response utf8 (log_api reply) a st hb (?c, e))" for st hb
      by (rule response_next [OF w])
    ultimately show ?thesis
      using 3 by (simp add: ce html5_connect_def Let_def split: option.split html5_fetch.split)
  qed
qed

lemma life_phase:
  "client_phase h Waiting ce \<Longrightarrow> \<exists>ph. client_phase h ph (reached (html5_life utf8 (log_api reply) as ce))"
proof (induction as arbitrary: ce)
  case (Cons a as)
  from connect_next [OF Cons.prems, of utf8 reply a] Cons.IH show ?case
    by (auto simp: client_next_def client_live_def split: progress.split html5_next.split)
qed auto

text \<open>
  C14. The life of an HTML5 connection as its client reports it, at every moment and for any
  behaviour of the browser: all calls carry its handle, a stream is opened only by a response with status 2xx,
  messages come only within a stream, a stream is marked disconnected before the next one or the closed event, and
  nothing follows the closed event.
\<close>
theorem html5_client_protocol:
  "\<exists>ph. proto True (hc_Handle c) Waiting (snd (reached (html5_life utf8 (log_api reply) as (c, [])))) = Some ph"
proof -
  have "client_phase (hc_Handle c) Waiting (c, [])" by (simp add: client_phase_def)
  from life_phase [OF this, of utf8 reply as] show ?thesis by (auto simp: client_phase_def)
qed

end
