(* ===== verification/Html5World.thy ===== *)
theory Html5World
  imports Html5ClientProps
begin

text \<open>
  Which HTML5 clients exist, and examples: no client streams without an owner, the delay of a
  reconnect, the two parsers on a stream, and the line that a stream ends in.
\<close>

section \<open>No stream without an owner\<close>

text \<open>
  Any order of the entry points, and what the attempts do to their own client meanwhile. The core
  never connects a handle that is connected.
\<close>

inductive html5_reach :: "browser \<Rightarrow> html5_world \<Rightarrow> bool" for b where
  start: "html5_reach b \<lparr>hw_Ext = False, hw_Clients = [], hw_Objects = Map.empty, hw_Next = 0\<rparr>"
| initialize: "html5_reach b w \<Longrightarrow> html5_reach b (snd (HTML5_Platform_Initialize w))"
| connect: "html5_reach b w \<Longrightarrow> hw_Ext w \<Longrightarrow> map_of (hw_Clients w) (cn_Handle c) = None \<Longrightarrow>
     html5_reach b (fst (HTML5_Platform_Connect b w c))"
| work: "html5_reach b w \<Longrightarrow> hw_Objects w n = Some (c, stopped) \<Longrightarrow> hc_Handle c1 = hc_Handle c \<Longrightarrow>
     html5_reach b (w\<lparr>hw_Objects := (hw_Objects w)(n \<mapsto> (c1, stopped))\<rparr>)"
| disconnect: "html5_reach b w \<Longrightarrow> html5_reach b (fst (HTML5_Platform_Disconnect w c))"
| finalize: "html5_reach b w \<Longrightarrow> html5_reach b (HTML5_Platform_Finalize w)"

text \<open>A client that was not stopped; the handle of a client.\<close>

definition streaming :: "html5_world \<Rightarrow> nat \<Rightarrow> bool" where
  "streaming w n \<longleftrightarrow> (case hw_Objects w n of None \<Rightarrow> False | Some (c, stopped) \<Rightarrow> \<not> stopped)"

definition handle_of :: "html5_world \<Rightarrow> nat \<Rightarrow> int option" where
  "handle_of w n = map_option (\<lambda>x. hc_Handle (fst x)) (hw_Objects w n)"

definition html5_ok :: "html5_world \<Rightarrow> bool" where
  "html5_ok w \<longleftrightarrow> (\<forall>n. streaming w n \<longrightarrow> hw_Ext w \<and> (\<exists>h. handle_of w n = Some h \<and> map_of (hw_Clients w) h = Some n))
     \<and> (\<forall>h n. map_of (hw_Clients w) h = Some n \<longrightarrow> handle_of w n = Some h)
     \<and> (\<forall>n. handle_of w n \<noteq> None \<longrightarrow> n < hw_Next w)"

lemma client_delete_lookup [simp]: "map_of (client_delete h cs) k = (if k = h then None else map_of cs k)"
  by (induction cs) (auto simp: client_delete_def)

lemma stop_object_sel [simp]:
  "streaming (stop_object m w) n \<longleftrightarrow> streaming w n \<and> n \<noteq> m" "handle_of (stop_object m w) n = handle_of w n"
  "hw_Ext (stop_object m w) = hw_Ext w" "hw_Clients (stop_object m w) = hw_Clients w" "hw_Next (stop_object m w) = hw_Next w"
  by (auto simp: streaming_def handle_of_def stop_object_def split: option.split)

lemma stop_all [simp]:
  "streaming (fold stop_object ms w) n \<longleftrightarrow> streaming w n \<and> n \<notin> set ms"
  "handle_of (fold stop_object ms w) n = handle_of w n"
  "hw_Ext (fold stop_object ms w) = hw_Ext w" "hw_Next (fold stop_object ms w) = hw_Next w"
  by (induction ms arbitrary: w) auto

lemma table_sel [simp]:
  "streaming (w\<lparr>hw_Clients := cs\<rparr>) n = streaming w n" "streaming (w\<lparr>hw_Ext := x, hw_Clients := cs\<rparr>) n = streaming w n"
  "handle_of (w\<lparr>hw_Clients := cs\<rparr>) n = handle_of w n" "handle_of (w\<lparr>hw_Ext := x, hw_Clients := cs\<rparr>) n = handle_of w n"
  "streaming (w\<lparr>hw_Ext := x\<rparr>) n = streaming w n" "handle_of (w\<lparr>hw_Ext := x\<rparr>) n = handle_of w n"
  by (simp_all add: streaming_def handle_of_def)

lemma Finalize_streaming:
  assumes "html5_ok w"
  shows "\<not> streaming (HTML5_Platform_Finalize w) n"
proof
  assume s: "streaming (HTML5_Platform_Finalize w) n"
  then have "streaming w n" by (auto simp: HTML5_Platform_Finalize_def split: if_splits)
  then obtain h where "hw_Ext w" "map_of (hw_Clients w) h = Some n" using assms by (auto simp: html5_ok_def)
  then have "hw_Ext w" "n \<in> snd ` set (hw_Clients w)" by (force dest: map_of_SomeD)+
  with s show False by (simp add: HTML5_Platform_Finalize_def)
qed

lemma Disconnect_streaming:
  assumes "html5_ok w"
  shows "streaming (fst (HTML5_Platform_Disconnect w c)) n \<longleftrightarrow> streaming w n \<and> handle_of w n \<noteq> Some (cn_Handle c)"
proof (cases "hw_Ext w")
  case False
  with assms show ?thesis by (auto simp: HTML5_Platform_Disconnect_def html5_ok_def)
next
  case True
  with assms show ?thesis
    by (auto simp: HTML5_Platform_Disconnect_def html5_ok_def split: option.split)
qed

lemma Disconnect_ok:
  assumes "html5_ok w"
  shows "html5_ok (fst (HTML5_Platform_Disconnect w c))"
proof -
  have h: "handle_of (fst (HTML5_Platform_Disconnect w c)) n = handle_of w n" for n
    by (simp add: HTML5_Platform_Disconnect_def split: option.split)
  have x: "hw_Ext (fst (HTML5_Platform_Disconnect w c)) = hw_Ext w" "hw_Next (fst (HTML5_Platform_Disconnect w c)) = hw_Next w"
    by (simp_all add: HTML5_Platform_Disconnect_def split: option.split)
  have m: "map_of (hw_Clients (fst (HTML5_Platform_Disconnect w c))) k =
      (if hw_Ext w \<and> k = cn_Handle c then None else map_of (hw_Clients w) k)" for k
    by (auto simp: HTML5_Platform_Disconnect_def split: option.split)
  have A: "hw_Ext w \<and> (\<exists>k. handle_of w n = Some k
      \<and> (if hw_Ext w \<and> k = cn_Handle c then None else map_of (hw_Clients w) k) = Some n)"
    if s: "streaming w n \<and> handle_of w n \<noteq> Some (cn_Handle c)" for n
  proof -
    obtain k where "hw_Ext w" "handle_of w n = Some k" "map_of (hw_Clients w) k = Some n"
      using assms s unfolding html5_ok_def by blast
    with s show ?thesis by (intro conjI exI [of _ k]) auto
  qed
  have B: "(if hw_Ext w \<and> k = cn_Handle c then None else map_of (hw_Clients w) k) = Some n \<Longrightarrow> handle_of w n = Some k" for k n
    using assms by (auto simp: html5_ok_def split: if_splits)
  have C: "handle_of w n \<noteq> None \<Longrightarrow> n < hw_Next w" for n using assms unfolding html5_ok_def by blast
  show ?thesis
    unfolding html5_ok_def Disconnect_streaming [OF assms] h x m using A B C by blast
qed

lemma html5_reach_ok: "html5_reach b w \<Longrightarrow> html5_ok w"
proof (induction rule: html5_reach.induct)
  case start
  then show ?case by (simp add: html5_ok_def streaming_def handle_of_def)
next
  case (initialize w)
  then show ?case by (auto simp: HTML5_Platform_Initialize_def html5_ok_def)
next
  case (connect w c)
  let ?w = "fst (HTML5_Platform_Connect b w c)"
  have s: "streaming ?w n \<longleftrightarrow> n = hw_Next w \<or> streaming w n" for n
    by (auto simp: HTML5_Platform_Connect_def streaming_def)
  have h: "handle_of ?w n = (if n = hw_Next w then Some (cn_Handle c) else handle_of w n)" for n
    by (simp add: HTML5_Platform_Connect_def handle_of_def html5_client_of_def Let_def)
  have m: "map_of (hw_Clients ?w) k = (if k = cn_Handle c then Some (hw_Next w) else map_of (hw_Clients w) k)" for k
    by (simp add: HTML5_Platform_Connect_def)
  have x: "hw_Ext ?w" "hw_Next ?w = Suc (hw_Next w)" using connect.hyps by (simp_all add: HTML5_Platform_Connect_def)
  have n: "handle_of w n \<noteq> None \<Longrightarrow> n < hw_Next w" for n using connect.IH unfolding html5_ok_def by blast
  have t: "map_of (hw_Clients w) k = Some n \<Longrightarrow> handle_of w n = Some k \<and> n \<noteq> hw_Next w" for k n
  proof -
    assume "map_of (hw_Clients w) k = Some n"
    then have "handle_of w n = Some k" using connect.IH unfolding html5_ok_def by blast
    with n [of n] show "handle_of w n = Some k \<and> n \<noteq> hw_Next w" by auto
  qed
  show ?case
    unfolding html5_ok_def s h m
  proof (intro conjI allI impI x(1))
    fix n assume a: "n = hw_Next w \<or> streaming w n"
    show "\<exists>k. (if n = hw_Next w then Some (cn_Handle c) else handle_of w n) = Some k
        \<and> (if k = cn_Handle c then Some (hw_Next w) else map_of (hw_Clients w) k) = Some n"
    proof (cases "n = hw_Next w")
      case False
      then obtain k where k: "handle_of w n = Some k" "map_of (hw_Clients w) k = Some n"
        using a connect.IH unfolding html5_ok_def by blast
      then have "k \<noteq> cn_Handle c" using connect.hyps by auto
      with k False show ?thesis by auto
    qed simp
  next
    fix k n assume "(if k = cn_Handle c then Some (hw_Next w) else map_of (hw_Clients w) k) = Some n"
    then show "(if n = hw_Next w then Some (cn_Handle c) else handle_of w n) = Some k"
      using t [of k n] by (auto split: if_splits)
  next
    fix n assume "(if n = hw_Next w then Some (cn_Handle c) else handle_of w n) \<noteq> None"
    then show "n < hw_Next ?w" using n [of n] x(2) by (auto split: if_splits)
  qed
next
  case (work w n c stopped c1)
  let ?w = "w\<lparr>hw_Objects := (hw_Objects w)(n \<mapsto> (c1, stopped))\<rparr>"
  have "streaming ?w m = streaming w m" "handle_of ?w m = handle_of w m" for m
    using work.hyps by (auto simp: streaming_def handle_of_def)
  with work.IH show ?case by (simp add: html5_ok_def)
next
  case (disconnect w c)
  then show ?case by (simp add: Disconnect_ok)
next
  case (finalize w)
  have "handle_of (HTML5_Platform_Finalize w) n = handle_of w n" for n by (simp add: HTML5_Platform_Finalize_def)
  moreover have "hw_Next (HTML5_Platform_Finalize w) = hw_Next w" by (simp add: HTML5_Platform_Finalize_def)
  moreover have "map_of (hw_Clients (HTML5_Platform_Finalize w)) h = Some n \<Longrightarrow> handle_of w n = Some h" for h n
    using finalize.IH by (auto simp: HTML5_Platform_Finalize_def html5_ok_def split: if_splits)
  ultimately show ?case
    using finalize.IH by (simp add: html5_ok_def Finalize_streaming)
qed

text \<open>
  C22. No HTML5 client streams without an owner: whatever was connected, disconnected and initialised in any order, a
  client that was not stopped is in the table under its handle; a disconnect stops the client with that handle and
  no other; the shutdown stops all.
\<close>
theorem html5_no_orphans:
  assumes "html5_reach b w"
  shows "(\<forall>n. streaming w n \<longrightarrow> (\<exists>h. handle_of w n = Some h \<and> map_of (hw_Clients w) h = Some n))
    \<and> (\<forall>n. streaming (fst (HTML5_Platform_Disconnect w c)) n \<longleftrightarrow> streaming w n \<and> handle_of w n \<noteq> Some (cn_Handle c))
    \<and> (\<forall>n. \<not> streaming (HTML5_Platform_Finalize w) n)"
proof -
  have ok: "html5_ok w" by (rule html5_reach_ok [OF assms])
  then show ?thesis by (auto simp: Disconnect_streaming Finalize_streaming html5_ok_def)
qed

section \<open>The delay of a reconnect\<close>

text \<open>
  The delay before an HTML5 client reconnects is within a fifth of the same exponential back-off that the native
  transports use, and so between 0.8 seconds and six minutes.
\<close>
theorem html5_retry_delay_bounds:
  assumes "0 \<le> random" and "random < 1"
  shows "let delay = computeRetryDelay random c; b = backoff (hc_RetryMS c) (hc_FailedAttempts c)
    in 8 * b < 10 * delay + 10 \<and> 10 * delay < 12 * b \<and> 800 \<le> delay \<and> delay < 360000"
proof -
  define b where "b = backoff (hc_RetryMS c) (hc_FailedAttempts c)"
  have r: "1000 \<le> b" "b \<le> 300000" using backoff_range by (auto simp: b_def)
  define j :: rat where "j = of_int b * (8 / 10 + random * (4 / 10))"
  have p: "(0::rat) < of_int b" using r(1) by simp
  have "of_int b * (8 / 10) \<le> j" unfolding j_def using assms(1) p by (intro mult_left_mono) simp_all
  moreover have "j < of_int b * (12 / 10)" unfolding j_def using assms(2) p by (intro mult_strict_left_mono) simp_all
  ultimately have j: "8 * of_int b \<le> 10 * j" "10 * j < 12 * of_int b" by simp_all
  have "(1000::rat) \<le> of_int b" using r(1) by linarith
  with j(1) have ok: "\<not> j < of_int html5_minDelayMs" by (simp add: html5_minDelayMs_def)
  have shift: "(if (if k > 1 then k - 1 else 0) > html5_maxBackoffShift then html5_maxBackoffShift
      else (if k > 1 then k - 1 else 0)) = min 8 (k - 1)" for k :: nat
    by (auto simp: html5_maxBackoffShift_def)
  have clamp: "(if (if x < html5_retryMinMs then html5_retryMinMs else x) > html5_retryMaxMs then html5_retryMaxMs
      else (if x < html5_retryMinMs then html5_retryMinMs else x)) = max 1000 (min 300000 x)" for x
    by (auto simp: html5_retryMinMs_def html5_retryMaxMs_def)
  have cap: "(if x > html5_retryMaxMs then html5_retryMaxMs else x) = min 300000 x" for x
    by (auto simp: html5_retryMaxMs_def)
  have d: "computeRetryDelay random c = \<lfloor>j\<rfloor>"
    unfolding computeRetryDelay_def Let_def shift clamp unfolding cap backoff_def [symmetric] b_def [symmetric] j_def [symmetric]
    using ok by simp
  have f: "of_int \<lfloor>j\<rfloor> \<le> j" "j < of_int \<lfloor>j\<rfloor> + 1" by linarith+
  from j(1) f(2) have "(of_int (8 * b) :: rat) < of_int (10 * \<lfloor>j\<rfloor> + 10)" by simp
  then have lo: "8 * b < 10 * \<lfloor>j\<rfloor> + 10" by (simp only: of_int_less_iff)
  have "(of_int (10 * \<lfloor>j\<rfloor>) :: rat) < of_int (12 * b)"
    unfolding of_int_mult of_int_numeral using j(2) f(1) by linarith
  then have hi: "10 * \<lfloor>j\<rfloor> < 12 * b" by (simp only: of_int_less_iff)
  have "800 \<le> \<lfloor>j\<rfloor>" using j(1) \<open>1000 \<le> of_int b\<close> by (simp add: le_floor_iff)
  with lo hi r show ?thesis unfolding d b_def [symmetric] Let_def by linarith
qed

section \<open>Examples\<close>

text \<open>A browser that converts byte by byte, and a connection with the handle 5 on both platforms.\<close>

definition demo_utf8 :: "js_string \<Rightarrow> string" where
  "demo_utf8 s = map (\<lambda>u. char_of (unat u)) s"

lemma demo_utf8_ok: "utf8_ok demo_utf8"
proof -
  have "demo_utf8 (js s) = s" for s by (induction s) (simp_all add: demo_utf8_def unit_val)
  then show ?thesis by (simp add: utf8_ok_def)
qed

definition demo_browser :: browser where
  "demo_browser = \<lparr>bw_String = js, bw_JsonParse = (\<lambda>s. [])\<rparr>"

definition demo_html5_connection :: SSEConnection where
  "demo_html5_connection = SSEConnection_new\<lparr>cn_Handle := 5, cn_Url := Some ''http://h/'', cn_Reconnect := True\<rparr>"

definition demo_client :: html5_client where
  "demo_client = html5_client_of demo_browser demo_html5_connection"

definition demo_native :: desktop where
  "demo_native = desktop_copy \<lparr>dk_Handle = 0, dk_Url = None, dk_LastEventId = None, dk_Headers = [], dk_Parser = SSEParser_new,
     dk_Thread = False, dk_RetryMS = 0, dk_Status = 0, dk_Reconnect = False, dk_Stop = False, dk_Opened = False\<rparr>
     demo_html5_connection"

lemma demo_same: "same_connection demo_utf8 demo_client demo_native" "dk_Parser demo_native = SSEParser_new"
  by (simp_all add: same_connection_def same_resume_def demo_client_def demo_native_def html5_client_of_def Let_def
      demo_html5_connection_def SSEConnection_new_def desktop_copy_def SSE_StrDup_def demo_browser_def demo_utf8_def)

theorem html5_retry_delay_bounds_witness:
  "let delay = computeRetryDelay (1 / 2) demo_client; b = backoff (hc_RetryMS demo_client) (hc_FailedAttempts demo_client)
    in 8 * b < 10 * delay + 10 \<and> 10 * delay < 12 * b \<and> 800 \<le> delay \<and> delay < 360000"
  by (rule html5_retry_delay_bounds) simp_all

text \<open>An event with an id, in two pieces.\<close>

definition demo_chunks :: "string list" where
  "demo_chunks = [''id: 7'' @ [CR, LF] @ ''da'', ''ta: x'' @ [LF, LF]]"

lemma demo_native_calls:
  "snd (FeedParser (log_api (\<lambda>_. True)) (concat demo_chunks) (demo_native, [])) =
     [AMessage 5 (Some ''message'') (Some ''x'') (Some ''7'') True, ALastEventId 5 (Some ''7'')]"
  by code_simp

theorem html5_parser_equivalent_witness:
  "snd (snd (fold (html5_chunk demo_utf8 (log_api (\<lambda>_. True))) (map js demo_chunks) ([], html5_fresh demo_client, []))) =
     [AMessage 5 (Some ''message'') (Some ''x'') (Some ''7'') True, ALastEventId 5 (Some ''7'')]"
proof -
  have "list_all ascii demo_chunks" by code_simp
  from html5_parser_equivalent [OF demo_utf8_ok this demo_same, of "log_api (\<lambda>_. True)" "[]"] demo_native_calls
  show ?thesis by (simp add: case_prod_beta)
qed

text \<open>Two clients, of which one is disconnected.\<close>

definition demo_world :: html5_world where
  "demo_world = fst (HTML5_Platform_Connect demo_browser
     (fst (HTML5_Platform_Connect demo_browser
       (snd (HTML5_Platform_Initialize \<lparr>hw_Ext = False, hw_Clients = [], hw_Objects = Map.empty, hw_Next = 0\<rparr>))
       demo_html5_connection))
     (demo_html5_connection\<lparr>cn_Handle := 6\<rparr>))"

lemma demo_world_reach: "html5_reach demo_browser demo_world"
  unfolding demo_world_def
  by (intro html5_reach.connect html5_reach.initialize html5_reach.start)
    (simp_all add: HTML5_Platform_Initialize_def HTML5_Platform_Connect_def client_delete_def demo_html5_connection_def)

theorem html5_no_orphans_witness:
  "streaming demo_world 0 \<and> streaming demo_world 1
    \<and> \<not> streaming (fst (HTML5_Platform_Disconnect demo_world demo_html5_connection)) 0
    \<and> streaming (fst (HTML5_Platform_Disconnect demo_world demo_html5_connection)) 1
    \<and> \<not> streaming (HTML5_Platform_Finalize demo_world) 1"
proof -
  have "streaming demo_world 0" "streaming demo_world 1"
    "handle_of demo_world 0 = Some (cn_Handle demo_html5_connection)" "handle_of demo_world 1 \<noteq> Some (cn_Handle demo_html5_connection)"
    by (simp_all add: demo_world_def HTML5_Platform_Connect_def HTML5_Platform_Initialize_def streaming_def handle_of_def
        html5_client_of_def Let_def demo_html5_connection_def SSEConnection_new_def)
  with html5_no_orphans [OF demo_world_reach, of demo_html5_connection] show ?thesis by blast
qed

section \<open>The end of a stream\<close>

text \<open>
  Where the platforms differ: what follows the last line feed counts as a line here when the stream ends.
  A lone carriage return is then the end of a block, so that an event is dispatched that the native transports
  discard.
\<close>

definition demo_tail :: string where
  "demo_tail = ''data: y'' @ [LF, CR]"

theorem html5_end_of_stream_witness:
  "snd (FeedParser (log_api (\<lambda>_. True)) demo_tail (demo_native, [])) = []
   \<and> snd (html5_flush demo_utf8 (log_api (\<lambda>_. True)) []
       (fold (html5_chunk demo_utf8 (log_api (\<lambda>_. True))) (map js [demo_tail]) ([], html5_fresh demo_client, []))) =
     [AMessage 5 (Some ''message'') (Some ''y'') (Some []) True]"
proof -
  let ?api = "log_api (\<lambda>_. True)"
  obtain pending c1 e1 where R: "fold (html5_chunk demo_utf8 ?api) (map js [demo_tail]) ([], html5_fresh demo_client, []) = (pending, c1, e1)"
    by (metis prod_cases3)
  have "case fold (html5_chunk demo_utf8 ?api) (map js [demo_tail]) ([], html5_fresh demo_client, []) of
      (pending, c1, e1) \<Rightarrow> pending \<noteq> [] \<and> \<not> hc_DiscardLine c1" by code_simp
  with R have "pending \<noteq> [] \<and> \<not> hc_DiscardLine c1" by simp
  moreover have "list_all ascii [demo_tail]" by code_simp
  moreover have "snd (FeedParser ?api (concat [demo_tail] @ [LF]) (demo_native, [])) =
      [AMessage 5 (Some ''message'') (Some ''y'') (Some []) True]"
    "snd (FeedParser ?api demo_tail (demo_native, [])) = []" by code_simp+
  ultimately show ?thesis
    using html5_end_of_stream [OF demo_utf8_ok _ demo_same R] unfolding R by simp
qed

end
