(* ===== verification/Html5EndToEnd.thy ===== *)
theory Html5EndToEnd
  imports EndToEnd Html5World
begin

text \<open>
  From the server to Lua in a browser: the stream that a response carries is read piece by piece by the parser in
  JavaScript, and the next update hands its messages to the script, as on the native platforms.
\<close>

lemma body_pieces:
  "html5_body utf8 api a (map (\<lambda>text. (False, Piece text)) texts @ rs) pce =
    html5_body utf8 api a rs (fold (html5_chunk utf8 api) texts pce)"
  by (induction texts arbitrary: pce) simp_all

text \<open>The native connection that would be in the same position.\<close>

definition native_of :: "(js_string \<Rightarrow> string) \<Rightarrow> html5_client \<Rightarrow> desktop" where
  "native_of utf8 c = \<lparr>dk_Handle = hc_Handle c, dk_Url = None, dk_LastEventId = Some (c_str (utf8 (hc_LastEventId c))),
     dk_Headers = [], dk_Parser = SSEParser_new, dk_Thread = False, dk_RetryMS = hc_RetryMS c, dk_Status = 0,
     dk_Reconnect = hc_Reconnect c, dk_Stop = False, dk_Opened = False\<rparr>"

lemma native_same: "same_connection utf8 c (native_of utf8 c)" "dk_Parser (native_of utf8 c) = SSEParser_new"
  "dk_Handle (native_of utf8 c) = hc_Handle c"
  by (simp_all add: same_connection_def same_resume_def native_of_def)

text \<open>
  C6. From the server to Lua in a browser: the response to an HTML5 client's request has status 2xx and its body
  carries any list of ASCII messages, in whatever pieces it is read, and the client is not stopped. If the
  connection is open and its script alive, the queue has room for all of it, the callbacks neither open nor close
  connections and fewer than \<open>2\<^sup>3\<^sup>1 - 1\<close> handles have been given out, the client is still reading, and
  the next update calls the connection's callback with the open event, then once for every message, in order; before
  that it delivers the events that were queued before, and after it the overflow notices, each without those
  whose connection is closed or whose script is gone.
\<close>
theorem html5_stream_reaches_lua:
  assumes "sse_env env" and "\<And>k tbl u. list_all looks_on (x_Script env k tbl u)"
    and "idle s" and "g_Active s" and "g_Issued s < 2147483647"
    and "length (g_Events s) + 1 + length ms \<le> g_Capacity s"
    and "deliverable env s (open_event (hc_Handle c) status)"
    and "utf8_ok utf8" and "\<not> ha_Stopped a" and "ha_Supported a"
    and "ha_Fetch a (html5_request_of ((html5_fresh c)\<lparr>hc_FirstResponseTimedOut := ha_TimedOut a\<rparr>)) = Some (Response status True)"
    and "200 \<le> status" and "status \<le> 299"
    and "ha_Reads a = map (\<lambda>chunk. (False, Piece (js chunk))) chunks" and "list_all ascii chunks"
    and "list_all msg_ok ms" and "concat chunks = text_of_lines (concat (map message_lines ms))"
  shows "\<exists>c1 s1 t x. html5_connect utf8 core_api a (c, Some s) = Running (c1, Some s1)
     \<and> UpdateSSE env s1 = Some t \<and> g_Delivered t = g_Delivered s @ x
     \<and> map snd x = update_calls env s (hc_Handle c) status ms"
proof -
  let ?d = "native_of utf8 c" and ?e = "SSE_EnqueueOpen (hc_Handle c) status s"
  let ?c = "(html5_fresh c)\<lparr>hc_FirstResponseTimedOut := ha_TimedOut a, hc_GotResponse := True, hc_FailedAttempts := 0\<rparr>"
  from stream_into_queue [OF assms(3,4,6) _ assms(16), of ?d status] obtain d1 s1 es where
    F: "FeedParser core_api (concat chunks) (?d, ?e) = (d1, Some s1)"
    and q: "g_Events s1 = g_Events s @ open_event (hc_Handle c) status # es"
      "map SSE_PushEventTable es = map (message_table (hc_Handle c)) ms"
      "\<forall>ev \<in> set es. ev_Handle ev = hc_Handle c" "g_OverflowHandles s1 = g_OverflowHandles s"
      "g_Delivered s1 = g_Delivered s" "same_faces s s1" "idle s1" using native_same by (auto simp: assms(17))
  obtain x c1 e1 where J: "fold (html5_chunk utf8 core_api) (map js chunks) ([], ?c, ?e) = (x, c1, e1)" by (metis prod_cases3)
  have "synced utf8 ([], ?c, ?e) (SSEParser_new, ?d, ?e)" using fresh_synced [OF native_same(1)] by simp
  from same_run_from [OF assms(8,15) this native_same(2) J] F have e1: "e1 = Some s1" by auto
  have "html5_connect utf8 core_api a (c, Some s) = html5_body utf8 core_api a (ha_Reads a) ([], ?c, ?e)"
    using assms(9-13)
    by (simp add: html5_connect_def html5_response_def Let_def SSE_Html5_OnOpen_def core_api_def html5_fresh_def resetEvent_def)
  also have "\<dots> = Running (c1, Some s1)"
    using body_pieces [of utf8 core_api a "map js chunks" "[]" "([], ?c, ?e)"] J e1 by (simp add: assms(14) comp_def)
  finally have R: "html5_connect utf8 core_api a (c, Some s) = Running (c1, Some s1)" .
  from queued_stream_reaches_lua [OF assms(1,2,5,7) q] R show ?thesis by blast
qed

text \<open>The message of the native example, in two pieces.\<close>

definition demo_fetch :: html5_attempt where
  "demo_fetch = \<lparr>ha_Stopped = False, ha_Supported = True, ha_TimedOut = False, ha_Fetch = (\<lambda>r. Some (Response 200 True)),
     ha_StoppedAfter = False, ha_Reads = [(False, Piece (js ''data:'')), (False, Piece (js ('' x'' @ [LF, LF])))],
     ha_Rest = [], ha_StoppedEnd = False, ha_StoppedCatch = False, ha_Random = 0\<rparr>"

theorem html5_stream_reaches_lua_witness:
  "\<exists>c1 s1 t x. html5_connect demo_utf8 core_api demo_fetch (demo_client\<lparr>hc_Handle := 1\<rparr>, Some demo_opened) = Running (c1, Some s1)
     \<and> UpdateSSE quiet_env s1 = Some t \<and> g_Delivered t = g_Delivered demo_opened @ x
     \<and> map snd x = map SSE_PushEventTable (g_Events demo_opened)
         @ SSE_PushEventTable (open_event 1 200) # map (message_table 1) demo_messages"
proof -
  let ?c = "demo_client\<lparr>hc_Handle := 1\<rparr>" and ?chunks = "[''data:'', '' x'' @ [LF, LF]]"
  have s: "g_Active demo_opened" "g_Issued demo_opened < 2147483647"
    "length (g_Events demo_opened) + 1 + length demo_messages \<le> g_Capacity demo_opened" by code_simp+
  have h: "hc_Handle ?c = 1" by simp
  have d: "deliverable quiet_env demo_opened (open_event (hc_Handle ?c) 200)"
    by (rule demo_deliverable) (simp add: open_event_def h)
  have o: "g_OverflowHandles demo_opened = []" by code_simp
  have a: "\<not> ha_Stopped demo_fetch" "ha_Supported demo_fetch" "\<And>r. ha_Fetch demo_fetch r = Some (Response 200 True)"
    "ha_Reads demo_fetch = map (\<lambda>chunk. (False, Piece (js chunk))) ?chunks"
    by (simp_all only: demo_fetch_def html5_attempt.simps list.map not_False_eq_True)
  have m: "list_all msg_ok demo_messages"
    by (simp add: demo_messages_def msg_ok_def clean_def SSE_PARSER_MAX_BUFFER_def)
  have t: "list_all ascii ?chunks" "concat ?chunks = text_of_lines (concat (map message_lines demo_messages))" by code_simp+
  have n: "(200 :: int) \<le> 200" "(200 :: int) \<le> 299" by simp_all
  from html5_stream_reaches_lua [OF quiet_env_ok quiet_looks demo_opened_idle s d demo_utf8_ok a(1-3) n a(4) t(1) m t(2)]
  show ?thesis unfolding h update_calls_def demo_filter o by simp
qed

end
