(* ===== verification/Android.thy ===== *)
theory Android
  imports Desktop NullAdapter
begin

text \<open>
  The Android adapter (\<open>sse_android.cpp\<close>): the C++ side of the JNI bridge to the Java class
  \<open>SseClient\<close>. The functions of JNI are modelled by their contract on references: a local or global
  reference is live from its creation to its deletion, a null method id must not be called, and while an exception
  is pending only the functions that clear it, ask for it or release something may be called. \<open>None\<close> is a call
  that breaks the contract. A Java string is a list of 16-bit units, and JNI converts it from and to modified UTF-8.
  What Java and the class loader do is an input; memory does not run out.
\<close>

section \<open>Modified UTF-8\<close>

text \<open>
  The encoding of JNI: a unit between 1 and \<open>7F\<close> is one byte, one up to \<open>7FF\<close> and the zero two, every other unit
  three; the two units of a supplementary character are encoded each on its own.
\<close>

type_synonym jchars = "16 word list"

definition mutf8_unit :: "16 word \<Rightarrow> string" where
  "mutf8_unit u =
     (let n = unat u
      in if n = 0 then [char_of (192::nat), char_of (128::nat)]
         else if n < 128 then [char_of n]
         else if n < 2048 then [char_of (192 + n div 64), char_of (128 + n mod 64)]
         else [char_of (224 + n div 4096), char_of (128 + n div 64 mod 64), char_of (128 + n mod 64)])"

fun mutf8 :: "jchars \<Rightarrow> string" where
  "mutf8 [] = []"
| "mutf8 (u # us) = mutf8_unit u @ mutf8 us"

fun mutf8_decode :: "string \<Rightarrow> jchars option" where
  "mutf8_decode [] = Some []"
| "mutf8_decode (x # xs) =
     (let b = of_char x :: nat
      in if b < 128 then map_option ((#) (word_of_nat b)) (mutf8_decode xs)
         else if b < 224
         then (case xs of y # ys \<Rightarrow>
                 map_option ((#) (word_of_nat ((b - 192) * 64 + (of_char y - 128)))) (mutf8_decode ys)
               | _ \<Rightarrow> None)
         else (case xs of y # z # zs \<Rightarrow>
                 map_option ((#) (word_of_nat ((b - 224) * 4096 + (of_char y - 128) * 64 + (of_char z - 128)))) (mutf8_decode zs)
               | _ \<Rightarrow> None))"

section \<open>The Java side\<close>

text \<open>The arguments that the constructor of \<open>SseClient\<close> gets; a null element of an array is \<open>None\<close>.\<close>

record client_args =
  ja_Handle :: int
  ja_Url :: jchars
  ja_Keys :: "jchars option list"
  ja_Values :: "jchars option list"
  ja_LastEventId :: jchars
  ja_Reconnect :: bool
  ja_RetryMS :: int

datatype java_object = JClass | JString jchars | JStringArray "jchars option list" | JClient client_args

text \<open>
  Whether \<open>dmAndroid::LoadClass\<close> finds the class, the method ids by name and signature, whether the constructor
  returns an object and whether it throws, whether \<open>connect\<close> and \<open>disconnect\<close> throw, and the string made of bytes
  that are not modified UTF-8, which JNI leaves open.
\<close>

record java =
  jv_LoadClass :: bool
  jv_Method :: "string \<Rightarrow> string \<Rightarrow> nat option"
  jv_New :: "client_args \<Rightarrow> bool \<times> bool"
  jv_ConnectThrows :: "client_args \<Rightarrow> bool"
  jv_DisconnectThrows :: "client_args \<Rightarrow> bool"
  jv_Malformed :: "string \<Rightarrow> jchars"

section \<open>The state\<close>

text \<open>
  \<open>g_SSEClientClass\<close> and the three method ids; the live references, numbered in the order they are made; the
  pending exception; and the \<open>new\<close>ed \<open>SSEAndroidClient\<close>s with their member \<open>m_Object\<close>.
\<close>

record android =
  aw_Class :: "nat option"
  aw_Ctor :: "nat option"
  aw_Connect :: "nat option"
  aw_Disconnect :: "nat option"
  aw_Locals :: "nat \<Rightarrow> java_object option"
  aw_Globals :: "nat \<Rightarrow> java_object option"
  aw_Next :: nat
  aw_Exception :: bool
  aw_Clients :: "nat \<Rightarrow> nat option"
  aw_NextClient :: nat

section \<open>JNI\<close>

definition jni_NewLocal :: "java_object \<Rightarrow> android \<Rightarrow> (nat \<times> android) option" where
  "jni_NewLocal obj w =
     (if aw_Exception w then None
      else Some (aw_Next w, w\<lparr>aw_Locals := (aw_Locals w)(aw_Next w \<mapsto> obj), aw_Next := Suc (aw_Next w)\<rparr>))"

definition jni_DeleteLocalRef :: "nat \<Rightarrow> android \<Rightarrow> android option" where
  "jni_DeleteLocalRef r w =
     (case aw_Locals w r of None \<Rightarrow> None | Some obj \<Rightarrow> Some (w\<lparr>aw_Locals := (aw_Locals w)(r := None)\<rparr>))"

definition jni_NewGlobalRef :: "nat \<Rightarrow> android \<Rightarrow> (nat \<times> android) option" where
  "jni_NewGlobalRef r w =
     (if aw_Exception w then None
      else (case aw_Locals w r of None \<Rightarrow> None
        | Some obj \<Rightarrow> Some (aw_Next w, w\<lparr>aw_Globals := (aw_Globals w)(aw_Next w \<mapsto> obj), aw_Next := Suc (aw_Next w)\<rparr>)))"

definition jni_DeleteGlobalRef :: "nat \<Rightarrow> android \<Rightarrow> android option" where
  "jni_DeleteGlobalRef r w =
     (case aw_Globals w r of None \<Rightarrow> None | Some obj \<Rightarrow> Some (w\<lparr>aw_Globals := (aw_Globals w)(r := None)\<rparr>))"

text \<open>A method that is not found is a null id and a pending exception.\<close>

definition jni_GetMethodID :: "java \<Rightarrow> nat \<Rightarrow> string \<Rightarrow> string \<Rightarrow> android \<Rightarrow> (nat option \<times> android) option" where
  "jni_GetMethodID jv class name signature w =
     (if aw_Exception w \<or> aw_Globals w class \<noteq> Some JClass then None
      else Some (jv_Method jv name signature,
        if jv_Method jv name signature = None then w\<lparr>aw_Exception := True\<rparr> else w))"

definition jni_ExceptionClear :: "android \<Rightarrow> android" where
  "jni_ExceptionClear w = w\<lparr>aw_Exception := False\<rparr>"

text \<open>Beyond the array's length an exception is thrown.\<close>

definition jni_SetObjectArrayElement :: "nat \<Rightarrow> nat \<Rightarrow> nat \<Rightarrow> android \<Rightarrow> android option" where
  "jni_SetObjectArrayElement array index r w =
     (if aw_Exception w then None
      else (case (aw_Locals w array, aw_Locals w r) of
          (Some (JStringArray xs), Some (JString s)) \<Rightarrow>
            Some (if index < length xs then w\<lparr>aw_Locals := (aw_Locals w)(array \<mapsto> JStringArray (xs[index := Some s]))\<rparr>
                  else w\<lparr>aw_Exception := True\<rparr>)
        | _ \<Rightarrow> None))"

definition jni_NewClient ::
  "java \<Rightarrow> nat option \<Rightarrow> nat option \<Rightarrow> int \<Rightarrow> nat \<Rightarrow> nat \<Rightarrow> nat \<Rightarrow> nat \<Rightarrow> bool \<Rightarrow> int \<Rightarrow> android
     \<Rightarrow> (nat option \<times> android) option" where
  "jni_NewClient jv class ctor handle url keys vals last_event_id reconnect retry_ms w =
     (if aw_Exception w \<or> ctor = None \<or> Option.bind class (aw_Globals w) \<noteq> Some JClass then None
      else (case (aw_Locals w url, aw_Locals w keys, aw_Locals w vals, aw_Locals w last_event_id) of
          (Some (JString u), Some (JStringArray ks), Some (JStringArray vs), Some (JString i)) \<Rightarrow>
            (let args = \<lparr>ja_Handle = handle, ja_Url = u, ja_Keys = ks, ja_Values = vs, ja_LastEventId = i,
                   ja_Reconnect = reconnect, ja_RetryMS = retry_ms\<rparr>;
                 w1 = w\<lparr>aw_Exception := snd (jv_New jv args)\<rparr>
             in if fst (jv_New jv args)
                then Some (Some (aw_Next w), w1\<lparr>aw_Locals := (aw_Locals w)(aw_Next w \<mapsto> JClient args), aw_Next := Suc (aw_Next w)\<rparr>)
                else Some (None, w1))
        | _ \<Rightarrow> None))"

definition jni_CallVoidMethod :: "(client_args \<Rightarrow> bool) \<Rightarrow> nat \<Rightarrow> nat option \<Rightarrow> android \<Rightarrow> android option" where
  "jni_CallVoidMethod throws r method w =
     (if aw_Exception w \<or> method = None then None
      else (case aw_Globals w r of Some (JClient args) \<Rightarrow> Some (w\<lparr>aw_Exception := throws args\<rparr>) | _ \<Rightarrow> None))"

text \<open>The units of the string that \<open>NewStringUTF\<close> makes of the bytes before the first NUL.\<close>

definition jni_NewStringUTF :: "java \<Rightarrow> string \<Rightarrow> jchars" where
  "jni_NewStringUTF jv s =
     (case mutf8_decode (c_str s) of
        None \<Rightarrow> jv_Malformed jv (c_str s)
      | Some us \<Rightarrow> if mutf8 us = c_str s then us else jv_Malformed jv (c_str s))"

section \<open>The class and its methods\<close>

definition SSEAndroid_LoadClass :: "java \<Rightarrow> android \<Rightarrow> (bool \<times> android) option" where
  "SSEAndroid_LoadClass jv w =
     (if aw_Class w \<noteq> None then Some (True, w)
      else if \<not> jv_LoadClass jv then Some (False, w)
      else do {
        (local_class, w) \<leftarrow> jni_NewLocal JClass w;
        (class, w) \<leftarrow> jni_NewGlobalRef local_class w;
        w \<leftarrow> jni_DeleteLocalRef local_class (w\<lparr>aw_Class := Some class\<rparr>);
        (ctor, w) \<leftarrow> jni_GetMethodID jv class ''<init>''
          ''(JLjava/lang/String;[Ljava/lang/String;[Ljava/lang/String;Ljava/lang/String;ZI)V'' w;
        (connect, w) \<leftarrow> jni_GetMethodID jv class ''connect'' ''()V'' (w\<lparr>aw_Ctor := ctor\<rparr>);
        (disconnect, w) \<leftarrow> jni_GetMethodID jv class ''disconnect'' ''()V'' (w\<lparr>aw_Connect := connect\<rparr>);
        let w = w\<lparr>aw_Disconnect := disconnect\<rparr>;
        Some (if ctor = None \<or> connect = None \<or> disconnect = None
              then (False, if aw_Exception w then jni_ExceptionClear w else w) else (True, w))
      })"

section \<open>String arrays\<close>

definition SSEAndroid_NewStringArray :: "nat \<Rightarrow> android \<Rightarrow> (nat \<times> android) option" where
  "SSEAndroid_NewStringArray length0 w = do {
     (string_class, w) \<leftarrow> jni_NewLocal JClass w;
     (array, w) \<leftarrow> jni_NewLocal (JStringArray (replicate length0 None)) w;
     w \<leftarrow> jni_DeleteLocalRef string_class w;
     Some (array, w)
   }"

definition SSEAndroid_SetStringArrayItem :: "java \<Rightarrow> nat \<Rightarrow> nat \<Rightarrow> string option \<Rightarrow> android \<Rightarrow> android option" where
  "SSEAndroid_SetStringArrayItem jv array index v w = do {
     (string_value, w) \<leftarrow> jni_NewLocal (JString (jni_NewStringUTF jv (case v of None \<Rightarrow> [] | Some s \<Rightarrow> s))) w;
     w \<leftarrow> jni_SetObjectArrayElement array index string_value w;
     jni_DeleteLocalRef string_value w
   }"

fun HeaderItems :: "java \<Rightarrow> nat \<Rightarrow> nat \<Rightarrow> nat \<Rightarrow> SSEHeader list \<Rightarrow> android \<Rightarrow> android option" where
  "HeaderItems jv keys vals i [] w = Some w"
| "HeaderItems jv keys vals i (h # hs) w = do {
     w \<leftarrow> SSEAndroid_SetStringArrayItem jv keys i (Some (hd_Name h)) w;
     w \<leftarrow> SSEAndroid_SetStringArrayItem jv vals i (Some (hd_Value h)) w;
     HeaderItems jv keys vals (Suc i) hs w
   }"

section \<open>The entry points\<close>

definition ANDROID_Platform_Initialize :: "java \<Rightarrow> android \<Rightarrow> (bool \<times> android) option" where
  "ANDROID_Platform_Initialize jv w = SSEAndroid_LoadClass jv w"

definition ANDROID_Platform_Finalize :: "android \<Rightarrow> android option" where
  "ANDROID_Platform_Finalize w = do {
     w \<leftarrow> (case aw_Class w of None \<Rightarrow> Some w | Some class \<Rightarrow> jni_DeleteGlobalRef class w);
     Some (w\<lparr>aw_Class := None, aw_Ctor := None, aw_Connect := None, aw_Disconnect := None\<rparr>)
   }"

definition ANDROID_Platform_IsSupported :: "android \<Rightarrow> bool" where
  "ANDROID_Platform_IsSupported w \<longleftrightarrow> aw_Class w \<noteq> None"

text \<open>The strings, the constructor, and the end of the references that were only its arguments.\<close>

definition NewObject :: "java \<Rightarrow> nat \<Rightarrow> nat \<Rightarrow> android \<Rightarrow> SSEConnection \<Rightarrow> (nat option \<times> android) option" where
  "NewObject jv keys vals w c = do {
     (url, w) \<leftarrow> jni_NewLocal (JString (jni_NewStringUTF jv (case cn_Url c of None \<Rightarrow> [] | Some u \<Rightarrow> u))) w;
     (last_event_id, w) \<leftarrow> jni_NewLocal (JString (jni_NewStringUTF jv (case cn_LastEventId c of None \<Rightarrow> [] | Some i \<Rightarrow> i))) w;
     (local_object, w) \<leftarrow> jni_NewClient jv (aw_Class w) (aw_Ctor w) (cn_Handle c) url keys vals last_event_id
       (cn_Reconnect c) (cn_RetryMS c) w;
     w \<leftarrow> jni_DeleteLocalRef url w;
     w \<leftarrow> jni_DeleteLocalRef last_event_id w;
     w \<leftarrow> jni_DeleteLocalRef keys w;
     w \<leftarrow> jni_DeleteLocalRef vals w;
     Some (local_object, w)
   }"

text \<open>From the constructor's return on.\<close>

definition StartClient ::
  "java \<Rightarrow> nat option \<Rightarrow> android \<Rightarrow> SSEConnection \<Rightarrow> (android \<times> SSEConnection \<times> string option) option" where
  "StartClient jv local_object w c =
     (if aw_Exception w then do {
        w \<leftarrow> (case local_object of None \<Rightarrow> Some (jni_ExceptionClear w)
               | Some r \<Rightarrow> jni_DeleteLocalRef r (jni_ExceptionClear w));
        Some (w, c, Some ''failed to create Android SSE client'') }
      else (case local_object of
        None \<Rightarrow> Some (w, c, Some ''failed to create Android SSE client'')
      | Some local_object \<Rightarrow> do {
          (object, w) \<leftarrow> jni_NewGlobalRef local_object w;
          let a = aw_NextClient w;
          let w = w\<lparr>aw_Clients := (aw_Clients w)(a \<mapsto> object), aw_NextClient := Suc a\<rparr>;
          w \<leftarrow> jni_DeleteLocalRef local_object w;
          w \<leftarrow> jni_CallVoidMethod (jv_ConnectThrows jv) object (aw_Connect w) w;
          if aw_Exception w then do {
            w \<leftarrow> jni_DeleteGlobalRef object (jni_ExceptionClear w);
            Some (w\<lparr>aw_Clients := (aw_Clients w)(a := None)\<rparr>, c\<lparr>cn_PlatformData := None\<rparr>,
                  Some ''Android SSE client failed to start'') }
          else Some (w, c\<lparr>cn_PlatformData := Some a\<rparr>, None) }))"

definition ANDROID_Platform_Connect ::
  "java \<Rightarrow> android \<Rightarrow> SSEConnection \<Rightarrow> (android \<times> SSEConnection \<times> string option) option" where
  "ANDROID_Platform_Connect jv w c = do {
     (loaded, w) \<leftarrow> SSEAndroid_LoadClass jv w;
     if \<not> loaded then Some (w, c, Some ''failed to load Android SSE Java adapter'')
     else do {
       (keys, w) \<leftarrow> SSEAndroid_NewStringArray (length (cn_Headers c)) w;
       (vals, w) \<leftarrow> SSEAndroid_NewStringArray (length (cn_Headers c)) w;
       w \<leftarrow> HeaderItems jv keys vals 0 (cn_Headers c) w;
       (local_object, w) \<leftarrow> NewObject jv keys vals w c;
       StartClient jv local_object w c
     }
   }"

definition ANDROID_Platform_Disconnect :: "java \<Rightarrow> android \<Rightarrow> SSEConnection \<Rightarrow> (android \<times> SSEConnection) option" where
  "ANDROID_Platform_Disconnect jv w c =
     (case cn_PlatformData c of None \<Rightarrow> Some (w, c)
      | Some a \<Rightarrow> (case aw_Clients w a of None \<Rightarrow> None
        | Some object \<Rightarrow> do {
            w \<leftarrow> jni_CallVoidMethod (jv_DisconnectThrows jv) object (aw_Disconnect w) w;
            w \<leftarrow> jni_DeleteGlobalRef object (if aw_Exception w then jni_ExceptionClear w else w);
            Some (w\<lparr>aw_Clients := (aw_Clients w)(a := None)\<rparr>, c\<lparr>cn_PlatformData := None\<rparr>) }))"

definition ANDROID_Platform_IsConnected :: "android \<Rightarrow> SSEConnection \<Rightarrow> bool" where
  "ANDROID_Platform_IsConnected w c = cn_Connected c"

section \<open>The functions that Java calls\<close>

text \<open>
  A Java string is a list of units or null; \<open>GetStringUTFChars\<close> gives its modified UTF-8; \<open>pins\<close> are the strings
  whose characters were got and not yet released, a release of another one is \<open>None\<close>. A \<open>jlong\<close> handle is cast
  to 32 bits.
\<close>

definition GetChars :: "string option \<Rightarrow> jchars option \<Rightarrow> jchars list \<Rightarrow> string option \<times> jchars list" where
  "GetChars absent s pins = (case s of None \<Rightarrow> (absent, pins) | Some t \<Rightarrow> (Some (mutf8 t), t # pins))"

definition ReleaseChars :: "jchars option \<Rightarrow> jchars list \<Rightarrow> jchars list option" where
  "ReleaseChars s pins =
     (case s of None \<Rightarrow> Some pins | Some t \<Rightarrow> if t \<in> set pins then Some (remove1 t pins) else None)"

definition nativeOnOpen :: "'e sse_api \<Rightarrow> int \<Rightarrow> int \<Rightarrow> 'e \<Rightarrow> 'e" where
  "nativeOnOpen api handle status e = api_EnqueueOpen api (to_int32 handle) status e"

definition nativeOnMessage ::
  "'e sse_api \<Rightarrow> int \<Rightarrow> jchars option \<Rightarrow> jchars option \<Rightarrow> jchars option \<Rightarrow> jchars list \<times> 'e
     \<Rightarrow> (bool \<times> jchars list \<times> 'e) option" where
  "nativeOnMessage api handle event_name data i pe = (case pe of (pins, e) \<Rightarrow> do {
     let (event_chars, pins) = GetChars None event_name pins;
     let (data_chars, pins) = GetChars None data pins;
     let (id_chars, pins) = GetChars None i pins;
     let (enqueued, e) = api_EnqueueMessage api (to_int32 handle) event_chars data_chars id_chars e;
     pins \<leftarrow> ReleaseChars i pins;
     pins \<leftarrow> ReleaseChars data pins;
     pins \<leftarrow> ReleaseChars event_name pins;
     Some (enqueued, pins, e)
   })"

definition nativeOnError ::
  "'e sse_api \<Rightarrow> int \<Rightarrow> jchars option \<Rightarrow> int \<Rightarrow> bool \<Rightarrow> int \<Rightarrow> jchars list \<times> 'e \<Rightarrow> (jchars list \<times> 'e) option" where
  "nativeOnError api handle err status reconnecting retry_ms pe = (case pe of (pins, e) \<Rightarrow> do {
     let (error_chars, pins) = GetChars (Some ''SSE error'') err pins;
     let e = api_EnqueueError api (to_int32 handle) error_chars status reconnecting retry_ms e;
     pins \<leftarrow> ReleaseChars err pins;
     Some (pins, e)
   })"

definition nativeOnClosed :: "'e sse_api \<Rightarrow> int \<Rightarrow> 'e \<Rightarrow> 'e" where
  "nativeOnClosed api handle e = api_EnqueueClosed api (to_int32 handle) e"

definition nativeOnDisconnected :: "'e sse_api \<Rightarrow> int \<Rightarrow> 'e \<Rightarrow> 'e" where
  "nativeOnDisconnected api handle e = api_SetConnected api (to_int32 handle) False e"

definition nativeOnRetry :: "int \<Rightarrow> int \<Rightarrow> 'e \<Rightarrow> 'e" where
  "nativeOnRetry handle retry_ms e = e"

definition nativeOnLastEventId ::
  "'e sse_api \<Rightarrow> int \<Rightarrow> jchars option \<Rightarrow> jchars list \<times> 'e \<Rightarrow> (jchars list \<times> 'e) option" where
  "nativeOnLastEventId api handle i pe = (case pe of (pins, e) \<Rightarrow> do {
     let (id_chars, pins) = GetChars (Some []) i pins;
     let e = api_SetLastEventId api (to_int32 handle) id_chars e;
     pins \<leftarrow> ReleaseChars i pins;
     Some (pins, e)
   })"

section \<open>The adapter\<close>

text \<open>Where an entry point would break JNI's contract, the state is left alone.\<close>

definition android_adapter :: "java \<Rightarrow> android adapter" where
  "android_adapter jv = \<lparr>ad_Initialize = (\<lambda>w. case ANDROID_Platform_Initialize jv w of None \<Rightarrow> (False, w) | Some r \<Rightarrow> r),
     ad_Finalize = (\<lambda>w. case ANDROID_Platform_Finalize w of None \<Rightarrow> w | Some w1 \<Rightarrow> w1),
     ad_IsSupported = ANDROID_Platform_IsSupported,
     ad_Connect = (\<lambda>w c. case ANDROID_Platform_Connect jv w c of None \<Rightarrow> (w, c, Some []) | Some r \<Rightarrow> r),
     ad_Disconnect = (\<lambda>w c. case ANDROID_Platform_Disconnect jv w c of None \<Rightarrow> (w, c\<lparr>cn_PlatformData := None\<rparr>) | Some r \<Rightarrow> r),
     ad_IsConnected = ANDROID_Platform_IsConnected, ad_Update = (\<lambda>w. w)\<rparr>"

lemma android_disconnect_law:
  "ANDROID_Platform_Disconnect jv w c = Some (w1, c1) \<Longrightarrow> c1 = c\<lparr>cn_PlatformData := None\<rparr>"
  by (auto simp: ANDROID_Platform_Disconnect_def unchanged_platform Let_def bind_eq_Some_conv split: option.splits prod.splits)

lemma android_start_law:
  assumes "cn_PlatformData c = None" and "StartClient jv r w c = Some (w1, c1, err)"
  shows "\<exists>d. c1 = c\<lparr>cn_PlatformData := d\<rparr> \<and> (err \<noteq> None \<longrightarrow> d = None)"
  using assms unchanged_platform [OF assms(1)]
  by (auto simp: StartClient_def Let_def bind_eq_Some_conv split: option.splits prod.splits if_splits)

lemma android_connect_law:
  assumes "cn_PlatformData c = None" and "ANDROID_Platform_Connect jv w c = Some (w1, c1, err)"
  shows "\<exists>d. c1 = c\<lparr>cn_PlatformData := d\<rparr> \<and> (err \<noteq> None \<longrightarrow> d = None)"
  using assms unchanged_platform [OF assms(1)] android_start_law [OF assms(1)]
  by (auto simp: ANDROID_Platform_Connect_def bind_eq_Some_conv split: prod.splits if_splits)

interpretation android_platform: platform_adapter "android_adapter jv" for jv
proof unfold_locales
  fix w c
  show "snd (ad_Disconnect (android_adapter jv) w c) = c\<lparr>cn_PlatformData := None\<rparr>"
    by (auto simp: android_adapter_def dest: android_disconnect_law split: option.split)
next
  fix w c w' c' e
  assume c: "cn_PlatformData c = None" and "ad_Connect (android_adapter jv) w c = (w', c', e)"
  then show "\<exists>d. c' = c\<lparr>cn_PlatformData := d\<rparr> \<and> (e \<noteq> None \<longrightarrow> d = None)"
    using unchanged_platform [OF c] android_connect_law [OF c]
    by (cases "ANDROID_Platform_Connect jv w c") (auto simp: android_adapter_def intro!: exI [of _ None])
qed

end
