(* ===== verification/AndroidProps.thy ===== *)
theory AndroidProps
  imports Android WorkerLog
begin

text \<open>
  The references of the Android adapter: every entry point keeps JNI's contract and deletes each reference
  it made, as long as the class has the methods; what Java is told of a connection and what of its reports arrives, with the
  strings in modified UTF-8; and what happens when a method is missing.
\<close>

section \<open>What the constructor gets\<close>

definition client_args_of :: "java \<Rightarrow> SSEConnection \<Rightarrow> client_args" where
  "client_args_of jv c = \<lparr>ja_Handle = cn_Handle c, ja_Url = jni_NewStringUTF jv (case cn_Url c of None \<Rightarrow> [] | Some u \<Rightarrow> u),
     ja_Keys = map (\<lambda>h. Some (jni_NewStringUTF jv (hd_Name h))) (cn_Headers c),
     ja_Values = map (\<lambda>h. Some (jni_NewStringUTF jv (hd_Value h))) (cn_Headers c),
     ja_LastEventId = jni_NewStringUTF jv (case cn_LastEventId c of None \<Rightarrow> [] | Some i \<Rightarrow> i),
     ja_Reconnect = cn_Reconnect c, ja_RetryMS = cn_RetryMS c\<rparr>"

lemmas jni_defs = jni_NewLocal_def jni_DeleteLocalRef_def jni_NewGlobalRef_def jni_DeleteGlobalRef_def
  jni_GetMethodID_def jni_ExceptionClear_def jni_CallVoidMethod_def

lemma NewStringArray_eval:
  assumes "\<not> aw_Exception w"
  shows "SSEAndroid_NewStringArray n w =
    Some (Suc (aw_Next w), w\<lparr>aw_Locals := (aw_Locals w)(aw_Next w := None, Suc (aw_Next w) \<mapsto> JStringArray (replicate n None)),
      aw_Next := Suc (Suc (aw_Next w))\<rparr>)"
  using assms by (simp add: SSEAndroid_NewStringArray_def jni_defs fun_upd_twist)

lemma SetItem_eval:
  assumes "\<not> aw_Exception w" and "aw_Locals w a = Some (JStringArray xs)" and "i < length xs"
    and "aw_Locals w (aw_Next w) = None"
  shows "SSEAndroid_SetStringArrayItem jv a i (Some v) w =
    Some (w\<lparr>aw_Locals := (aw_Locals w)(a \<mapsto> JStringArray (xs[i := Some (jni_NewStringUTF jv v)])), aw_Next := Suc (aw_Next w)\<rparr>)"
proof -
  have n: "a \<noteq> aw_Next w" using assms(2,4) by auto
  then have "(aw_Locals w)(aw_Next w \<mapsto> s, a \<mapsto> y, aw_Next w := None) = (aw_Locals w)(a \<mapsto> y)" for s y
    using assms(4) by (auto simp: fun_eq_iff)
  with n assms show ?thesis
    by (simp add: SSEAndroid_SetStringArrayItem_def jni_defs jni_SetObjectArrayElement_def)
qed

definition arrays :: "nat \<Rightarrow> jchars option list \<Rightarrow> nat \<Rightarrow> jchars option list \<Rightarrow> nat \<Rightarrow> java_object option" where
  "arrays ka ks va vs = [ka \<mapsto> JStringArray ks, va \<mapsto> JStringArray vs]"

lemma arrays_simps:
  "ka < va \<Longrightarrow> arrays ka ks va vs ka = Some (JStringArray ks)" "arrays ka ks va vs va = Some (JStringArray vs)"
  "ka < va \<Longrightarrow> (arrays ka ks va vs)(ka \<mapsto> JStringArray ks') = arrays ka ks' va vs"
  "(arrays ka ks va vs)(va \<mapsto> JStringArray vs') = arrays ka ks va vs'"
  "ka < va \<Longrightarrow> va < n \<Longrightarrow> arrays ka ks va vs n = None"
  by (auto simp: arrays_def)

lemma HeaderItems_eval:
  "\<lbrakk>\<not> aw_Exception w; ka < va; va < aw_Next w; length ks = i; length vs = i;
    aw_Locals w = arrays ka (ks @ replicate (length hs) None) va (vs @ replicate (length hs) None)\<rbrakk>
   \<Longrightarrow> HeaderItems jv ka va i hs w =
     Some (w\<lparr>aw_Locals := arrays ka (ks @ map (\<lambda>h. Some (jni_NewStringUTF jv (hd_Name h))) hs) va (vs @ map (\<lambda>h. Some (jni_NewStringUTF jv (hd_Value h))) hs),
       aw_Next := aw_Next w + 2 * length hs\<rparr>)"
proof (induction hs arbitrary: i ks vs w)
  case Nil
  then show ?case by (cases w) simp
next
  case (Cons h hs)
  let ?ks = "ks @ [Some (jni_NewStringUTF jv (hd_Name h))]" and ?vs = "vs @ [Some (jni_NewStringUTF jv (hd_Value h))]"
  let ?r = "replicate (length hs) None"
  let ?w1 = "w\<lparr>aw_Locals := arrays ka (?ks @ ?r) va (vs @ None # ?r), aw_Next := Suc (aw_Next w)\<rparr>"
  let ?w = "w\<lparr>aw_Locals := arrays ka (?ks @ ?r) va (?vs @ ?r), aw_Next := Suc (Suc (aw_Next w))\<rparr>"
  have "SSEAndroid_SetStringArrayItem jv ka i (Some (hd_Name h)) w = Some ?w1"
    using Cons.prems by (subst SetItem_eval [where xs = "ks @ None # ?r"]) (auto simp: arrays_simps)
  moreover have "SSEAndroid_SetStringArrayItem jv va i (Some (hd_Value h)) ?w1 = Some ?w"
    using Cons.prems
    by (subst SetItem_eval [where xs = "vs @ None # ?r"]) (auto simp: arrays_simps list_update_append)
  ultimately have "HeaderItems jv ka va i (h # hs) w = HeaderItems jv ka va (Suc i) hs ?w" by simp
  also have "\<dots> = Some (?w\<lparr>aw_Locals := arrays ka (?ks @ map (\<lambda>h. Some (jni_NewStringUTF jv (hd_Name h))) hs) va
         (?vs @ map (\<lambda>h. Some (jni_NewStringUTF jv (hd_Value h))) hs), aw_Next := aw_Next ?w + 2 * length hs\<rparr>)"
    using Cons.prems by (intro Cons.IH) auto
  finally show ?case by simp
qed

lemma NewObject_eval:
  assumes "\<not> aw_Exception w" and "ka < va" and "va < aw_Next w" and "Option.bind (aw_Class w) (aw_Globals w) = Some JClass"
    and "aw_Ctor w \<noteq> None" and l: "aw_Locals w = arrays ka (ja_Keys (client_args_of jv c)) va (ja_Values (client_args_of jv c))"
  shows "NewObject jv ka va w c =
    (let args = client_args_of jv c; k = Suc (Suc (aw_Next w));
         w1 = w\<lparr>aw_Locals := Map.empty, aw_Next := k, aw_Exception := snd (jv_New jv args)\<rparr>
     in Some (if fst (jv_New jv args) then (Some k, w1\<lparr>aw_Locals := [k \<mapsto> JClient args], aw_Next := Suc k\<rparr>) else (None, w1)))"
proof -
  define m where "m = aw_Next w"
  have m: "ka < va" "va < m" using assms(2,3) by (simp_all add: m_def)
  have D: "(arrays ka ks va vs)(m := None, Suc m := None, ka := None, va := None) = Map.empty"
    "(arrays ka ks va vs)(m := None, Suc m := None, Suc (Suc m) \<mapsto> z, ka := None, va := None) = [Suc (Suc m) \<mapsto> z]"
    "(arrays ka ks va vs)(Suc (Suc m) \<mapsto> z, m := None, Suc m := None, ka := None, va := None) = [Suc (Suc m) \<mapsto> z]"
    for ks vs z
    using m by (auto simp: fun_eq_iff arrays_def)
  have args: "\<lparr>ja_Handle = cn_Handle c, ja_Url = jni_NewStringUTF jv (case cn_Url c of None \<Rightarrow> [] | Some u \<Rightarrow> u),
      ja_Keys = ja_Keys (client_args_of jv c), ja_Values = ja_Values (client_args_of jv c),
      ja_LastEventId = jni_NewStringUTF jv (case cn_LastEventId c of None \<Rightarrow> [] | Some i \<Rightarrow> i),
      ja_Reconnect = cn_Reconnect c, ja_RetryMS = cn_RetryMS c\<rparr> = client_args_of jv c"
    by (simp add: client_args_of_def)
  show ?thesis
    using assms(1,4,5) m unfolding NewObject_def
    by (simp add: l m_def [symmetric] jni_defs jni_NewClient_def arrays_simps D args Let_def)
qed

text \<open>The part of \<open>SSE_Platform_Connect\<close> before the client starts.\<close>

lemma Connect_eval:
  assumes "\<not> aw_Exception w" and "aw_Locals w = Map.empty" and "aw_Class w = Some g" and "aw_Globals w g = Some JClass"
    and "aw_Ctor w \<noteq> None"
  shows "ANDROID_Platform_Connect jv w c =
    (let args = client_args_of jv c; k = Suc (Suc (aw_Next w + 2 * length (cn_Headers c) + 4));
         w1 = w\<lparr>aw_Locals := Map.empty, aw_Next := k, aw_Exception := snd (jv_New jv args)\<rparr>
     in if fst (jv_New jv args) then StartClient jv (Some k) (w1\<lparr>aw_Locals := [k \<mapsto> JClient args], aw_Next := Suc k\<rparr>) c
        else StartClient jv None w1 c)"
proof -
  let ?n = "aw_Next w" and ?hs = "cn_Headers c" and ?args = "client_args_of jv c"
  let ?ka = "Suc ?n" and ?va = "Suc (Suc (Suc ?n))" and ?m = "?n + 2 * length (cn_Headers c) + 4"
  let ?wa = "w\<lparr>aw_Locals := [?ka \<mapsto> JStringArray (replicate (length ?hs) None)], aw_Next := Suc (Suc ?n)\<rparr>"
  let ?w1 = "w\<lparr>aw_Locals := arrays ?ka (replicate (length ?hs) None) ?va (replicate (length ?hs) None),
      aw_Next := Suc (Suc (Suc (Suc ?n)))\<rparr>"
  let ?w2 = "w\<lparr>aw_Locals := arrays ?ka (ja_Keys ?args) ?va (ja_Values ?args), aw_Next := ?m\<rparr>"
  have L: "SSEAndroid_LoadClass jv w = Some (True, w)" using assms(3) by (simp add: SSEAndroid_LoadClass_def)
  have A: "SSEAndroid_NewStringArray (length ?hs) w = Some (?ka, ?wa)"
    "SSEAndroid_NewStringArray (length ?hs) ?wa = Some (?va, ?w1)"
    using assms(1,2) by (simp_all add: NewStringArray_eval arrays_def fun_upd_idem)
  have H: "HeaderItems jv ?ka ?va 0 ?hs ?w1 = Some ?w2"
    using assms(1) by (subst HeaderItems_eval [where ks = "[]" and vs = "[]"]) (auto simp: client_args_of_def)
  show ?thesis
    using assms unfolding ANDROID_Platform_Connect_def
    by (simp add: L A H NewObject_eval Let_def)
qed

section \<open>The references that are live\<close>

definition android_ok :: "android \<Rightarrow> bool" where
  "android_ok w \<longleftrightarrow> aw_Locals w = Map.empty \<and> \<not> aw_Exception w
     \<and> (\<forall>r \<ge> aw_Next w. aw_Globals w r = None) \<and> (\<forall>a \<ge> aw_NextClient w. aw_Clients w a = None)
     \<and> (\<forall>g. aw_Class w = Some g \<longrightarrow>
          aw_Globals w g = Some JClass \<and> aw_Ctor w \<noteq> None \<and> aw_Connect w \<noteq> None \<and> aw_Disconnect w \<noteq> None)
     \<and> (\<forall>a r. aw_Clients w a = Some r \<longrightarrow> (\<exists>args. aw_Globals w r = Some (JClient args)))
     \<and> (\<forall>a a' r. aw_Clients w a = Some r \<longrightarrow> aw_Clients w a' = Some r \<longrightarrow> a = a')
     \<and> (\<forall>r. aw_Globals w r \<noteq> None \<longrightarrow> aw_Class w = Some r \<or> (\<exists>a. aw_Clients w a = Some r))
     \<and> (aw_Class w = None \<longrightarrow> aw_Clients w = Map.empty)"

text \<open>The class as \<open>SseClient.java\<close> has it: its three methods are there.\<close>

definition complete :: "java \<Rightarrow> bool" where
  "complete jv \<longleftrightarrow> jv_Method jv ''<init>''
        ''(JLjava/lang/String;[Ljava/lang/String;[Ljava/lang/String;Ljava/lang/String;ZI)V'' \<noteq> None
     \<and> jv_Method jv ''connect'' ''()V'' \<noteq> None \<and> jv_Method jv ''disconnect'' ''()V'' \<noteq> None"

lemma android_okD:
  assumes "android_ok w"
  shows "aw_Locals w = Map.empty" "\<not> aw_Exception w" "aw_Next w \<le> r \<Longrightarrow> aw_Globals w r = None"
    "aw_NextClient w \<le> a \<Longrightarrow> aw_Clients w a = None"
    "aw_Class w = Some g \<Longrightarrow> aw_Globals w g = Some JClass \<and> aw_Ctor w \<noteq> None \<and> aw_Connect w \<noteq> None \<and> aw_Disconnect w \<noteq> None"
    "aw_Clients w a = Some r \<Longrightarrow> \<exists>args. aw_Globals w r = Some (JClient args)"
    "aw_Clients w a = Some r \<Longrightarrow> aw_Clients w a' = Some r \<Longrightarrow> a = a'"
    "aw_Globals w r \<noteq> None \<Longrightarrow> aw_Class w \<noteq> Some r \<Longrightarrow> \<exists>a. aw_Clients w a = Some r"
    "aw_Class w = None \<Longrightarrow> aw_Clients w = Map.empty"
  using assms unfolding android_ok_def by blast+

lemma client_not_class: "android_ok w \<Longrightarrow> aw_Clients w a = Some r \<Longrightarrow> aw_Class w \<noteq> Some r"
  using android_okD(5,6) by fastforce

lemma android_ok_later:
  "android_ok w \<Longrightarrow> aw_Next w \<le> n \<Longrightarrow> aw_NextClient w \<le> a \<Longrightarrow> android_ok (w\<lparr>aw_Next := n, aw_NextClient := a\<rparr>)"
  by (simp add: android_ok_def)

lemma android_ok_add:
  assumes ok: "android_ok w" and cl: "aw_Class w = Some g" and r: "aw_Next w \<le> r" "r < n"
  shows "android_ok (w\<lparr>aw_Globals := (aw_Globals w)(r \<mapsto> JClient args), aw_Next := n,
      aw_Clients := (aw_Clients w)(aw_NextClient w \<mapsto> r), aw_NextClient := Suc (aw_NextClient w)\<rparr>)" (is "android_ok ?w")
proof -
  have new: "aw_Globals w r = None" "aw_Clients w (aw_NextClient w) = None" using android_okD(3,4) [OF ok] r by simp_all
  have old: "aw_Clients w a \<noteq> Some r" for a using android_okD(6) [OF ok, of a r] new by auto
  have gr: "g \<noteq> r" using android_okD(5) [OF ok cl] new by auto
  show ?thesis
    unfolding android_ok_def
  proof (intro conjI allI impI)
    show "aw_Globals ?w s = None" if "aw_Next ?w \<le> s" for s using that r android_okD(3) [OF ok, of s] by simp
    show "aw_Clients ?w a = None" if "aw_NextClient ?w \<le> a" for a using that android_okD(4) [OF ok, of a] by simp
    show "\<exists>args. aw_Globals ?w s = Some (JClient args)" if "aw_Clients ?w a = Some s" for a s
      using that old android_okD(6) [OF ok, of a s] by (auto split: if_splits)
    show "a = a'" if "aw_Clients ?w a = Some s" "aw_Clients ?w a' = Some s" for a a' s
      using that old android_okD(7) [OF ok, of a s a'] by (auto split: if_splits)
    show "aw_Class ?w = Some s \<or> (\<exists>a. aw_Clients ?w a = Some s)" if "aw_Globals ?w s \<noteq> None" for s
    proof (cases "s = r")
      case False
      with that android_okD(8) [OF ok, of s] obtain a where "aw_Class w = Some s \<or> aw_Clients w a = Some s" by auto
      then show ?thesis using new by (auto intro!: exI [of _ a])
    qed auto
  qed (use cl gr android_okD(1,2,5) [OF ok] in auto)
qed

lemma android_ok_delete:
  assumes ok: "android_ok w" and a: "aw_Clients w a = Some r"
  shows "android_ok (w\<lparr>aw_Globals := (aw_Globals w)(r := None), aw_Clients := (aw_Clients w)(a := None)\<rparr>)" (is "android_ok ?w")
  unfolding android_ok_def
proof (intro conjI allI impI)
  show "\<exists>args. aw_Globals ?w s = Some (JClient args)" if "aw_Clients ?w a' = Some s" for a' s
    using that a android_okD(6) [OF ok, of a' s] android_okD(7) [OF ok, of a' s a] by (auto split: if_splits)
  show "b = b'" if "aw_Clients ?w b = Some s" "aw_Clients ?w b' = Some s" for b b' s
    using that android_okD(7) [OF ok, of b s b'] by (auto split: if_splits)
  show "aw_Class ?w = Some s \<or> (\<exists>a. aw_Clients ?w a = Some s)" if "aw_Globals ?w s \<noteq> None" for s
  proof (cases "aw_Class w = Some s")
    case False
    from that have n: "s \<noteq> r" "aw_Globals w s \<noteq> None" by (auto split: if_splits)
    with False android_okD(8) [OF ok, of s] obtain b where "aw_Clients w b = Some s" by blast
    with n a have "aw_Clients ?w b = Some s" by auto
    then show ?thesis by blast
  qed simp
qed (use android_okD(1-5,9) [OF ok] client_not_class [OF ok a] in auto)

lemma android_load_ok:
  assumes ok: "android_ok w" and "complete jv"
  shows "\<exists>b w1. SSEAndroid_LoadClass jv w = Some (b, w1) \<and> android_ok w1 \<and> (b \<longleftrightarrow> aw_Class w1 \<noteq> None)
    \<and> (aw_Class w \<noteq> None \<longrightarrow> w1 = w) \<and> aw_Clients w1 = aw_Clients w"
proof (cases "aw_Class w = None \<and> jv_LoadClass jv")
  case False
  with ok show ?thesis by (auto simp: SSEAndroid_LoadClass_def)
next
  case True
  then have g: "aw_Globals w r = None" for r using ok by (auto simp: android_ok_def)
  from assms True g show ?thesis
    by (auto simp: SSEAndroid_LoadClass_def jni_defs complete_def android_ok_def Let_def)
qed

text \<open>Whether Java takes a connection.\<close>

definition accepts :: "java \<Rightarrow> SSEConnection \<Rightarrow> bool" where
  "accepts jv c \<longleftrightarrow> jv_New jv (client_args_of jv c) = (True, False) \<and> \<not> jv_ConnectThrows jv (client_args_of jv c)"

lemma android_connect_eval:
  assumes ok: "android_ok w" and cl: "aw_Class w = Some g" and c: "cn_PlatformData c = None"
  shows "\<exists>w1 err. ANDROID_Platform_Connect jv w c =
      Some (w1, c\<lparr>cn_PlatformData := if accepts jv c then Some (aw_NextClient w) else None\<rparr>, err)
    \<and> (err = None \<longleftrightarrow> accepts jv c) \<and> android_ok w1
    \<and> (if accepts jv c
       then \<exists>r. aw_Clients w1 = (aw_Clients w)(aw_NextClient w \<mapsto> r) \<and> aw_Globals w1 = (aw_Globals w)(r \<mapsto> JClient (client_args_of jv c))
         \<and> aw_Globals w r = None
       else aw_Clients w1 = aw_Clients w \<and> aw_Globals w1 = aw_Globals w)"
proof -
  define k where "k = Suc (Suc (aw_Next w + 2 * length (cn_Headers c) + 4))"
  let ?args = "client_args_of jv c"
  let ?w1 = "w\<lparr>aw_Locals := Map.empty, aw_Next := k, aw_Exception := snd (jv_New jv ?args)\<rparr>"
  have k: "aw_Next w \<le> k" by (simp add: k_def)
  have facts: "\<not> aw_Exception w" "aw_Locals w = Map.empty" "aw_Globals w g = Some JClass" "aw_Ctor w \<noteq> None" "aw_Connect w \<noteq> None"
    using ok cl by (auto simp: android_ok_def)
  have C: "ANDROID_Platform_Connect jv w c =
      (if fst (jv_New jv ?args) then StartClient jv (Some k) (?w1\<lparr>aw_Locals := [k \<mapsto> JClient ?args], aw_Next := Suc k\<rparr>) c
       else StartClient jv None ?w1 c)"
    using facts cl by (simp add: Connect_eval k_def Let_def)
  have fresh: "aw_Globals w (Suc k) = None" "aw_Clients w (aw_NextClient w) = None" using ok k by (simp_all add: android_ok_def)
  note u = unchanged_platform [OF c]
  consider "fst (jv_New jv ?args)" "snd (jv_New jv ?args)" | "\<not> fst (jv_New jv ?args)"
    | "jv_New jv ?args = (True, False)" "jv_ConnectThrows jv ?args" | "accepts jv c"
    by (cases "jv_New jv ?args") (auto simp: accepts_def)
  then show ?thesis
  proof cases
    case 1
    then have "ANDROID_Platform_Connect jv w c = Some (w\<lparr>aw_Next := Suc k\<rparr>, c, Some ''failed to create Android SSE client'')"
      using facts by (simp add: C StartClient_def jni_defs)
    moreover have "android_ok (w\<lparr>aw_Next := Suc k\<rparr>)" using android_ok_later [OF ok, of "Suc k" "aw_NextClient w"] k by simp
    moreover have "\<not> accepts jv c" using 1 by (auto simp: accepts_def)
    ultimately show ?thesis using u by simp
  next
    case 2
    then have "ANDROID_Platform_Connect jv w c = Some (w\<lparr>aw_Next := k\<rparr>, c, Some ''failed to create Android SSE client'')"
      using facts by (simp add: C StartClient_def jni_defs)
    moreover have "android_ok (w\<lparr>aw_Next := k\<rparr>)" using android_ok_later [OF ok, of k "aw_NextClient w"] k by simp
    moreover have "\<not> accepts jv c" using 2 by (auto simp: accepts_def)
    ultimately show ?thesis using u by simp
  next
    case 3
    let ?w = "w\<lparr>aw_Next := Suc (Suc k), aw_NextClient := Suc (aw_NextClient w)\<rparr>"
    have "ANDROID_Platform_Connect jv w c = Some (?w, c\<lparr>cn_PlatformData := None\<rparr>, Some ''Android SSE client failed to start'')"
      using 3 facts fresh by (simp add: C StartClient_def jni_defs fun_upd_idem Let_def)
    moreover have "android_ok ?w" using android_ok_later [OF ok, of "Suc (Suc k)" "Suc (aw_NextClient w)"] k by simp
    moreover have "\<not> accepts jv c" using 3 by (auto simp: accepts_def)
    ultimately show ?thesis by simp
  next
    case 4
    let ?w = "w\<lparr>aw_Globals := (aw_Globals w)(Suc k \<mapsto> JClient ?args), aw_Next := Suc (Suc k),
      aw_Clients := (aw_Clients w)(aw_NextClient w \<mapsto> Suc k), aw_NextClient := Suc (aw_NextClient w)\<rparr>"
    have "ANDROID_Platform_Connect jv w c = Some (?w, c\<lparr>cn_PlatformData := Some (aw_NextClient w)\<rparr>, None)"
      using 4 facts by (simp add: accepts_def C StartClient_def jni_defs fun_upd_idem Let_def)
    moreover have "android_ok ?w" using k by (intro android_ok_add [OF ok cl]) simp_all
    ultimately show ?thesis using 4 fresh(1) by auto
  qed
qed

lemma android_disconnect_eval:
  assumes ok: "android_ok w" and c: "cn_PlatformData c = Some a" and a: "aw_Clients w a = Some r"
  shows "ANDROID_Platform_Disconnect jv w c =
    Some (w\<lparr>aw_Globals := (aw_Globals w)(r := None), aw_Clients := (aw_Clients w)(a := None)\<rparr>, c\<lparr>cn_PlatformData := None\<rparr>)"
proof -
  obtain args where "aw_Globals w r = Some (JClient args)" using android_okD(6) [OF ok a] by blast
  moreover obtain g where "aw_Class w = Some g" using android_okD(9) [OF ok] a by fastforce
  with android_okD(5) [OF ok] obtain m where "aw_Disconnect w = Some m" by blast
  ultimately show ?thesis
    using c a android_okD(2) [OF ok] by (simp add: ANDROID_Platform_Disconnect_def jni_defs)
qed

lemma android_finalize_eval:
  assumes ok: "android_ok w" and "aw_Clients w = Map.empty"
  shows "\<exists>w1. ANDROID_Platform_Finalize w = Some w1 \<and> aw_Globals w1 = Map.empty \<and> android_ok w1"
proof -
  have g: "aw_Globals w r \<noteq> None \<Longrightarrow> aw_Class w = Some r" for r using android_okD(8) [OF ok] assms(2) by fastforce
  show ?thesis
  proof (cases "aw_Class w")
    case None
    with g have "aw_Globals w = Map.empty" by fastforce
    with None ok show ?thesis by (simp add: ANDROID_Platform_Finalize_def android_ok_def)
  next
    case (Some k)
    with g have "(aw_Globals w)(k := None) = Map.empty" by (fastforce simp: fun_eq_iff)
    with Some ok assms(2) show ?thesis
      using android_okD(5) [OF ok Some] by (simp add: ANDROID_Platform_Finalize_def jni_defs android_ok_def)
  qed
qed

section \<open>Reachable states\<close>

definition android_zero :: android where
  "android_zero = \<lparr>aw_Class = None, aw_Ctor = None, aw_Connect = None, aw_Disconnect = None, aw_Locals = Map.empty,
     aw_Globals = Map.empty, aw_Next = 0, aw_Exception = False, aw_Clients = Map.empty, aw_NextClient = 0\<rparr>"

text \<open>
  Any order of the entry points, with whatever Java does at each, as the core calls them: a connection is connected
  once, disconnected while its client exists, and the adapter is finalized when all are destroyed.
\<close>

inductive android_reach :: "android \<Rightarrow> bool" where
  start: "android_reach android_zero"
| initialize: "android_reach w \<Longrightarrow> complete jv \<Longrightarrow> ANDROID_Platform_Initialize jv w = Some (b, w1) \<Longrightarrow> android_reach w1"
| connect: "android_reach w \<Longrightarrow> complete jv \<Longrightarrow> cn_PlatformData c = None \<Longrightarrow>
     ANDROID_Platform_Connect jv w c = Some (w1, c1, err) \<Longrightarrow> android_reach w1"
| disconnect: "android_reach w \<Longrightarrow> cn_PlatformData c = Some a \<Longrightarrow> aw_Clients w a = Some r \<Longrightarrow>
     ANDROID_Platform_Disconnect jv w c = Some (w1, c1) \<Longrightarrow> android_reach w1"
| finalize: "android_reach w \<Longrightarrow> aw_Clients w = Map.empty \<Longrightarrow> ANDROID_Platform_Finalize w = Some w1 \<Longrightarrow> android_reach w1"

lemma android_connect_total:
  assumes ok: "android_ok w" and "complete jv" and c: "cn_PlatformData c = None"
  shows "\<exists>w1 c1 err. ANDROID_Platform_Connect jv w c = Some (w1, c1, err) \<and> android_ok w1"
proof -
  obtain b w1 where L: "SSEAndroid_LoadClass jv w = Some (b, w1)" "android_ok w1" "b \<longleftrightarrow> aw_Class w1 \<noteq> None"
    using android_load_ok [OF assms(1,2)] by blast
  show ?thesis
  proof (cases b)
    case False
    with L show ?thesis by (simp add: ANDROID_Platform_Connect_def)
  next
    case True
    with L obtain g where g: "aw_Class w1 = Some g" by auto
    then have "SSEAndroid_LoadClass jv w1 = Some (True, w1)" by (simp add: SSEAndroid_LoadClass_def)
    with True L have "ANDROID_Platform_Connect jv w c = ANDROID_Platform_Connect jv w1 c" by (simp add: ANDROID_Platform_Connect_def)
    with android_connect_eval [OF L(2) g c, of jv] show ?thesis by auto
  qed
qed

lemma android_reach_ok: "android_reach w \<Longrightarrow> android_ok w"
proof (induction rule: android_reach.induct)
  case start
  then show ?case by (simp add: android_ok_def android_zero_def)
next
  case (initialize w jv b w1)
  with android_load_ok show ?case by (fastforce simp: ANDROID_Platform_Initialize_def)
next
  case (connect w jv c w1 c1 err)
  with android_connect_total [of w jv c] show ?case by auto
next
  case (disconnect w c a r jv w1 c1)
  with android_ok_delete [of w a r] show ?case by (simp add: android_disconnect_eval)
next
  case (finalize w w1)
  with android_finalize_eval [of w] show ?case by auto
qed

text \<open>
  C13. As long as the class has its three methods whenever it is loaded, and the adapter is finalized only when every client is
  disconnected, as the core does it, the Android adapter keeps JNI's contract and leaks nothing: in every order of its entry
  points, whatever the constructor and the methods throw, no local reference and no exception stays behind, the live global references are the
  class and one object per client, a connect and a disconnect break no rule, a disconnect deletes the object of its client
  and no other, and the shutdown deletes the last one.
\<close>
theorem android_references_balanced:
  assumes "android_reach w"
  shows "aw_Locals w = Map.empty \<and> \<not> aw_Exception w \<and> dom (aw_Globals w) = set_option (aw_Class w) \<union> ran (aw_Clients w)
    \<and> inj_on (aw_Clients w) (dom (aw_Clients w))
    \<and> (complete jv \<and> cn_PlatformData c = None \<longrightarrow> ANDROID_Platform_Connect jv w c \<noteq> None)
    \<and> (cn_PlatformData c = Some a \<and> aw_Clients w a = Some r \<longrightarrow>
         (\<exists>w1. ANDROID_Platform_Disconnect jv w c = Some (w1, c\<lparr>cn_PlatformData := None\<rparr>)
           \<and> dom (aw_Globals w1) = dom (aw_Globals w) - {r} \<and> dom (aw_Clients w1) = dom (aw_Clients w) - {a}))
    \<and> (aw_Clients w = Map.empty \<longrightarrow> (\<exists>w1. ANDROID_Platform_Finalize w = Some w1 \<and> aw_Globals w1 = Map.empty))"
proof -
  have ok: "android_ok w" by (rule android_reach_ok [OF assms])
  have "dom (aw_Globals w) = set_option (aw_Class w) \<union> ran (aw_Clients w)"
    using android_okD(5,6,8) [OF ok] by (fastforce simp: ran_def)
  moreover have "inj_on (aw_Clients w) (dom (aw_Clients w))"
    using android_okD(7) [OF ok] by (intro inj_onI) (metis domD)
  moreover have "complete jv \<and> cn_PlatformData c = None \<longrightarrow> ANDROID_Platform_Connect jv w c \<noteq> None"
    using android_connect_total [OF ok, of jv c] by auto
  ultimately show ?thesis
    using android_okD(1,2) [OF ok] android_finalize_eval [OF ok] android_disconnect_eval [OF ok] by auto
qed

text \<open>
  C24. What Java is told of a connection: the client object that a connect leaves behind was made from the
  connection's handle, its address, the names and values of its headers in order, its last event id and its reconnect settings,
  every text as the string that \<open>NewStringUTF\<close> makes of it; it exists
  just when Java accepted it, otherwise an error is returned and nothing stays behind; and a disconnect then restores
  the references that there were.
\<close>
theorem android_connect_passes_connection:
  assumes "android_reach w" and "aw_Class w = Some g" and "cn_PlatformData c = None"
  shows "\<exists>w1 c1 err. ANDROID_Platform_Connect jv w c = Some (w1, c1, err) \<and> (err = None \<longleftrightarrow> accepts jv c)
    \<and> (if accepts jv c
       then \<exists>a r w2. cn_PlatformData c1 = Some a \<and> aw_Clients w1 a = Some r
         \<and> aw_Globals w1 r = Some (JClient (client_args_of jv c))
         \<and> ANDROID_Platform_Disconnect jv1 w1 c1 = Some (w2, c) \<and> aw_Clients w2 = aw_Clients w \<and> aw_Globals w2 = aw_Globals w
       else c1 = c \<and> aw_Clients w1 = aw_Clients w \<and> aw_Globals w1 = aw_Globals w)"
proof -
  have ok: "android_ok w" by (rule android_reach_ok [OF assms(1)])
  note u = unchanged_platform [OF assms(3)]
  obtain w1 err where C: "ANDROID_Platform_Connect jv w c =
      Some (w1, c\<lparr>cn_PlatformData := if accepts jv c then Some (aw_NextClient w) else None\<rparr>, err)"
    "err = None \<longleftrightarrow> accepts jv c" "android_ok w1"
    and R: "if accepts jv c
       then \<exists>r. aw_Clients w1 = (aw_Clients w)(aw_NextClient w \<mapsto> r) \<and> aw_Globals w1 = (aw_Globals w)(r \<mapsto> JClient (client_args_of jv c))
         \<and> aw_Globals w r = None
       else aw_Clients w1 = aw_Clients w \<and> aw_Globals w1 = aw_Globals w"
    using android_connect_eval [OF ok assms(2,3)] by blast
  show ?thesis
  proof (cases "accepts jv c")
    case False
    with C R u show ?thesis by simp
  next
    case True
    with R obtain r where r: "aw_Clients w1 = (aw_Clients w)(aw_NextClient w \<mapsto> r)"
      "aw_Globals w1 = (aw_Globals w)(r \<mapsto> JClient (client_args_of jv c))" "aw_Globals w r = None" by auto
    have "aw_Clients w (aw_NextClient w) = None" using android_okD(4) [OF ok] by simp
    with r android_disconnect_eval [OF C(3), of "c\<lparr>cn_PlatformData := Some (aw_NextClient w)\<rparr>" "aw_NextClient w" r jv1] u
    have "ANDROID_Platform_Disconnect jv1 w1 (c\<lparr>cn_PlatformData := Some (aw_NextClient w)\<rparr>) =
        Some (w1\<lparr>aw_Globals := aw_Globals w, aw_Clients := aw_Clients w\<rparr>, c)"
      by (simp add: fun_upd_idem)
    with True C r show ?thesis by auto
  qed
qed

section \<open>What Java reports\<close>

lemma chars_released: "ReleaseChars s (snd (GetChars absent s pins)) = Some pins"
  by (simp add: ReleaseChars_def GetChars_def split: option.split)

text \<open>No byte of a modified UTF-8 text is NUL, and it is decoded to the units it came from.\<close>

lemma mutf8_no_nul [simp]: "c_str (mutf8 t) = mutf8 t"
proof -
  have nul: "char_of m \<noteq> NUL" if "0 < m" "m < 256" for m :: nat
  proof
    assume "char_of m = NUL"
    then have "of_char (char_of m :: char) = (of_char NUL :: nat)" by simp
    with that show False by simp
  qed
  have "NUL \<notin> set (mutf8_unit u)" for u
  proof -
    have "unat u < 65536" using unsigned_less [of u, where 'a = nat] by simp
    then have "unat u div 4096 < 16" by simp
    moreover have "unat u div 64 < 32" if "unat u < 2048" using that by simp
    moreover have "unat u mod 64 < 64" "unat u div 64 mod 64 < 64" by simp_all
    ultimately show ?thesis
      using nul [of 192] nul [of 128] nul [of "unat u"] nul [of "192 + unat u div 64"] nul [of "128 + unat u mod 64"]
        nul [of "224 + unat u div 4096"] nul [of "128 + unat u div 64 mod 64"]
      by (simp add: mutf8_unit_def Let_def eq_commute [of NUL])
  qed
  then have "NUL \<notin> set (mutf8 t)" by (induction t) auto
  then show ?thesis by simp
qed

lemma mutf8_decode_unit: "mutf8_decode (mutf8_unit u @ s) = map_option ((#) u) (mutf8_decode s)"
proof -
  define n where "n = unat u"
  have u: "u = word_of_nat n" by (simp add: n_def)
  have n: "n < 65536" using unsigned_less [of u, where 'a = nat] by (simp add: n_def)
  have "n div 4096 * 64 + n div 64 mod 64 = n div 64" using div_mult_mod_eq [of "n div 64" 64] by (simp add: div_mult2_eq [symmetric])
  then have "n div 4096 * 4096 + n div 64 mod 64 * 64 + n mod 64 = n div 64 * 64 + n mod 64" by linarith
  then have sum: "n div 64 * 64 + n mod 64 = n" "n div 4096 * 4096 + n div 64 mod 64 * 64 + n mod 64 = n" by simp_all
  have "(word_of_nat (n div 4096) * 4096 + word_of_nat (n div 64 mod 64) * 64 + word_of_nat (n mod 64) :: 16 word) =
      word_of_nat (n div 4096 * 4096 + n div 64 mod 64 * 64 + n mod 64)" by simp
  also have "\<dots> = word_of_nat n" by (simp only: sum)
  finally have "(word_of_nat (n div 4096) * 4096 + word_of_nat (n div 64 mod 64) * 64 + word_of_nat (n mod 64) :: 16 word) =
      word_of_nat n" .
  moreover have "n div 64 < 32" if "n < 2048" using that by simp
  moreover have "n div 4096 < 16" using n by simp
  ultimately show ?thesis
    unfolding mutf8_unit_def n_def [symmetric] by (simp add: Let_def u sum)
qed

lemma mutf8_roundtrip [simp]: "mutf8_decode (mutf8 t) = Some t"
  by (induction t) (simp_all add: mutf8_decode_unit)

lemma mutf8_ascii: "\<forall>x \<in> set s. 0 < (of_char x :: nat) \<and> (of_char x :: nat) < 128 \<Longrightarrow>
    mutf8 (map (\<lambda>x. word_of_nat (of_char x)) s) = s"
  by (induction s) (simp_all add: mutf8_unit_def Let_def unat_of_nat)

lemma NewStringUTF_mutf8: "jni_NewStringUTF jv (mutf8 t) = t"
  by (simp add: jni_NewStringUTF_def)

text \<open>
  C39. What Java reports of its client reaches the connection that the client was made for, once per call: the handle
  survives the cast to 64 bits and back, every string arrives as its modified UTF-8, which has no NUL and determines the
  string, a missing error text is replaced, the result tells Java whether the event was queued, and the
  characters of every string are released. ASCII text that Java was given, such as a resume position, comes back as the
  same bytes.
\<close>
theorem android_reports_reach_connection:
  fixes jv :: java
  assumes "- 2147483648 \<le> cn_Handle c" and "cn_Handle c \<le> 2147483647"
  defines "h \<equiv> ja_Handle (client_args_of jv c)"
  shows "nativeOnMessage api h name data i (pins, e) =
      (case api_EnqueueMessage api (cn_Handle c) (map_option mutf8 name) (map_option mutf8 data) (map_option mutf8 i) e of
         (b, e1) \<Rightarrow> Some (b, pins, e1))
    \<and> nativeOnError api h err status reconnecting ms (pins, e) =
      Some (pins, api_EnqueueError api (cn_Handle c)
        (Some (case err of None \<Rightarrow> ''SSE error'' | Some m \<Rightarrow> mutf8 m)) status reconnecting ms e)
    \<and> nativeOnLastEventId api h i (pins, e) =
      Some (pins, api_SetLastEventId api (cn_Handle c) (Some (case i of None \<Rightarrow> [] | Some s \<Rightarrow> mutf8 s)) e)
    \<and> nativeOnOpen api h status e = api_EnqueueOpen api (cn_Handle c) status e
    \<and> nativeOnClosed api h e = api_EnqueueClosed api (cn_Handle c) e
    \<and> nativeOnDisconnected api h e = api_SetConnected api (cn_Handle c) False e
    \<and> c_str (mutf8 t) = mutf8 t \<and> mutf8_decode (mutf8 t) = Some t
    \<and> ((\<forall>x \<in> set s. 0 < (of_char x :: nat) \<and> (of_char x :: nat) < 128) \<longrightarrow> mutf8 (jni_NewStringUTF jv s) = s)"
proof -
  have h: "to_int32 h = cn_Handle c" using assms(1,2) by (simp add: h_def client_args_of_def to_int32_id)
  have chars: "fst (GetChars absent s ps) = (case s of None \<Rightarrow> absent | Some t \<Rightarrow> Some (mutf8 t))" for absent s and ps :: "jchars list"
    by (simp add: GetChars_def split: option.split)
  have "mutf8 (jni_NewStringUTF jv s) = s" if "\<forall>x \<in> set s. 0 < (of_char x :: nat) \<and> (of_char x :: nat) < 128"
    using NewStringUTF_mutf8 [of jv "map (\<lambda>x. word_of_nat (of_char x)) s"] mutf8_ascii [OF that] by simp
  then show ?thesis
    unfolding nativeOnMessage_def nativeOnError_def nativeOnLastEventId_def nativeOnOpen_def nativeOnClosed_def nativeOnDisconnected_def h
    by (auto simp: case_prod_beta chars chars_released map_option_case split: option.split)
qed

text \<open>
  A character outside the basic plane, here U+1F600, does not arrive as its UTF-8 (\<open>F0 9F 98 80\<close>) but as two
  encoded surrogates, and the character U+0000 arrives as two bytes.
\<close>

theorem android_payload_not_utf8:
  "mutf8 [0xD83D, 0xDE00] = map char_of [0xED :: nat, 0xA0, 0xBD, 0xED, 0xB8, 0x80]"
  "mutf8 [0] = map char_of [0xC0 :: nat, 0x80]"
  by (simp_all add: mutf8_unit_def Let_def)

section \<open>A class with a method missing\<close>

abbreviation ctor_signature :: string where
  "ctor_signature \<equiv> ''(JLjava/lang/String;[Ljava/lang/String;[Ljava/lang/String;Ljava/lang/String;ZI)V''"

lemma android_load_incomplete:
  assumes ok: "android_ok w" and new: "aw_Class w = None" and cl: "jv_LoadClass jv"
    and "\<not> complete jv"
  shows "SSEAndroid_LoadClass jv w =
    (if jv_Method jv ''<init>'' ctor_signature = None \<or> jv_Method jv ''connect'' ''()V'' = None then None
     else Some (False, w\<lparr>aw_Class := Some (Suc (aw_Next w)), aw_Ctor := jv_Method jv ''<init>'' ctor_signature,
       aw_Connect := jv_Method jv ''connect'' ''()V'', aw_Disconnect := None,
       aw_Globals := (aw_Globals w)(Suc (aw_Next w) \<mapsto> JClass), aw_Next := Suc (Suc (aw_Next w))\<rparr>))"
  using assms android_okD(1,2) [OF ok] by (cases w) (auto simp: SSEAndroid_LoadClass_def jni_defs complete_def Let_def)

lemma android_null_disconnect:
  assumes "aw_Locals w = Map.empty" and "\<not> aw_Exception w" and "aw_Class w = Some g" and "aw_Globals w g = Some JClass"
    and "aw_Ctor w \<noteq> None" and "aw_Connect w \<noteq> None" and "aw_Disconnect w = None" and "accepts jv c"
  shows "\<exists>w1 c1. ANDROID_Platform_Connect jv w c = Some (w1, c1, None) \<and> (\<forall>jv1. ANDROID_Platform_Disconnect jv1 w1 c1 = None)"
  using assms
  by (subst Connect_eval) (auto simp: Let_def accepts_def StartClient_def jni_defs ANDROID_Platform_Disconnect_def)

text \<open>
  C40. A class with a method missing (a shrinker may have removed it): without the constructor or \<open>connect\<close> the load itself
  breaks JNI's contract, because the next method is looked up with the exception of the first pending. Without
  \<open>disconnect\<close> alone the class is refused only once: the initialization fails, but leaves the class set, so the
  platform counts as supported, every connect that Java accepts then succeeds, and the disconnect calls a null
  method id.
\<close>
theorem android_half_loaded_class:
  assumes "android_reach w" and "aw_Class w = None" and "jv_LoadClass jv"
  shows "(jv_Method jv ''<init>'' ctor_signature = None \<or> jv_Method jv ''connect'' ''()V'' = None
      \<longrightarrow> ANDROID_Platform_Initialize jv w = None)
    \<and> (jv_Method jv ''<init>'' ctor_signature \<noteq> None \<and> jv_Method jv ''connect'' ''()V'' \<noteq> None
        \<and> jv_Method jv ''disconnect'' ''()V'' = None
      \<longrightarrow> (\<exists>w1. ANDROID_Platform_Initialize jv w = Some (False, w1) \<and> ANDROID_Platform_IsSupported w1
        \<and> (\<forall>jv1 c. accepts jv1 c \<longrightarrow> (\<exists>w2 c2. ANDROID_Platform_Connect jv1 w1 c = Some (w2, c2, None)
            \<and> (\<forall>jv2. ANDROID_Platform_Disconnect jv2 w2 c2 = None)))))"
proof -
  have ok: "android_ok w" by (rule android_reach_ok [OF assms(1)])
  note load = android_load_incomplete [OF ok assms(2,3)]
  let ?w1 = "w\<lparr>aw_Class := Some (Suc (aw_Next w)), aw_Ctor := jv_Method jv ''<init>'' ctor_signature,
       aw_Connect := jv_Method jv ''connect'' ''()V'', aw_Disconnect := None,
       aw_Globals := (aw_Globals w)(Suc (aw_Next w) \<mapsto> JClass), aw_Next := Suc (Suc (aw_Next w))\<rparr>"
  have "\<exists>w2 c2. ANDROID_Platform_Connect jv1 ?w1 c = Some (w2, c2, None) \<and> (\<forall>jv2. ANDROID_Platform_Disconnect jv2 w2 c2 = None)"
    if "jv_Method jv ''<init>'' ctor_signature \<noteq> None" "jv_Method jv ''connect'' ''()V'' \<noteq> None" "accepts jv1 c" for jv1 c
    using android_null_disconnect [of ?w1 "Suc (aw_Next w)" jv1 c] that android_okD(1,2) [OF ok] by simp
  then show ?thesis
    using load by (auto simp: ANDROID_Platform_Initialize_def ANDROID_Platform_IsSupported_def complete_def)
qed

definition java_without :: "string \<Rightarrow> java" where
  "java_without m = \<lparr>jv_LoadClass = True, jv_Method = (\<lambda>name signature. if name = m then None else Some 1),
     jv_New = (\<lambda>args. (True, False)), jv_ConnectThrows = (\<lambda>args. False), jv_DisconnectThrows = (\<lambda>args. False),
     jv_Malformed = (\<lambda>s. [])\<rparr>"

theorem android_half_loaded_class_witness:
  "ANDROID_Platform_Initialize (java_without ''<init>'') android_zero = None
   \<and> (\<exists>w1. ANDROID_Platform_Initialize (java_without ''disconnect'') android_zero = Some (False, w1)
        \<and> ANDROID_Platform_IsSupported w1
        \<and> (\<exists>w2 c2. ANDROID_Platform_Connect (java_without ''none'') w1 SSEConnection_new = Some (w2, c2, None)
            \<and> ANDROID_Platform_Disconnect (java_without ''none'') w2 c2 = None))"
proof -
  have z: "aw_Class android_zero = None" "jv_LoadClass (java_without m)" for m by (simp_all add: android_zero_def java_without_def)
  have "accepts (java_without ''none'') SSEConnection_new" by (simp add: accepts_def java_without_def)
  with android_half_loaded_class [OF android_reach.start z(1), of "java_without ''<init>''"]
    android_half_loaded_class [OF android_reach.start z(1), of "java_without ''disconnect''"] z(2)
  show ?thesis by (simp add: java_without_def) blast
qed

section \<open>Examples\<close>

definition demo_java :: java where
  "demo_java = java_without ''none''"

lemma demo_complete: "complete demo_java"
  by (simp add: complete_def demo_java_def java_without_def)

text \<open>The class is loaded and one connection, of the handle 5, is connected.\<close>

definition demo_connected :: SSEConnection where
  "demo_connected = SSEConnection_new\<lparr>cn_Handle := 5, cn_Headers := [\<lparr>hd_Name = ''X'', hd_Value = ''1''\<rparr>]\<rparr>"

definition demo_android :: android where
  "demo_android = \<lparr>aw_Class = Some 1, aw_Ctor = Some 1, aw_Connect = Some 1, aw_Disconnect = Some 1, aw_Locals = Map.empty,
     aw_Globals = [1 \<mapsto> JClass, 11 \<mapsto> JClient (client_args_of demo_java demo_connected)], aw_Next = 12, aw_Exception = False,
     aw_Clients = [0 \<mapsto> 11], aw_NextClient = 1\<rparr>"

lemma demo_android_reach: "android_reach demo_android"
proof -
  let ?w = "\<lparr>aw_Class = Some 1, aw_Ctor = Some 1, aw_Connect = Some 1, aw_Disconnect = Some 1, aw_Locals = Map.empty,
     aw_Globals = [1 \<mapsto> JClass], aw_Next = 2, aw_Exception = False, aw_Clients = Map.empty, aw_NextClient = 0\<rparr>"
  have "ANDROID_Platform_Initialize demo_java android_zero = Some (True, ?w)"
    by (simp add: ANDROID_Platform_Initialize_def SSEAndroid_LoadClass_def jni_defs demo_java_def java_without_def
        android_zero_def Let_def)
  from android_reach.initialize [OF android_reach.start demo_complete this] have "android_reach ?w" .
  moreover have "ANDROID_Platform_Connect demo_java ?w demo_connected =
      Some (demo_android, demo_connected\<lparr>cn_PlatformData := Some 0\<rparr>, None)"
    by (subst Connect_eval)
      (simp_all add: Let_def demo_java_def java_without_def StartClient_def jni_defs demo_android_def demo_connected_def SSEConnection_new_def)
  moreover have "cn_PlatformData demo_connected = None" by (simp add: demo_connected_def SSEConnection_new_def)
  ultimately show ?thesis using android_reach.connect [OF _ demo_complete] by blast
qed

theorem android_references_balanced_witness:
  "dom (aw_Globals demo_android) = {1, 11} \<and> dom (aw_Globals demo_android) = set_option (aw_Class demo_android) \<union> ran (aw_Clients demo_android)
   \<and> (\<exists>w1 c1. ANDROID_Platform_Disconnect demo_java demo_android (demo_connected\<lparr>cn_PlatformData := Some 0\<rparr>) = Some (w1, c1)
        \<and> dom (aw_Globals w1) = {1, 11} - {11})"
proof -
  have d: "dom (aw_Globals demo_android) = {1, 11}" "aw_Clients demo_android 0 = Some 11" by (auto simp: demo_android_def)
  from android_references_balanced [OF demo_android_reach, of demo_java "demo_connected\<lparr>cn_PlatformData := Some 0\<rparr>" 0 11] d
  show ?thesis by auto
qed

theorem android_connect_passes_connection_witness:
  "\<exists>w1 c1 a r. ANDROID_Platform_Connect demo_java demo_android demo_connected = Some (w1, c1, None)
     \<and> aw_Clients w1 a = Some r \<and> aw_Globals w1 r = Some (JClient (client_args_of demo_java demo_connected))"
proof -
  have "aw_Class demo_android = Some 1" by (simp add: demo_android_def)
  moreover have "cn_PlatformData demo_connected = None" by (simp add: demo_connected_def SSEConnection_new_def)
  moreover have "accepts demo_java demo_connected" by (simp add: accepts_def demo_java_def java_without_def)
  ultimately show ?thesis
    using android_connect_passes_connection [OF demo_android_reach, of 1 demo_connected demo_java demo_java] by auto
qed

theorem android_reports_reach_connection_witness:
  "\<exists>pins e. nativeOnMessage (log_api (\<lambda>_. True)) (ja_Handle (client_args_of demo_java demo_connected)) None (Some [120]) (Some [0xE9])
       ([[122]], []) = Some (True, pins, e)
     \<and> pins = [[122]] \<and> e = [AMessage 5 None (Some [char_of (120 :: nat)]) (Some (map char_of [0xC3 :: nat, 0xA9])) True]
     \<and> mutf8 (jni_NewStringUTF demo_java ''7'') = ''7''"
proof -
  have c: "cn_Handle demo_connected = 5" by (simp add: demo_connected_def)
  then have "- 2147483648 \<le> cn_Handle demo_connected" "cn_Handle demo_connected \<le> 2147483647" by simp_all
  from android_reports_reach_connection [OF this, of "log_api (\<lambda>_. True)" demo_java None "Some [120]" "Some [0xE9]" "[[122]]" "[]"
      _ _ _ _ _ "''7''"] c
  show ?thesis by (simp add: mutf8_unit_def Let_def)
qed

end
