(* ===== verification/EventMemory.thy ===== *)
theory EventMemory
  imports Lifecycle "HOL-Library.Multiset"
begin

text \<open>
  The strings of the queued events (\<open>sse.cpp\<close>) at the level of \<open>malloc\<close> and \<open>free\<close>: an event has
  pointers to blocks, as \<open>SSEEvent\<close> does, and a queue of them refines the queue of \<open>EventQueue\<close>. Freeing or reading
  a block that is not allocated is undefined (\<open>None\<close>). \<open>malloc\<close> succeeds, and an address is not used twice.
\<close>

section \<open>Blocks\<close>

record memory =
  mm_Blocks :: "nat \<Rightarrow> string option"
  mm_Next :: nat

definition raw_StrDup :: "string option \<Rightarrow> 'a memory_scheme \<Rightarrow> nat option \<times> 'a memory_scheme" where
  "raw_StrDup v m =
     (case v of None \<Rightarrow> (None, m)
      | Some s \<Rightarrow> (Some (mm_Next m), m\<lparr>mm_Blocks := (mm_Blocks m)(mm_Next m \<mapsto> c_str s), mm_Next := Suc (mm_Next m)\<rparr>))"

definition raw_free :: "nat option \<Rightarrow> 'a memory_scheme \<Rightarrow> 'a memory_scheme option" where
  "raw_free p m =
     (case p of None \<Rightarrow> Some m
      | Some a \<Rightarrow> (case mm_Blocks m a of None \<Rightarrow> None | Some s \<Rightarrow> Some (m\<lparr>mm_Blocks := (mm_Blocks m)(a := None)\<rparr>)))"

definition raw_read :: "nat option \<Rightarrow> 'a memory_scheme \<Rightarrow> string option option" where
  "raw_read p m = (case p of None \<Rightarrow> Some None | Some a \<Rightarrow> map_option Some (mm_Blocks m a))"

section \<open>Events with pointers\<close>

record raw_event =
  re_Handle :: int
  re_Type :: int
  re_Status :: int
  re_RetryMS :: int
  re_Reconnect :: bool
  re_Event :: "nat option"
  re_Data :: "nat option"
  re_Id :: "nat option"
  re_Error :: "nat option"

definition raw_event_new :: raw_event where
  "raw_event_new = \<lparr>re_Handle = 0, re_Type = 0, re_Status = 0, re_RetryMS = 0, re_Reconnect = False,
     re_Event = None, re_Data = None, re_Id = None, re_Error = None\<rparr>"

text \<open>The event as a reader of the pointers sees it.\<close>

definition read_event :: "'a memory_scheme \<Rightarrow> raw_event \<Rightarrow> SSEEvent option" where
  "read_event m ev = do {
     name \<leftarrow> raw_read (re_Event ev) m;
     data \<leftarrow> raw_read (re_Data ev) m;
     ident \<leftarrow> raw_read (re_Id ev) m;
     err \<leftarrow> raw_read (re_Error ev) m;
     Some \<lparr>ev_Handle = re_Handle ev, ev_Type = re_Type ev, ev_Status = re_Status ev, ev_RetryMS = re_RetryMS ev,
       ev_Reconnect = re_Reconnect ev, ev_Event = name, ev_Data = data, ev_Id = ident, ev_Error = err\<rparr>
   }"

definition raw_FreeEvent :: "raw_event \<Rightarrow> 'a memory_scheme \<Rightarrow> (raw_event \<times> 'a memory_scheme) option" where
  "raw_FreeEvent ev m = do {
     m \<leftarrow> raw_free (re_Event ev) m;
     m \<leftarrow> raw_free (re_Data ev) m;
     m \<leftarrow> raw_free (re_Id ev) m;
     m \<leftarrow> raw_free (re_Error ev) m;
     Some (raw_event_new, m)
   }"

section \<open>The queue\<close>

record raw_queue = memory +
  rq_Active :: bool
  rq_Capacity :: nat
  rq_Events :: "raw_event list"
  rq_Overflow :: "int list"
  rq_Dispatched :: "SSEEvent list"

definition raw_QueuePush :: "raw_event \<Rightarrow> raw_queue \<Rightarrow> (bool \<times> raw_queue) option" where
  "raw_QueuePush ev q =
     (if \<not> rq_Active q then do { (_, q) \<leftarrow> raw_FreeEvent ev q; Some (False, q) }
      else if rq_Capacity q \<le> length (rq_Events q) then do {
        (_, q) \<leftarrow> raw_FreeEvent ev
          (if list_ex (\<lambda>h. h = re_Handle ev) (rq_Overflow q) then q else q\<lparr>rq_Overflow := rq_Overflow q @ [re_Handle ev]\<rparr>);
        Some (False, q) }
      else Some (True, q\<lparr>rq_Events := rq_Events q @ [ev]\<rparr>))"

definition raw_EnqueueMessage ::
  "int \<Rightarrow> string option \<Rightarrow> string option \<Rightarrow> string option \<Rightarrow> raw_queue \<Rightarrow> (bool \<times> raw_queue) option" where
  "raw_EnqueueMessage i name data ident q =
     (let (n, q) = raw_StrDup (Some (case name of None \<Rightarrow> ''message'' | Some x \<Rightarrow> x)) q;
          (d, q) = raw_StrDup (Some (case data of None \<Rightarrow> [] | Some x \<Rightarrow> x)) q;
          (x, q) = raw_StrDup (Some (case ident of None \<Rightarrow> [] | Some x \<Rightarrow> x)) q
      in raw_QueuePush (raw_event_new\<lparr>re_Handle := i, re_Type := event_type_code SSE_EVENT_MESSAGE,
           re_Event := n, re_Data := d, re_Id := x\<rparr>) q)"

definition raw_EnqueueError :: "int \<Rightarrow> string option \<Rightarrow> int \<Rightarrow> bool \<Rightarrow> int \<Rightarrow> raw_queue \<Rightarrow> (bool \<times> raw_queue) option" where
  "raw_EnqueueError i err status reconnecting retry_ms q =
     (let (x, q) = raw_StrDup (Some (case err of None \<Rightarrow> ''SSE error'' | Some x \<Rightarrow> x)) q
      in raw_QueuePush (raw_event_new\<lparr>re_Handle := i, re_Type := event_type_code SSE_EVENT_ERROR, re_Status := status,
           re_RetryMS := retry_ms, re_Reconnect := reconnecting, re_Error := x\<rparr>) q)"

text \<open>The events without a string; the flag of the connection is not part of this.\<close>

definition raw_EnqueueOpen :: "int \<Rightarrow> int \<Rightarrow> raw_queue \<Rightarrow> (bool \<times> raw_queue) option" where
  "raw_EnqueueOpen i status q =
     raw_QueuePush (raw_event_new\<lparr>re_Handle := i, re_Type := event_type_code SSE_EVENT_OPEN, re_Status := status\<rparr>) q"

definition raw_EnqueueClosed :: "int \<Rightarrow> raw_queue \<Rightarrow> (bool \<times> raw_queue) option" where
  "raw_EnqueueClosed i q =
     raw_QueuePush (raw_event_new\<lparr>re_Handle := i, re_Type := event_type_code SSE_EVENT_CLOSED\<rparr>) q"

datatype raw_push =
    RMessage int "string option" "string option" "string option"
  | RError int "string option" int bool int
  | ROpen int int
  | RClosed int

fun raw_step :: "raw_push \<Rightarrow> raw_queue \<Rightarrow> (bool \<times> raw_queue) option" where
  "raw_step (RMessage i n d x) q = raw_EnqueueMessage i n d x q"
| "raw_step (RError i m st r ms) q = raw_EnqueueError i m st r ms q"
| "raw_step (ROpen i st) q = raw_EnqueueOpen i st q"
| "raw_step (RClosed i) q = raw_EnqueueClosed i q"

fun raw_steps :: "raw_push list \<Rightarrow> raw_queue \<Rightarrow> raw_queue option" where
  "raw_steps [] q = Some q"
| "raw_steps (p # ps) q = do { (_, q) \<leftarrow> raw_step p q; raw_steps ps q }"

section \<open>The flush\<close>

text \<open>
  The dispatcher reads the event; what is pushed while its Lua callback runs is an input, one list for each
  event and overflow notice of the flush.
\<close>

definition raw_Dispatch :: "raw_push list \<Rightarrow> raw_event \<Rightarrow> raw_queue \<Rightarrow> raw_queue option" where
  "raw_Dispatch ps ev q = do {
     e \<leftarrow> read_event q ev;
     raw_steps ps (q\<lparr>rq_Dispatched := rq_Dispatched q @ [e]\<rparr>)
   }"

fun raw_dispatch_all :: "(nat \<Rightarrow> raw_push list) \<Rightarrow> nat \<Rightarrow> raw_event list \<Rightarrow> raw_queue \<Rightarrow> raw_queue option" where
  "raw_dispatch_all during n [] q = Some q"
| "raw_dispatch_all during n (ev # evs) q = do {
     q \<leftarrow> raw_Dispatch (during n) ev q;
     (_, q) \<leftarrow> raw_FreeEvent ev q;
     raw_dispatch_all during (Suc n) evs q
   }"

definition raw_DispatchOverflow :: "raw_push list \<Rightarrow> int \<Rightarrow> raw_queue \<Rightarrow> raw_queue option" where
  "raw_DispatchOverflow ps i q =
     (let (x, q) = raw_StrDup (Some ''SSE event queue overflow; events were dropped'') q;
          ev = raw_event_new\<lparr>re_Handle := i, re_Type := event_type_code SSE_EVENT_ERROR, re_Status := 0,
            re_RetryMS := -1, re_Error := x\<rparr>
      in do {
        q \<leftarrow> raw_Dispatch ps ev q;
        (_, q) \<leftarrow> raw_FreeEvent ev q;
        Some q
      })"

fun raw_overflow_all :: "(nat \<Rightarrow> raw_push list) \<Rightarrow> nat \<Rightarrow> int list \<Rightarrow> raw_queue \<Rightarrow> raw_queue option" where
  "raw_overflow_all during n [] q = Some q"
| "raw_overflow_all during n (i # is) q = do {
     q \<leftarrow> raw_DispatchOverflow (during n) i q;
     raw_overflow_all during (Suc n) is q
   }"

text \<open>The arrays swapped in are empty.\<close>

definition raw_FlushQueue :: "(nat \<Rightarrow> raw_push list) \<Rightarrow> raw_queue \<Rightarrow> raw_queue option" where
  "raw_FlushQueue during q = do {
     let events = rq_Events q;
     let overflow_handles = rq_Overflow q;
     q \<leftarrow> raw_dispatch_all during 0 events (q\<lparr>rq_Events := [], rq_Overflow := []\<rparr>);
     raw_overflow_all during (length events) overflow_handles q
   }"

fun raw_free_all :: "raw_event list \<Rightarrow> raw_queue \<Rightarrow> raw_queue option" where
  "raw_free_all [] q = Some q"
| "raw_free_all (ev # evs) q = do { (_, q) \<leftarrow> raw_FreeEvent ev q; raw_free_all evs q }"

text \<open>The queue's part of \<open>AppFinalizeSSE\<close>; the wait for the threads is in \<open>Guard\<close>.\<close>

definition raw_AppFinalize :: "raw_queue \<Rightarrow> raw_queue option" where
  "raw_AppFinalize q = do {
     q \<leftarrow> raw_free_all (rq_Events q) (q\<lparr>rq_Active := False\<rparr>);
     Some (q\<lparr>rq_Events := [], rq_Overflow := [], rq_Capacity := 0\<rparr>)
   }"

section \<open>Who owns a block\<close>

definition ptr :: "nat option \<Rightarrow> nat multiset" where
  "ptr p = (case p of None \<Rightarrow> {#} | Some a \<Rightarrow> {#a#})"

definition pointers :: "raw_event \<Rightarrow> nat multiset" where
  "pointers ev = ptr (re_Event ev) + ptr (re_Data ev) + ptr (re_Id ev) + ptr (re_Error ev)"

definition owned :: "raw_event list \<Rightarrow> nat multiset" where
  "owned evs = sum_list (map pointers evs)"

text \<open>\<open>M\<close> are the pointers outside the queue: every allocated block has one owner, and every pointer is allocated.\<close>

definition memory_ok :: "nat multiset \<Rightarrow> raw_queue \<Rightarrow> bool" where
  "memory_ok M q \<longleftrightarrow> (\<forall>a. count (M + owned (rq_Events q)) a = (if mm_Blocks q a = None then 0 else 1))
     \<and> (\<forall>a \<ge> mm_Next q. mm_Blocks q a = None)"

lemma pointers_new [simp]: "pointers raw_event_new = {#}"
  by (simp add: pointers_def raw_event_new_def ptr_def)

lemma owned_simps [simp]: "owned [] = {#}" "owned (ev # evs) = pointers ev + owned evs" "owned (evs @ fs) = owned evs + owned fs"
  by (simp_all add: owned_def)

text \<open>Blocks were freed, and none of those that \<open>M\<close> and the queue own.\<close>

definition freed :: "nat multiset \<Rightarrow> raw_queue \<Rightarrow> raw_queue \<Rightarrow> bool" where
  "freed M q q1 \<longleftrightarrow> memory_ok M q1
     \<and> (\<exists>B. q1 = q\<lparr>mm_Blocks := B\<rparr> \<and> (\<forall>a. a \<in># M + owned (rq_Events q) \<longrightarrow> B a = mm_Blocks q a))"

lemma freed_trans: "freed (K + M) q q1 \<Longrightarrow> freed M q1 q2 \<Longrightarrow> freed M q q2"
  by (fastforce simp: freed_def)

lemma memory_ok_count:
  "memory_ok M q \<Longrightarrow> count M a + count (owned (rq_Events q)) a = (if mm_Blocks q a = None then 0 else 1)"
  unfolding memory_ok_def count_union [symmetric] by blast

lemma free_ok:
  assumes ok: "memory_ok (ptr p + M) q"
  shows "\<exists>q1. raw_free p q = Some q1 \<and> freed M q q1"
proof (cases p)
  case None
  then show ?thesis using ok by (auto simp: raw_free_def ptr_def freed_def intro!: exI [of _ "mm_Blocks q"])
next
  case (Some a)
  let ?q = "q\<lparr>mm_Blocks := (mm_Blocks q)(a := None)\<rparr>"
  have c: "count M b + count (owned (rq_Events q)) b + (if b = a then 1 else 0) = (if mm_Blocks q b = None then 0 else 1)" for b
    using memory_ok_count [OF ok, of b] Some by (simp add: ptr_def split: if_splits)
  from c [of a] have a: "mm_Blocks q a \<noteq> None" "count M a = 0" "count (owned (rq_Events q)) a = 0" by (auto split: if_splits)
  have "memory_ok M ?q"
    unfolding memory_ok_def
  proof (intro conjI allI impI)
    fix b
    show "count (M + owned (rq_Events ?q)) b = (if mm_Blocks ?q b = None then 0 else 1)"
      using c [of b] a(2,3) by (cases "b = a") simp_all
  next
    fix b assume "mm_Next ?q \<le> b"
    then show "mm_Blocks ?q b = None" using ok by (simp add: memory_ok_def)
  qed
  moreover have "b \<noteq> a" if "b \<in># M + owned (rq_Events q)" for b
    using that a(2,3) by (auto simp: count_eq_zero_iff)
  ultimately have "freed M q ?q" by (auto simp: freed_def)
  moreover have "raw_free p q = Some ?q" using Some a(1) by (auto simp: raw_free_def)
  ultimately show ?thesis by blast
qed

lemma FreeEvent_ok:
  assumes "memory_ok (pointers ev + M) q"
  shows "\<exists>q1. raw_FreeEvent ev q = Some (raw_event_new, q1) \<and> freed M q q1"
proof -
  let ?d = "ptr (re_Data ev)" and ?i = "ptr (re_Id ev)" and ?x = "ptr (re_Error ev)"
  have 0: "memory_ok (ptr (re_Event ev) + (?d + (?i + (?x + M)))) q"
    using assms by (simp add: pointers_def ac_simps)
  from free_ok [OF 0] obtain q1 where 1: "raw_free (re_Event ev) q = Some q1" "freed (?d + (?i + (?x + M))) q q1" by blast
  then have "memory_ok (?d + (?i + (?x + M))) q1" by (simp add: freed_def)
  from free_ok [OF this] obtain q2 where 2: "raw_free (re_Data ev) q1 = Some q2" "freed (?i + (?x + M)) q1 q2" by blast
  then have "memory_ok (?i + (?x + M)) q2" by (simp add: freed_def)
  from free_ok [OF this] obtain q3 where 3: "raw_free (re_Id ev) q2 = Some q3" "freed (?x + M) q2 q3" by blast
  then have "memory_ok (?x + M) q3" by (simp add: freed_def)
  from free_ok [OF this] obtain q4 where 4: "raw_free (re_Error ev) q3 = Some q4" "freed M q3 q4" by blast
  from freed_trans [OF freed_trans [OF freed_trans [OF 1(2) 2(2)] 3(2)] 4(2)] 1(1) 2(1) 3(1) 4(1)
  show ?thesis by (simp add: raw_FreeEvent_def)
qed

section \<open>The queue of events refines the queue of texts\<close>

lemma read_cong:
  "(\<And>a. a \<in># pointers ev \<Longrightarrow> mm_Blocks q1 a = mm_Blocks q a) \<Longrightarrow> read_event q1 ev = read_event q ev"
proof -
  have r: "raw_read p q1 = raw_read p q" if "\<And>a. a \<in># ptr p \<Longrightarrow> mm_Blocks q1 a = mm_Blocks q a" for p
    using that by (cases p) (simp_all add: raw_read_def ptr_def)
  assume "\<And>a. a \<in># pointers ev \<Longrightarrow> mm_Blocks q1 a = mm_Blocks q a"
  then have "raw_read (re_Event ev) q1 = raw_read (re_Event ev) q" "raw_read (re_Data ev) q1 = raw_read (re_Data ev) q"
    "raw_read (re_Id ev) q1 = raw_read (re_Id ev) q" "raw_read (re_Error ev) q1 = raw_read (re_Error ev) q"
    by (intro r; simp add: pointers_def)+
  then show ?thesis by (simp add: read_event_def)
qed

lemma read_all_cong:
  assumes "\<And>a. a \<in># owned evs \<Longrightarrow> mm_Blocks q1 a = mm_Blocks q a"
  shows "map (read_event q1) evs = map (read_event q) evs"
proof (rule map_cong [OF refl])
  fix ev assume "ev \<in> set evs"
  then have "a \<in># pointers ev \<Longrightarrow> a \<in># owned evs" for a by (induction evs) auto
  then show "read_event q1 ev = read_event q ev" using assms by (intro read_cong) blast
qed

lemma queue_members [simp]:
  "read_event (q\<lparr>rq_Overflow := x\<rparr>) = read_event q" "read_event (q\<lparr>rq_Events := evs\<rparr>) = read_event q"
  "read_event (q\<lparr>rq_Events := evs, rq_Overflow := x\<rparr>) = read_event q"
  "read_event (q\<lparr>rq_Dispatched := es\<rparr>) = read_event q" "read_event (q\<lparr>rq_Active := b\<rparr>) = read_event q"
  "memory_ok M (q\<lparr>rq_Overflow := x\<rparr>) = memory_ok M q" "memory_ok M (q\<lparr>rq_Dispatched := es\<rparr>) = memory_ok M q"
  "memory_ok M (q\<lparr>rq_Active := b\<rparr>) = memory_ok M q"
  by (auto simp: fun_eq_iff memory_ok_def intro!: read_cong)

lemma memory_ok_events:
  "M + owned (rq_Events q) = N + owned evs \<Longrightarrow> memory_ok N (q\<lparr>rq_Events := evs\<rparr>) = memory_ok M q"
  by (simp add: memory_ok_def del: count_union)

text \<open>\<open>fl\<close> are events outside the queue, and \<open>es\<close> their texts.\<close>

definition represents :: "raw_event list \<Rightarrow> SSEEvent list \<Rightarrow> raw_queue \<Rightarrow> 'w sse \<Rightarrow> bool" where
  "represents fl es q s \<longleftrightarrow> memory_ok (owned fl) q \<and> map (read_event q) fl = map Some es
     \<and> map (read_event q) (rq_Events q) = map Some (g_Events s) \<and> rq_Overflow q = g_OverflowHandles s
     \<and> rq_Capacity q = g_Capacity s \<and> rq_Active q = g_Active s"

lemma free_represents:
  assumes r: "represents (ev # fl) (e # es) q s"
  shows "\<exists>q1. raw_FreeEvent ev q = Some (raw_event_new, q1) \<and> represents fl es q1 s \<and> rq_Dispatched q1 = rq_Dispatched q"
proof -
  from r have "memory_ok (pointers ev + owned fl) q" by (simp add: represents_def)
  from FreeEvent_ok [OF this] obtain q1 B where 1: "raw_FreeEvent ev q = Some (raw_event_new, q1)" "memory_ok (owned fl) q1"
    "q1 = q\<lparr>mm_Blocks := B\<rparr>" and B: "\<And>a. a \<in># owned fl + owned (rq_Events q) \<Longrightarrow> B a = mm_Blocks q a"
    unfolding freed_def by blast
  have "map (read_event q1) fl = map (read_event q) fl" "map (read_event q1) (rq_Events q) = map (read_event q) (rq_Events q)"
    using B by (intro read_all_cong; simp add: 1(3))+
  with 1 r show ?thesis by (simp add: represents_def)
qed

lemma push_represents:
  assumes r: "represents (ev # fl) (e # es) q s"
  shows "\<exists>q1. raw_QueuePush ev q = Some (fst (SSE_QueuePush e s), q1) \<and> represents fl es q1 (snd (SSE_QueuePush e s))
    \<and> rq_Dispatched q1 = rq_Dispatched q"
proof -
  have h: "re_Handle ev = ev_Handle e" using r by (auto simp: represents_def read_event_def bind_eq_Some_conv)
  have len: "length (rq_Events q) = length (g_Events s)" using r unfolding represents_def by (metis length_map)
  consider "\<not> g_Active s" | "g_Active s" "queue_full s" | "g_Active s" "\<not> queue_full s" by blast
  then show ?thesis
  proof cases
    case 1
    with free_represents [OF r] r show ?thesis by (auto simp: raw_QueuePush_def SSE_QueuePush_def represents_def)
  next
    case 2
    let ?q = "if list_ex (\<lambda>h. h = re_Handle ev) (rq_Overflow q) then q else q\<lparr>rq_Overflow := rq_Overflow q @ [re_Handle ev]\<rparr>"
    let ?s = "snd (SSE_QueuePush e s)"
    have "represents (ev # fl) (e # es) ?q ?s"
      using r 2 h by (simp add: represents_def queue_defs)
    from free_represents [OF this] obtain q1 where "raw_FreeEvent ev ?q = Some (raw_event_new, q1)" "represents fl es q1 ?s"
      "rq_Dispatched q1 = rq_Dispatched ?q" by blast
    moreover have "raw_QueuePush ev q = do { (_, q) \<leftarrow> raw_FreeEvent ev ?q; Some (False, q) }"
      using r 2 len unfolding raw_QueuePush_def by (simp add: represents_def queue_full_def)
    ultimately show ?thesis using 2 by (simp add: SSE_QueuePush_def)
  next
    case 3
    let ?q = "q\<lparr>rq_Events := rq_Events q @ [ev]\<rparr>"
    have "represents fl es ?q (s\<lparr>g_Events := g_Events s @ [e]\<rparr>)"
      using r by (simp add: represents_def memory_ok_events [of "owned (ev # fl)" q "owned fl"] ac_simps)
    with r 3 len show ?thesis by (auto simp: raw_QueuePush_def SSE_QueuePush_def represents_def queue_full_def)
  qed
qed

text \<open>A copied string, for a pointer that is about to be part of an event.\<close>

lemma StrDup_ok:
  assumes ok: "memory_ok M q"
  shows "\<exists>a q1. raw_StrDup (Some v) q = (Some a, q1) \<and> memory_ok ({#a#} + M) q1 \<and> mm_Blocks q1 a = Some (c_str v)
    \<and> (\<forall>b. b \<in># M + owned (rq_Events q) \<longrightarrow> b \<noteq> a) \<and> (\<exists>B n. q1 = q\<lparr>mm_Blocks := B, mm_Next := n\<rparr> \<and> (\<forall>b. b \<noteq> a \<longrightarrow> B b = mm_Blocks q b))"
proof -
  let ?a = "mm_Next q" and ?q = "q\<lparr>mm_Blocks := (mm_Blocks q)(mm_Next q \<mapsto> c_str v), mm_Next := Suc (mm_Next q)\<rparr>"
  have n: "mm_Blocks q ?a = None" using ok by (simp add: memory_ok_def)
  with memory_ok_count [OF ok, of ?a] have z: "count M ?a = 0" "count (owned (rq_Events q)) ?a = 0" by simp_all
  have "memory_ok ({#?a#} + M) ?q"
    unfolding memory_ok_def
  proof (intro conjI allI impI)
    fix b
    show "count ({#?a#} + M + owned (rq_Events ?q)) b = (if mm_Blocks ?q b = None then 0 else 1)"
      using memory_ok_count [OF ok, of b] z by (cases "b = ?a") simp_all
  next
    fix b assume "mm_Next ?q \<le> b"
    then show "mm_Blocks ?q b = None" using ok by (simp add: memory_ok_def)
  qed
  moreover have "b \<noteq> ?a" if "b \<in># M + owned (rq_Events q)" for b
    using that z by (auto simp: count_eq_zero_iff)
  ultimately show ?thesis by (auto simp: raw_StrDup_def)
qed

text \<open>An event gets a string; \<open>set_ptr\<close> and \<open>set_text\<close> write one of its members.\<close>

lemma StrDup_represents:
  assumes r: "represents (ev # fl) (e # es) q s"
    and p: "\<And>a. pointers (set_ptr (Some a) ev) = {#a#} + pointers ev"
    and t: "\<And>a (q1 :: raw_queue). mm_Blocks q1 a = Some (c_str v) \<Longrightarrow> read_event q1 ev = Some e \<Longrightarrow>
      read_event q1 (set_ptr (Some a) ev) = Some (set_text (SSE_StrDup (Some v)) e)"
  shows "\<exists>a q1. raw_StrDup (Some v) q = (a, q1)
    \<and> represents (set_ptr a ev # fl) (set_text (SSE_StrDup (Some v)) e # es) q1 s \<and> rq_Dispatched q1 = rq_Dispatched q"
proof -
  from r have ok: "memory_ok (pointers ev + owned fl) q" by (simp add: represents_def)
  from StrDup_ok [OF ok, of v] obtain a q1 B n where D: "raw_StrDup (Some v) q = (Some a, q1)"
    "memory_ok ({#a#} + (pointers ev + owned fl)) q1" "mm_Blocks q1 a = Some (c_str v)"
    "q1 = q\<lparr>mm_Blocks := B, mm_Next := n\<rparr>"
    and B: "\<And>b. b \<in># pointers ev + owned fl + owned (rq_Events q) \<Longrightarrow> B b = mm_Blocks q b" by blast
  have k: "map (read_event q1) fl = map (read_event q) fl" "map (read_event q1) (rq_Events q) = map (read_event q) (rq_Events q)"
    using B by (intro read_all_cong; simp add: D(4))+
  have "read_event q1 ev = read_event q ev" using B by (intro read_cong) (simp add: D(4))
  then have "read_event q1 ev = Some e" using r by (simp add: represents_def)
  from t [OF D(3) this] D k r have "represents (set_ptr (Some a) ev # fl) (set_text (SSE_StrDup (Some v)) e # es) q1 s"
    by (simp add: represents_def p ac_simps del: map_eq_conv)
  with D show ?thesis by auto
qed

lemmas member_defs = pointers_def ptr_def raw_event_new_def SSEEvent_new_def read_event_def raw_read_def SSE_StrDup_def

lemma new_represents: "represents fl es q s \<Longrightarrow>
  represents (raw_event_new\<lparr>re_Handle := i, re_Type := ty, re_Status := st, re_RetryMS := ms, re_Reconnect := b\<rparr> # fl)
    (SSEEvent_new\<lparr>ev_Handle := i, ev_Type := ty, ev_Status := st, ev_RetryMS := ms, ev_Reconnect := b\<rparr> # es) q s"
  by (simp add: represents_def pointers_def ptr_def raw_event_new_def SSEEvent_new_def read_event_def raw_read_def)

text \<open>The pushes, against those of \<open>EventQueue\<close>.\<close>

definition pushed_open :: "int \<Rightarrow> int \<Rightarrow> SSEEvent" where
  "pushed_open i status = SSEEvent_new\<lparr>ev_Handle := i, ev_Type := event_type_code SSE_EVENT_OPEN, ev_Status := status\<rparr>"

definition pushed_closed :: "int \<Rightarrow> SSEEvent" where
  "pushed_closed i = SSEEvent_new\<lparr>ev_Handle := i, ev_Type := event_type_code SSE_EVENT_CLOSED\<rparr>"

fun pushed :: "raw_push \<Rightarrow> SSEEvent" where
  "pushed (RMessage i n d x) = message_event i n d x"
| "pushed (RError i m st r ms) = error_event i m st r ms"
| "pushed (ROpen i st) = pushed_open i st"
| "pushed (RClosed i) = pushed_closed i"

lemma message_represents:
  assumes r: "represents fl es q s"
  shows "\<exists>q1. raw_step (RMessage i n d x) q = Some (fst (SSE_QueuePush (message_event i n d x) s), q1)
    \<and> represents fl es q1 (snd (SSE_QueuePush (message_event i n d x) s)) \<and> rq_Dispatched q1 = rq_Dispatched q"
proof -
  let ?n = "case n of None \<Rightarrow> ''message'' | Some x \<Rightarrow> x" and ?d = "case d of None \<Rightarrow> [] | Some x \<Rightarrow> x"
    and ?x = "case x of None \<Rightarrow> [] | Some x \<Rightarrow> x"
  let ?ev = "raw_event_new\<lparr>re_Handle := i, re_Type := event_type_code SSE_EVENT_MESSAGE\<rparr>"
    and ?e = "SSEEvent_new\<lparr>ev_Handle := i, ev_Type := event_type_code SSE_EVENT_MESSAGE\<rparr>"
  have 0: "represents (?ev # fl) (?e # es) q s"
    using new_represents [OF r, where i = i and ty = "event_type_code SSE_EVENT_MESSAGE" and st = 0 and ms = 0 and b = False] by (simp add: raw_event_new_def SSEEvent_new_def)
  have "\<exists>a q1. raw_StrDup (Some ?n) q = (a, q1)
      \<and> represents (?ev\<lparr>re_Event := a\<rparr> # fl) (?e\<lparr>ev_Event := SSE_StrDup (Some ?n)\<rparr> # es) q1 s \<and> rq_Dispatched q1 = rq_Dispatched q"
    by (rule StrDup_represents [OF 0, where set_ptr = "\<lambda>p ev. ev\<lparr>re_Event := p\<rparr>" and set_text = "\<lambda>t e. e\<lparr>ev_Event := t\<rparr>"])
      (auto simp: member_defs bind_eq_Some_conv)
  then obtain a q1 where 1: "raw_StrDup (Some ?n) q = (a, q1)" "rq_Dispatched q1 = rq_Dispatched q"
    "represents (?ev\<lparr>re_Event := a\<rparr> # fl) (?e\<lparr>ev_Event := SSE_StrDup (Some ?n)\<rparr> # es) q1 s" by blast
  have "\<exists>b q2. raw_StrDup (Some ?d) q1 = (b, q2)
      \<and> represents (?ev\<lparr>re_Event := a, re_Data := b\<rparr> # fl)
        (?e\<lparr>ev_Event := SSE_StrDup (Some ?n), ev_Data := SSE_StrDup (Some ?d)\<rparr> # es) q2 s \<and> rq_Dispatched q2 = rq_Dispatched q1"
    by (rule StrDup_represents [OF 1(3), where set_ptr = "\<lambda>p ev. ev\<lparr>re_Data := p\<rparr>" and set_text = "\<lambda>t e. e\<lparr>ev_Data := t\<rparr>"])
      (auto simp: member_defs bind_eq_Some_conv)
  then obtain b q2 where 2: "raw_StrDup (Some ?d) q1 = (b, q2)" "rq_Dispatched q2 = rq_Dispatched q1"
    "represents (?ev\<lparr>re_Event := a, re_Data := b\<rparr> # fl)
        (?e\<lparr>ev_Event := SSE_StrDup (Some ?n), ev_Data := SSE_StrDup (Some ?d)\<rparr> # es) q2 s" by blast
  have "\<exists>k q3. raw_StrDup (Some ?x) q2 = (k, q3)
      \<and> represents (?ev\<lparr>re_Event := a, re_Data := b, re_Id := k\<rparr> # fl)
        (?e\<lparr>ev_Event := SSE_StrDup (Some ?n), ev_Data := SSE_StrDup (Some ?d), ev_Id := SSE_StrDup (Some ?x)\<rparr> # es) q3 s
      \<and> rq_Dispatched q3 = rq_Dispatched q2"
    by (rule StrDup_represents [OF 2(3), where set_ptr = "\<lambda>p ev. ev\<lparr>re_Id := p\<rparr>" and set_text = "\<lambda>t e. e\<lparr>ev_Id := t\<rparr>"])
      (auto simp: member_defs bind_eq_Some_conv)
  then obtain k q3 where 3: "raw_StrDup (Some ?x) q2 = (k, q3)" "rq_Dispatched q3 = rq_Dispatched q2"
    "represents (?ev\<lparr>re_Event := a, re_Data := b, re_Id := k\<rparr> # fl) (message_event i n d x # es) q3 s"
    unfolding message_event_def by auto
  from push_represents [OF 3(3)] 1 2 3 show ?thesis by (simp add: raw_EnqueueMessage_def)
qed

lemma error_represents:
  assumes r: "represents fl es q s"
  shows "\<exists>a q1. raw_StrDup (Some v) q = (a, q1)
    \<and> represents (raw_event_new\<lparr>re_Handle := i, re_Type := ty, re_Status := st, re_RetryMS := ms, re_Reconnect := b, re_Error := a\<rparr> # fl)
        (SSEEvent_new\<lparr>ev_Handle := i, ev_Type := ty, ev_Status := st, ev_RetryMS := ms, ev_Reconnect := b,
           ev_Error := SSE_StrDup (Some v)\<rparr> # es) q1 s
    \<and> rq_Dispatched q1 = rq_Dispatched q"
  by (rule StrDup_represents [OF new_represents [OF r, where i = i and ty = ty and st = st and ms = ms and b = b],
        where set_ptr = "\<lambda>p ev. ev\<lparr>re_Error := p\<rparr>" and set_text = "\<lambda>t e. e\<lparr>ev_Error := t\<rparr>"])
    (auto simp: member_defs bind_eq_Some_conv)

lemma step_represents:
  assumes r: "represents fl es q s"
  shows "\<exists>q1. raw_step p q = Some (fst (SSE_QueuePush (pushed p) s), q1)
    \<and> represents fl es q1 (snd (SSE_QueuePush (pushed p) s)) \<and> rq_Dispatched q1 = rq_Dispatched q"
proof (cases p)
  case (RMessage i n d x)
  with message_represents [OF r] show ?thesis by simp
next
  case (RError i m st b ms)
  obtain a q1 where 1: "raw_StrDup (Some (case m of None \<Rightarrow> ''SSE error'' | Some x \<Rightarrow> x)) q = (a, q1)" "rq_Dispatched q1 = rq_Dispatched q"
    "represents (raw_event_new\<lparr>re_Handle := i, re_Type := event_type_code SSE_EVENT_ERROR, re_Status := st, re_RetryMS := ms,
       re_Reconnect := b, re_Error := a\<rparr> # fl) (error_event i m st b ms # es) q1 s"
    using error_represents [OF r, where v = "case m of None \<Rightarrow> ''SSE error'' | Some x \<Rightarrow> x" and i = i and ty = "event_type_code SSE_EVENT_ERROR" and st = st and ms = ms and b = b]
    unfolding error_event_def by blast
  from push_represents [OF 1(3)] 1(1,2) RError show ?thesis by (simp add: raw_EnqueueError_def)
next
  case (ROpen i st)
  have "represents (raw_event_new\<lparr>re_Handle := i, re_Type := event_type_code SSE_EVENT_OPEN, re_Status := st\<rparr> # fl)
      (pushed_open i st # es) q s"
    using new_represents [OF r, where i = i and ty = "event_type_code SSE_EVENT_OPEN" and st = st and ms = 0 and b = False]
    by (simp add: raw_event_new_def SSEEvent_new_def pushed_open_def)
  from push_represents [OF this] ROpen show ?thesis by (simp add: raw_EnqueueOpen_def)
next
  case (RClosed i)
  have "represents (raw_event_new\<lparr>re_Handle := i, re_Type := event_type_code SSE_EVENT_CLOSED\<rparr> # fl) (pushed_closed i # es) q s"
    using new_represents [OF r, where i = i and ty = "event_type_code SSE_EVENT_CLOSED" and st = 0 and ms = 0 and b = False]
    by (simp add: raw_event_new_def SSEEvent_new_def pushed_closed_def)
  from push_represents [OF this] RClosed show ?thesis by (simp add: raw_EnqueueClosed_def)
qed

section \<open>Whole runs\<close>

definition pushes :: "raw_push list \<Rightarrow> 'w sse \<Rightarrow> 'w sse" where
  "pushes ps s = fold (\<lambda>p s. snd (SSE_QueuePush (pushed p) s)) ps s"

lemma pushes_simps [simp]:
  "pushes [] s = s" "pushes (p # ps) s = pushes ps (snd (SSE_QueuePush (pushed p) s))" "pushes (ps @ rs) s = pushes rs (pushes ps s)"
  by (simp_all add: pushes_def)

lemma steps_represents:
  "represents fl es q s \<Longrightarrow>
    \<exists>q1. raw_steps ps q = Some q1 \<and> represents fl es q1 (pushes ps s) \<and> rq_Dispatched q1 = rq_Dispatched q"
proof (induction ps arbitrary: q s)
  case (Cons p ps)
  from step_represents [OF Cons.prems, of p] obtain q1 where 1:
    "raw_step p q = Some (fst (SSE_QueuePush (pushed p) s), q1)" "represents fl es q1 (snd (SSE_QueuePush (pushed p) s))"
    "rq_Dispatched q1 = rq_Dispatched q" by blast
  from Cons.IH [OF 1(2)] 1 show ?case by auto
qed simp

lemma dispatch_represents:
  assumes r: "represents (ev # fl) (e # es) q s"
  shows "\<exists>q1. raw_Dispatch ps ev q = Some q1 \<and> represents (ev # fl) (e # es) q1 (pushes ps s)
    \<and> rq_Dispatched q1 = rq_Dispatched q @ [e]"
proof -
  let ?q = "q\<lparr>rq_Dispatched := rq_Dispatched q @ [e]\<rparr>"
  have "represents (ev # fl) (e # es) ?q s" using r by (simp add: represents_def)
  from steps_represents [OF this, of ps] r show ?thesis by (auto simp: raw_Dispatch_def represents_def)
qed

lemma upt_first: "[n..<n + length (x # xs)] = n # [Suc n..<Suc n + length xs]"
  by (subst upt_rec) simp

lemma dispatch_all_represents:
  "represents fl es q s \<Longrightarrow>
    \<exists>q1. raw_dispatch_all during n fl q = Some q1
      \<and> represents [] [] q1 (pushes (concat (map during [n..<n + length fl])) s) \<and> rq_Dispatched q1 = rq_Dispatched q @ es"
proof (induction fl arbitrary: es n q s)
  case Nil
  then show ?case by (simp add: represents_def)
next
  case (Cons ev fl)
  then obtain e es1 where es: "es = e # es1" by (cases es) (simp_all add: represents_def)
  from dispatch_represents [OF Cons.prems [unfolded es]] obtain q1 where 1: "raw_Dispatch (during n) ev q = Some q1"
    "represents (ev # fl) (e # es1) q1 (pushes (during n) s)" "rq_Dispatched q1 = rq_Dispatched q @ [e]" by blast
  from free_represents [OF 1(2)] obtain q2 where 2: "raw_FreeEvent ev q1 = Some (raw_event_new, q2)"
    "represents fl es1 q2 (pushes (during n) s)" "rq_Dispatched q2 = rq_Dispatched q1" by blast
  have "[n..<n + length (ev # fl)] = n # [Suc n..<Suc n + length fl]" by (rule upt_first)
  with Cons.IH [OF 2(2), of "Suc n"] 1 2 es show ?case by auto
qed

lemma overflow_all_represents:
  "represents [] [] q s \<Longrightarrow>
    \<exists>q1. raw_overflow_all during n is q = Some q1
      \<and> represents [] [] q1 (pushes (concat (map during [n..<n + length is])) s)
      \<and> rq_Dispatched q1 = rq_Dispatched q @ map overflow_event is"
proof (induction "is" arbitrary: n q s)
  case Nil
  then show ?case by simp
next
  case (Cons i "is")
  let ?text = "''SSE event queue overflow; events were dropped''"
  from error_represents [OF Cons.prems, where v = ?text and i = i and ty = "event_type_code SSE_EVENT_ERROR" and st = 0 and ms = "-1" and b = False]
  obtain x q0 where 0: "raw_StrDup (Some ?text) q = (x, q0)" "rq_Dispatched q0 = rq_Dispatched q"
    "represents [raw_event_new\<lparr>re_Handle := i, re_Type := event_type_code SSE_EVENT_ERROR, re_Status := 0, re_RetryMS := -1, re_Error := x\<rparr>]
       [overflow_event i] q0 s"
    by (auto simp: raw_event_new_def SSEEvent_new_def overflow_event_def)
  from dispatch_represents [OF 0(3), of "during n"] obtain q1 where 1:
    "raw_Dispatch (during n) (raw_event_new\<lparr>re_Handle := i, re_Type := event_type_code SSE_EVENT_ERROR, re_Status := 0, re_RetryMS := -1,
       re_Error := x\<rparr>) q0 = Some q1"
    "represents [raw_event_new\<lparr>re_Handle := i, re_Type := event_type_code SSE_EVENT_ERROR, re_Status := 0, re_RetryMS := -1, re_Error := x\<rparr>]
       [overflow_event i] q1 (pushes (during n) s)" "rq_Dispatched q1 = rq_Dispatched q0 @ [overflow_event i]" by blast
  from free_represents [OF 1(2)] obtain q2 where 2: "represents [] [] q2 (pushes (during n) s)" "rq_Dispatched q2 = rq_Dispatched q1"
    and "raw_DispatchOverflow (during n) i q = Some q2"
    using 0(1) 1(1) by (auto simp: raw_DispatchOverflow_def)
  moreover have "[n..<n + length (i # is)] = n # [Suc n..<Suc n + length is]" by (rule upt_first)
  ultimately show ?case using Cons.IH [OF 2(1), of "Suc n"] 0 1 by auto
qed

lemma flush_represents:
  assumes r: "represents [] [] q s"
  shows "\<exists>q1. raw_FlushQueue during q = Some q1
    \<and> represents [] [] q1 (pushes (concat (map during [0..<length (g_Events s) + length (g_OverflowHandles s)]))
        (s\<lparr>g_Events := [], g_OverflowHandles := []\<rparr>))
    \<and> rq_Dispatched q1 = rq_Dispatched q @ g_Events s @ map overflow_event (g_OverflowHandles s)"
proof -
  let ?s = "s\<lparr>g_Events := [], g_OverflowHandles := []\<rparr>"
  have len: "length (rq_Events q) = length (g_Events s)" using r unfolding represents_def by (metis length_map)
  have "represents (rq_Events q) (g_Events s) (q\<lparr>rq_Events := [], rq_Overflow := []\<rparr>) ?s"
    using r memory_ok_events [of "{#}" q "owned (rq_Events q)" "[]"] by (simp add: represents_def)
  from dispatch_all_represents [OF this, of during 0] len obtain q1 where 1:
    "raw_dispatch_all during 0 (rq_Events q) (q\<lparr>rq_Events := [], rq_Overflow := []\<rparr>) = Some q1"
    "represents [] [] q1 (pushes (concat (map during [0..<length (g_Events s)])) ?s)" "rq_Dispatched q1 = rq_Dispatched q @ g_Events s"
    by auto
  let ?m = "length (g_Events s)" and ?k = "length (g_OverflowHandles s)"
  have u: "[0..<?m + ?k] = [0..<?m] @ [?m..<?m + ?k]" by (rule upt_add_eq_append) simp
  from overflow_all_represents [OF 1(2), of during ?m "g_OverflowHandles s"] obtain q2 where
    "raw_overflow_all during ?m (g_OverflowHandles s) q1 = Some q2"
    "represents [] [] q2 (pushes (concat (map during [?m..<?m + ?k])) (pushes (concat (map during [0..<?m])) ?s))"
    "rq_Dispatched q2 = rq_Dispatched q1 @ map overflow_event (g_OverflowHandles s)" by blast
  moreover have "rq_Overflow q = g_OverflowHandles s" using r by (simp add: represents_def)
  ultimately show ?thesis
    using 1(1,3) len unfolding u by (simp add: raw_FlushQueue_def)
qed

lemma free_all_represents:
  "represents fl es q s \<Longrightarrow> \<exists>q1. raw_free_all fl q = Some q1 \<and> represents [] [] q1 s"
proof (induction fl arbitrary: es q)
  case Nil
  then show ?case by (simp add: represents_def)
next
  case (Cons ev fl)
  then obtain e es1 where es: "es = e # es1" by (cases es) (simp_all add: represents_def)
  from free_represents [OF Cons.prems [unfolded es]] Cons.IH show ?case by fastforce
qed

lemma free_events:
  "raw_free_all fl (q\<lparr>rq_Events := evs\<rparr>) = map_option (\<lambda>q. q\<lparr>rq_Events := evs\<rparr>) (raw_free_all fl q)"
proof (induction fl arbitrary: q)
  case (Cons ev fl)
  have f: "raw_free p (q\<lparr>rq_Events := evs\<rparr>) = map_option (\<lambda>q. q\<lparr>rq_Events := evs\<rparr>) (raw_free p q)" for p q
    by (simp add: raw_free_def split: option.split)
  have "raw_FreeEvent ev (q\<lparr>rq_Events := evs\<rparr>) = map_option (map_prod id (\<lambda>q. q\<lparr>rq_Events := evs\<rparr>)) (raw_FreeEvent ev q)"
    by (simp add: raw_FreeEvent_def f split: Option.bind_splits)
  with Cons.IH show ?case by (auto split: Option.bind_splits)
qed simp

lemma finalize_represents:
  assumes r: "represents [] [] q s"
  shows "\<exists>q1. raw_AppFinalize q = Some q1 \<and> mm_Blocks q1 = Map.empty"
proof -
  let ?q = "q\<lparr>rq_Active := False, rq_Events := []\<rparr>"
  have "represents (rq_Events q) (g_Events s) ?q (s\<lparr>g_Active := False, g_Events := []\<rparr>)"
    using r memory_ok_events [of "{#}" "q\<lparr>rq_Active := False\<rparr>" "owned (rq_Events q)" "[]"] by (simp add: represents_def)
  from free_all_represents [OF this] obtain q1 where 1: "raw_free_all (rq_Events q) ?q = Some q1" "memory_ok {#} q1"
    "map (read_event q1) (rq_Events q1) = []" by (auto simp: represents_def)
  then have "mm_Blocks q1 a = None" for a using memory_ok_count [OF 1(2), of a] by (simp split: if_splits)
  then have "mm_Blocks q1 = Map.empty" by auto
  with 1(1) free_events [of "rq_Events q" "[]" "q\<lparr>rq_Active := False\<rparr>"] show ?thesis
    by (auto simp: raw_AppFinalize_def)
qed

datatype raw_op = Pushes "raw_push list" | Flush "nat \<Rightarrow> raw_push list"

fun raw_run :: "raw_op list \<Rightarrow> raw_queue \<Rightarrow> raw_queue option" where
  "raw_run [] q = Some q"
| "raw_run (Pushes ps # ops) q = do { q \<leftarrow> raw_steps ps q; raw_run ops q }"
| "raw_run (Flush during # ops) q = do { q \<leftarrow> raw_FlushQueue during q; raw_run ops q }"

text \<open>The same run of the queue of \<open>EventQueue\<close>, and the events that it dispatches.\<close>

fun text_run :: "raw_op list \<Rightarrow> 'w sse \<times> SSEEvent list \<Rightarrow> 'w sse \<times> SSEEvent list" where
  "text_run [] sl = sl"
| "text_run (Pushes ps # ops) sl = text_run ops (pushes ps (fst sl), snd sl)"
| "text_run (Flush during # ops) sl = (let s = fst sl in text_run ops
     (pushes (concat (map during [0..<length (g_Events s) + length (g_OverflowHandles s)])) (s\<lparr>g_Events := [], g_OverflowHandles := []\<rparr>),
      snd sl @ g_Events s @ map overflow_event (g_OverflowHandles s)))"

lemma run_represents:
  "represents [] [] q s \<Longrightarrow> \<exists>q1. raw_run ops q = Some q1
    \<and> represents [] [] q1 (fst (text_run ops (s, rq_Dispatched q))) \<and> rq_Dispatched q1 = snd (text_run ops (s, rq_Dispatched q))"
proof (induction ops arbitrary: q s)
  case (Cons op ops)
  show ?case
  proof (cases op)
    case (Pushes ps)
    from steps_represents [OF Cons.prems, of ps] obtain q1 where
      "raw_steps ps q = Some q1" "represents [] [] q1 (pushes ps s)" "rq_Dispatched q1 = rq_Dispatched q" by blast
    with Cons.IH [of q1 "pushes ps s"] Pushes show ?thesis by auto
  next
    case (Flush during)
    from flush_represents [OF Cons.prems, of during] obtain q1 where 1: "raw_FlushQueue during q = Some q1"
      "represents [] [] q1 (pushes (concat (map during [0..<length (g_Events s) + length (g_OverflowHandles s)]))
        (s\<lparr>g_Events := [], g_OverflowHandles := []\<rparr>))"
      "rq_Dispatched q1 = rq_Dispatched q @ g_Events s @ map overflow_event (g_OverflowHandles s)" by blast
    from Cons.IH [OF 1(2)] 1 Flush show ?thesis by (auto simp: Let_def)
  qed
qed simp

definition raw_queue_new :: "bool \<Rightarrow> nat \<Rightarrow> raw_queue" where
  "raw_queue_new active capacity = \<lparr>mm_Blocks = Map.empty, mm_Next = 0, rq_Active = active, rq_Capacity = capacity,
     rq_Events = [], rq_Overflow = [], rq_Dispatched = []\<rparr>"

text \<open>
  C7. The queue of events with pointers implements the queue of texts and leaks nothing: in every run of pushes from any thread and of
  flushes with pushes in between, no string is read or freed when it is not allocated; the
  same events are dispatched in the same order, the same are queued and the same overflows noted; the allocated strings are those of the queued
  events, each owned once; and the shutdown frees all that are left.
\<close>
theorem event_queue_memory_safe:
  fixes s :: "'w sse"
  defines "s0 \<equiv> s\<lparr>g_Events := [], g_OverflowHandles := []\<rparr>"
  shows "\<exists>q. raw_run ops (raw_queue_new (g_Active s) (g_Capacity s)) = Some q
    \<and> rq_Dispatched q = snd (text_run ops (s0, []))
    \<and> map (read_event q) (rq_Events q) = map Some (g_Events (fst (text_run ops (s0, []))))
    \<and> rq_Overflow q = g_OverflowHandles (fst (text_run ops (s0, [])))
    \<and> (\<forall>a. count (owned (rq_Events q)) a = (if mm_Blocks q a = None then 0 else 1))
    \<and> (\<exists>q1. raw_AppFinalize q = Some q1 \<and> mm_Blocks q1 = Map.empty)"
proof -
  let ?q = "raw_queue_new (g_Active s) (g_Capacity s)" and ?s1 = "fst (text_run ops (s0, []))"
  have "represents [] [] ?q s0" by (simp add: represents_def raw_queue_new_def s0_def memory_ok_def)
  from run_represents [OF this, of ops] obtain q where r: "raw_run ops ?q = Some q" "represents [] [] q ?s1"
    "rq_Dispatched q = snd (text_run ops (s0, []))" by (auto simp: raw_queue_new_def)
  then have "\<forall>a. count (owned (rq_Events q)) a = (if mm_Blocks q a = None then 0 else 1)"
    by (simp add: represents_def memory_ok_def)
  with r finalize_represents [OF r(2)] show ?thesis by (auto simp: represents_def)
qed

end
